theory Spec2Isabelle
  imports Main "HOL-Library.Sublist" "HOL-Library.Multiset"
begin

section \<open>JavaScript values used by the game engine\<close>

text \<open>
  Numbers that travel through the engine (called numbers, ticket cells, indices sent by a
  client) are JavaScript numbers; the embedding covers the integers. Loop counters and
  lengths are naturals. Dates are naturals (a clock reading passed in by the caller).
\<close>

text \<open>
  \<open>Math.random()\<close> is an external source. The embedding passes it in as the infinite
  sequence \<open>rnd\<close> of the raw values it hands out, together with the position \<open>pos\<close>
  of the next value; every function that draws returns the advanced position. The
  expression \<open>Math.floor(Math.random() * n)\<close> can produce every index below \<open>n\<close> and
  nothing else: it is the next raw value modulo \<open>n\<close>.
\<close>

type_synonym rng = "nat \<Rightarrow> nat"

definition randomBelow :: "rng \<Rightarrow> nat \<Rightarrow> nat \<Rightarrow> nat" where
  "randomBelow rnd pos n = rnd pos mod n"

text \<open>
  \<open>xs.sort(() => Math.random() - 0.5)\<close> rearranges \<open>xs\<close> with a comparator that
  ignores its arguments, so the outcome is some permutation of \<open>xs\<close> chosen by the random
  source. The embedding decodes one raw value into that permutation: it repeatedly removes
  the element at index \<open>r mod length\<close> and continues with \<open>r div length\<close>, which
  reaches every permutation.
\<close>

definition removeAt :: "nat \<Rightarrow> 'a list \<Rightarrow> 'a list" where
  "removeAt i xs = take i xs @ drop (Suc i) xs"

function sortRandom :: "nat \<Rightarrow> 'a list \<Rightarrow> 'a list" where
  "sortRandom r xs =
     (if xs = [] then []
      else xs ! (r mod length xs) # sortRandom (r div length xs) (removeAt (r mod length xs) xs))"
  by pat_completeness auto
termination
proof (relation "measure (\<lambda>(r, xs). length xs)", goal_cases)
  case 1
  show ?case by simp
next
  case (2 r xs)
  then have "r mod length xs < length xs" by simp
  then show ?case by (simp add: removeAt_def)
qed

declare sortRandom.simps [simp del]

text \<open>
  Reading \<open>xs[i]\<close> gives \<open>undefined\<close> outside the array; \<open>jsIndex\<close> returns
  \<open>None\<close> there.
\<close>

definition jsIndex :: "'a list \<Rightarrow> int \<Rightarrow> 'a option" where
  "jsIndex xs i = (if 0 \<le> i \<and> i < int (length xs) then Some (xs ! nat i) else None)"

text \<open>
  \<open>String.prototype.toUpperCase\<close> on the ASCII letters (room codes are drawn from
  \<open>A-Z\<close> and \<open>2-9\<close>).
\<close>

definition toUpperChar :: "char \<Rightarrow> char" where
  "toUpperChar c =
     (if (97::nat) \<le> of_char c \<and> of_char c \<le> (122::nat)
      then char_of (of_char c - (32::nat)) else c)"

definition toUpperCase :: "string \<Rightarrow> string" where
  "toUpperCase s = map toUpperChar s"

section \<open>Tickets (game-types.ts)\<close>

record TicketRow =
  cells :: "int option list"
  marked :: "bool list"

record TicketGrid =
  rows :: "TicketRow list"

text \<open>
  A ticket object. The generator of number-generator.ts writes the room into the property
  \<open>roomId\<close>, the one of server.js into \<open>roomCode\<close>; a property that an object does
  not have is \<open>None\<close>. The property \<open>id\<close> is called \<open>ticketId\<close> here.
\<close>

record LotoTicket =
  ticketId :: string
  grids :: "TicketGrid list"
  ownerId :: string
  roomCode :: "string option"
  roomId :: "string option"
  createdAt :: nat

text \<open>\<open>row.cells.filter(n => n !== null)\<close>: the numbers of a row, left to right.\<close>

definition rowNumbers :: "TicketRow \<Rightarrow> int list" where
  "rowNumbers row = map the (filter (\<lambda>n. n \<noteq> None) (cells row))"

section \<open>Number generator and game logic (number-generator.ts)\<close>

subsection \<open>Drawing the next number\<close>

definition generateNextNumber :: "rng \<Rightarrow> nat \<Rightarrow> int list \<Rightarrow> int option" where
  "generateNextNumber rnd pos calledNumbers =
     (let available = filter (\<lambda>i. i \<notin> set calledNumbers) [1..90]
      in if length available = 0 then None
         else Some (available ! randomBelow rnd pos (length available)))"

subsection \<open>Validation\<close>

record ValidationResult =
  isValid :: bool
  isWinner :: bool
  matchedNumbers :: "int list"
  missingNumbers :: "int list"

text \<open>
  \<open>validateNumbers\<close> of number-generator.ts; the function of the same name in server.js
  has the same body. \<open>calledNumbers.includes(n)\<close> is membership in the called list.
\<close>

definition validateNumbers :: "int list \<Rightarrow> int list \<Rightarrow> ValidationResult" where
  "validateNumbers numbers calledNumbers =
     (let matched = filter (\<lambda>n. n \<in> set calledNumbers) numbers;
          missing = filter (\<lambda>n. n \<notin> set calledNumbers) numbers
      in \<lparr> isValid = True,
           isWinner = (length matched = 5 \<and> length numbers = 5),
           matchedNumbers = matched,
           missingNumbers = missing \<rparr>)"

definition checkRowWinner :: "TicketRow \<Rightarrow> int list \<Rightarrow> bool" where
  "checkRowWinner row calledNumbers = list_all (\<lambda>num. num \<in> set calledNumbers) (rowNumbers row)"

text \<open>
  The scan of \<open>validateTicket\<close> over all rows of all grids, in grid-major order: the
  result of the first winning row, else the empty non-winning result.
\<close>

definition scanRows :: "LotoTicket \<Rightarrow> int list \<Rightarrow> ValidationResult" where
  "scanRows ticket calledNumbers =
     (case find isWinner
             (map (\<lambda>row. validateNumbers (rowNumbers row) calledNumbers)
                  (concat (map rows (grids ticket)))) of
        Some result \<Rightarrow> result
      | None \<Rightarrow> \<lparr> isValid = True, isWinner = False, matchedNumbers = [], missingNumbers = [] \<rparr>)"

text \<open>
  \<open>validateTicket(ticket, calledNumbers, claimedGrid?, claimedRow?)\<close>. An omitted
  argument is \<open>None\<close>. With both indices given and in range the claimed row alone is
  validated; reading \<open>row.cells\<close> of a row that the grid does not have throws a
  \<open>TypeError\<close>.
\<close>

datatype jsError = TypeError

definition validateTicket ::
    "LotoTicket \<Rightarrow> int list \<Rightarrow> int option \<Rightarrow> int option \<Rightarrow> jsError + ValidationResult" where
  "validateTicket ticket calledNumbers claimedGrid claimedRow =
     (if claimedGrid \<noteq> None \<and> claimedRow \<noteq> None \<and>
         0 \<le> the claimedGrid \<and> the claimedGrid < int (length (grids ticket)) \<and>
         0 \<le> the claimedRow \<and> the claimedRow < 3
      then (case jsIndex (rows (grids ticket ! nat (the claimedGrid))) (the claimedRow) of
              None \<Rightarrow> Inl TypeError
            | Some row \<Rightarrow> Inr (validateNumbers (rowNumbers row) calledNumbers))
      else Inr (scanRows ticket calledNumbers))"

subsection \<open>Grid generation\<close>

text \<open>
  Step 1 of \<open>generateUniqueGrid\<close> (and of \<open>generateGrid\<close>): the loop
  \<open>while (remaining > 0)\<close> that raises random columns, each up to 3. The loop runs until
  six draws have hit a column below 3; a random source that never produces such a column
  again keeps it running forever, which is the value \<open>None\<close>.
\<close>

partial_function (option) fillColCounts ::
    "rng \<Rightarrow> nat list \<Rightarrow> nat \<Rightarrow> nat \<Rightarrow> (nat list \<times> nat) option" where
  "fillColCounts rnd colCounts remaining pos =
     (if remaining > 0 then
        (let colIndex = randomBelow rnd pos 9 in
         if colCounts ! colIndex < 3
         then fillColCounts rnd (colCounts[colIndex := colCounts ! colIndex + 1])
                (remaining - 1) (pos + 1)
         else fillColCounts rnd colCounts remaining (pos + 1))
      else Some (colCounts, pos))"

declare fillColCounts.simps [code]

definition colRanges :: "(int \<times> int) list" where
  "colRanges = [(1, 9), (10, 19), (20, 29), (30, 39), (40, 49),
                (50, 59), (60, 69), (70, 79), (80, 90)]"

text \<open>
  Step 2 of \<open>generateUniqueGrid\<close> for one column \<open>c\<close>: the numbers of the column's
  band that are not excluded, \<open>None\<close> (the early \<open>return null\<close>) when there are fewer
  than \<open>count\<close>, else the first \<open>count\<close> of them after the random rearrangement,
  sorted ascending.
\<close>

definition pickColumn :: "rng \<Rightarrow> int set \<Rightarrow> nat list \<Rightarrow> nat \<Rightarrow> nat \<Rightarrow> int list option" where
  "pickColumn rnd exclude colCounts c pos =
     (let count = colCounts ! c;
          available = filter (\<lambda>n. n \<notin> exclude) [fst (colRanges ! c)..snd (colRanges ! c)]
      in if length available < count then None
         else Some (sort (take count (sortRandom (rnd pos) available))))"

text \<open>The loop \<open>for (let c = 0; c < 9; c++)\<close> of step 2, over the columns still to do.\<close>

fun pickNumbers :: "rng \<Rightarrow> int set \<Rightarrow> nat list \<Rightarrow> nat list \<Rightarrow> int list list \<Rightarrow> nat
    \<Rightarrow> int list list option \<times> nat" where
  "pickNumbers rnd exclude colCounts [] gridNumbers pos = (Some gridNumbers, pos)"
| "pickNumbers rnd exclude colCounts (c # cs) gridNumbers pos =
     (case pickColumn rnd exclude colCounts c pos of
        None \<Rightarrow> (None, pos)
      | Some nums \<Rightarrow> pickNumbers rnd exclude colCounts cs (gridNumbers @ [nums]) (pos + 1))"

text \<open>
  Step 3, one attempt. The state of an attempt is \<open>rowAssignments\<close> (column to rows) and
  \<open>rowFillCounts\<close>. \<open>pushRow\<close> is the body of \<open>picked.forEach\<close>; \<open>assignColumn\<close>
  is the body of \<open>for (const c of colsIndices)\<close>, with \<open>None\<close> for
  \<open>valid = false; break\<close>.
\<close>

record rowState =
  rowAssignments :: "nat list list"
  rowFillCounts :: "nat list"

definition pushRow :: "nat \<Rightarrow> rowState \<Rightarrow> nat \<Rightarrow> rowState" where
  "pushRow c st r =
     \<lparr> rowAssignments = (rowAssignments st)[c := rowAssignments st ! c @ [r]],
       rowFillCounts = (rowFillCounts st)[r := rowFillCounts st ! r + 1] \<rparr>"

definition assignColumn :: "rng \<Rightarrow> nat list \<Rightarrow> nat \<Rightarrow> rowState \<Rightarrow> nat \<Rightarrow> rowState option" where
  "assignColumn rnd colCounts c st pos =
     (let count = colCounts ! c;
          availRows = filter (\<lambda>r. rowFillCounts st ! r < 5) [0, 1, 2]
      in if length availRows < count then None
         else Some (foldl (pushRow c) st (take count (sortRandom (rnd pos) availRows))))"

fun assignRows :: "rng \<Rightarrow> nat list \<Rightarrow> nat list \<Rightarrow> rowState \<Rightarrow> nat \<Rightarrow> bool \<times> rowState \<times> nat" where
  "assignRows rnd colCounts [] st pos = (True, st, pos)"
| "assignRows rnd colCounts (c # cs) st pos =
     (case assignColumn rnd colCounts c st pos of
        None \<Rightarrow> (False, st, pos)
      | Some st' \<Rightarrow> assignRows rnd colCounts cs st' (pos + 1))"

text \<open>
  \<open>colsIndices\<close>: the columns 0..8 sorted by descending count; \<open>Array.prototype.sort\<close>
  is stable, as is \<open>sort_key\<close>.
\<close>

definition colsIndices :: "nat list \<Rightarrow> nat list" where
  "colsIndices colCounts = sort_key (\<lambda>c. - int (colCounts ! c)) [0..<9]"

text \<open>Building the grid once an attempt has succeeded.\<close>

definition emptyRow :: TicketRow where
  "emptyRow = \<lparr> cells = replicate 9 None, marked = replicate 9 False \<rparr>"

definition setCell :: "TicketRow list \<Rightarrow> nat \<Rightarrow> nat \<Rightarrow> int \<Rightarrow> TicketRow list" where
  "setCell rs r c n = rs[r := (rs ! r)\<lparr> cells := (cells (rs ! r))[c := Some n] \<rparr>]"

definition placeColumn :: "nat list list \<Rightarrow> int list list \<Rightarrow> TicketRow list \<Rightarrow> nat \<Rightarrow> TicketRow list" where
  "placeColumn ra gridNumbers rs c =
     (let rowIndices = sort (ra ! c);
          nums = gridNumbers ! c
      in foldl (\<lambda>rs k. setCell rs (rowIndices ! k) c (nums ! k)) rs [0..<length nums])"

definition buildGrid :: "nat list list \<Rightarrow> int list list \<Rightarrow> TicketGrid" where
  "buildGrid ra gridNumbers =
     \<lparr> rows = foldl (placeColumn ra gridNumbers) [emptyRow, emptyRow, emptyRow] [0..<9] \<rparr>"

definition rowAttempt :: "rng \<Rightarrow> nat list \<Rightarrow> int list list \<Rightarrow> nat \<Rightarrow> TicketGrid option \<times> nat" where
  "rowAttempt rnd colCounts gridNumbers pos =
     (case assignRows rnd colCounts (colsIndices colCounts)
             \<lparr> rowAssignments = replicate 9 [], rowFillCounts = [0, 0, 0] \<rparr> pos of
        (valid, st, pos') \<Rightarrow>
          if valid \<and> list_all (\<lambda>c. c = 5) (rowFillCounts st)
          then (Some (buildGrid (rowAssignments st) gridNumbers), pos')
          else (None, pos'))"

text \<open>The loop \<open>for (let attempt = 0; attempt < 100; attempt++)\<close>.\<close>

function distributeRows ::
    "rng \<Rightarrow> nat list \<Rightarrow> int list list \<Rightarrow> nat \<Rightarrow> nat \<Rightarrow> TicketGrid option \<times> nat" where
  "distributeRows rnd colCounts gridNumbers attempt pos =
     (if attempt < 100 then
        (case rowAttempt rnd colCounts gridNumbers pos of
           (Some grid, pos') \<Rightarrow> (Some grid, pos')
         | (None, pos') \<Rightarrow> distributeRows rnd colCounts gridNumbers (attempt + 1) pos')
      else (None, pos))"
  by pat_completeness auto
termination
  by (relation "measure (\<lambda>(rnd, colCounts, gridNumbers, attempt, pos). 100 - attempt)") auto

declare distributeRows.simps [simp del]

text \<open>
  \<open>generateUniqueGrid(exclude)\<close>. The outer \<open>None\<close> means that the function does not
  return; \<open>Some (None, pos)\<close> is the result \<open>null\<close>.
\<close>

definition generateUniqueGrid :: "rng \<Rightarrow> int set \<Rightarrow> nat \<Rightarrow> (TicketGrid option \<times> nat) option" where
  "generateUniqueGrid rnd exclude pos =
     (case fillColCounts rnd (replicate 9 1) 6 pos of
        None \<Rightarrow> None
      | Some (colCounts, pos1) \<Rightarrow>
          (case pickNumbers rnd exclude colCounts [0..<9] [] pos1 of
             (None, pos2) \<Rightarrow> Some (None, pos2)
           | (Some gridNumbers, pos2) \<Rightarrow> Some (distributeRows rnd colCounts gridNumbers 0 pos2)))"

subsection \<open>Ticket generation\<close>

text \<open>
  \<open>grid.rows.forEach(r => r.cells.forEach(n => { if (n) usedNumbers.add(n); }))\<close>:
  a cell is added when it is neither \<open>null\<close> nor 0.
\<close>

definition addCell :: "int set \<Rightarrow> int option \<Rightarrow> int set" where
  "addCell used n = (case n of None \<Rightarrow> used | Some v \<Rightarrow> if v \<noteq> 0 then insert v used else used)"

definition addUsed :: "TicketGrid \<Rightarrow> int set \<Rightarrow> int set" where
  "addUsed grid used = foldl (\<lambda>u row. foldl addCell u (cells row)) used (rows grid)"

text \<open>
  Identifiers (\<open>uuidv4()\<close>, and \<open>Math.random().toString(36).substring(2, 15)\<close> in the
  services and in server.js) are texts computed from a fresh random value; the embedding
  writes the raw value in base 36.
\<close>

definition digit36 :: "nat \<Rightarrow> char" where
  "digit36 d = ''0123456789abcdefghijklmnopqrstuvwxyz'' ! d"

function toString36 :: "nat \<Rightarrow> string" where
  "toString36 n = (if n < 36 then [digit36 n] else toString36 (n div 36) @ [digit36 (n mod 36)])"
  by pat_completeness auto
termination
  by (relation "measure id") auto

declare toString36.simps [simp del]

definition generateId :: "rng \<Rightarrow> nat \<Rightarrow> string" where
  "generateId rnd pos = toString36 (rnd pos)"

text \<open>
  The loop \<open>while (grids.length < 3 && attempts < 50)\<close> of \<open>generateTicket\<close>. The
  result is the final value of the loop variables and the position of the random source.
\<close>

record ticketLoop =
  loopGrids :: "TicketGrid list"
  usedNumbers :: "int set"
  attempts :: nat

function generateTicketLoop :: "rng \<Rightarrow> ticketLoop \<Rightarrow> nat \<Rightarrow> (ticketLoop \<times> nat) option" where
  "generateTicketLoop rnd st pos =
     (if length (loopGrids st) < 3 \<and> attempts st < 50 then
        (case generateUniqueGrid rnd (usedNumbers st) pos of
           None \<Rightarrow> None
         | Some (None, pos') \<Rightarrow>
             generateTicketLoop rnd (st\<lparr> attempts := attempts st + 1 \<rparr>) pos'
         | Some (Some grid, pos') \<Rightarrow>
             generateTicketLoop rnd
               (st\<lparr> loopGrids := loopGrids st @ [grid],
                    usedNumbers := addUsed grid (usedNumbers st),
                    attempts := attempts st + 1 \<rparr>) pos')
      else Some (st, pos))"
  by pat_completeness auto
termination
  by (relation "measure (\<lambda>(rnd, st, pos). 50 - attempts st)") auto

declare generateTicketLoop.simps [simp del]

definition generateTicket :: "rng \<Rightarrow> string \<Rightarrow> string \<Rightarrow> nat \<Rightarrow> nat \<Rightarrow> (LotoTicket \<times> nat) option" where
  "generateTicket rnd room owner now pos =
     (case generateTicketLoop rnd \<lparr> loopGrids = [], usedNumbers = {}, attempts = 0 \<rparr> pos of
        None \<Rightarrow> None
      | Some (st, pos') \<Rightarrow>
          Some (\<lparr> ticketId = generateId rnd pos', grids = loopGrids st, ownerId = owner,
                  roomCode = None, roomId = Some room, createdAt = now \<rparr>, pos' + 1))"

section \<open>The in-memory server (server.js)\<close>

subsection \<open>Grid and ticket generation\<close>

text \<open>
  Step 2 of \<open>generateGrid\<close> for one column: \<open>while (nums.length < count)\<close> (the
  count is \<open>cnt\<close> here) draws a
  number of the band and keeps it when it is new. Like the column-count loop it ends only
  when the random source cooperates.
\<close>

partial_function (option) sampleNums ::
    "rng \<Rightarrow> int \<Rightarrow> int \<Rightarrow> nat \<Rightarrow> int list \<Rightarrow> nat \<Rightarrow> (int list \<times> nat) option" where
  "sampleNums rnd mn mx cnt nums pos =
     (if length nums < cnt then
        (let n = int (randomBelow rnd pos (nat (mx - mn + 1))) + mn in
         if n \<notin> set nums then sampleNums rnd mn mx cnt (nums @ [n]) (pos + 1)
         else sampleNums rnd mn mx cnt nums (pos + 1))
      else Some (nums, pos))"

declare sampleNums.simps [code]

fun sampleColumns :: "rng \<Rightarrow> nat list \<Rightarrow> nat list \<Rightarrow> int list list \<Rightarrow> nat
    \<Rightarrow> (int list list \<times> nat) option" where
  "sampleColumns rnd colCounts [] gridNumbers pos = Some (gridNumbers, pos)"
| "sampleColumns rnd colCounts (c # cs) gridNumbers pos =
     (case sampleNums rnd (fst (colRanges ! c)) (snd (colRanges ! c)) (colCounts ! c) [] pos of
        None \<Rightarrow> None
      | Some (nums, pos') \<Rightarrow> sampleColumns rnd colCounts cs (gridNumbers @ [sort nums]) pos')"

text \<open>
  \<open>generateGrid()\<close> of server.js (\<open>generateGrid(roomId)\<close> of number-generator.ts is
  the same function). Steps 1 and 3 are those of \<open>generateUniqueGrid\<close>, with other
  variable names; after 100 failed attempts the function calls itself again.
\<close>

partial_function (option) generateGrid :: "rng \<Rightarrow> nat \<Rightarrow> (TicketGrid \<times> nat) option" where
  "generateGrid rnd pos =
     (case fillColCounts rnd (replicate 9 1) 6 pos of
        None \<Rightarrow> None
      | Some (colCounts, pos1) \<Rightarrow>
          (case sampleColumns rnd colCounts [0..<9] [] pos1 of
             None \<Rightarrow> None
           | Some (gridNumbers, pos2) \<Rightarrow>
               (case distributeRows rnd colCounts gridNumbers 0 pos2 of
                  (Some grid, pos3) \<Rightarrow> Some (grid, pos3)
                | (None, pos3) \<Rightarrow> generateGrid rnd pos3)))"

declare generateGrid.simps [code]

text \<open>\<open>for (let i = 0; i < 3; i++) grids.push(generateGrid())\<close>, with \<open>n\<close> rounds to go.\<close>

fun generateGrids :: "rng \<Rightarrow> nat \<Rightarrow> TicketGrid list \<Rightarrow> nat \<Rightarrow> (TicketGrid list \<times> nat) option" where
  "generateGrids rnd 0 gs pos = Some (gs, pos)"
| "generateGrids rnd (Suc n) gs pos =
     (case generateGrid rnd pos of
        None \<Rightarrow> None
      | Some (grid, pos') \<Rightarrow> generateGrids rnd n (gs @ [grid]) pos')"

definition generateTicket_js :: "rng \<Rightarrow> string \<Rightarrow> string \<Rightarrow> nat \<Rightarrow> nat \<Rightarrow> (LotoTicket \<times> nat) option" where
  "generateTicket_js rnd room owner now pos =
     (case generateGrids rnd 3 [] pos of
        None \<Rightarrow> None
      | Some (gs, pos') \<Rightarrow>
          Some (\<lparr> ticketId = generateId rnd pos', grids = gs, ownerId = owner,
                  roomCode = Some room, roomId = None, createdAt = now \<rparr>, pos' + 1))"

subsection \<open>State of the in-memory server\<close>

datatype RoomStatus = Waiting | Playing | Finished

datatype CheckMode = Manual | Auto

datatype AudioMode = Singing | Calling

text \<open>
  Room settings. A setting that the object does not carry is \<open>None\<close>; server.js fills
  in four defaults and copies what the client sent over them, the validated settings of
  the TypeScript server carry every field.
\<close>

record RoomSettings =
  maxPlayers :: int
  ticketsPerPlayer :: int
  maxTicketsPerPlayer :: "int option"
  autoCall :: "bool option"
  callSpeed :: "int option"
  checkMode :: "CheckMode option"
  autoMarkNumbers :: bool
  audioMode :: AudioMode

record PartialSettings =
  optMaxPlayers :: "int option"
  optTicketsPerPlayer :: "int option"
  optMaxTicketsPerPlayer :: "int option"
  optAutoCall :: "bool option"
  optCallSpeed :: "int option"
  optCheckMode :: "CheckMode option"
  optAutoMarkNumbers :: "bool option"
  optAudioMode :: "AudioMode option"

text \<open>
  \<open>{ maxPlayers: 50, ticketsPerPlayer: 5, autoMarkNumbers: true, audioMode: 'singing',
  ...settings }\<close>
\<close>

definition spreadSettings :: "PartialSettings \<Rightarrow> RoomSettings" where
  "spreadSettings s =
     \<lparr> maxPlayers = (case optMaxPlayers s of Some v \<Rightarrow> v | None \<Rightarrow> 50),
       ticketsPerPlayer = (case optTicketsPerPlayer s of Some v \<Rightarrow> v | None \<Rightarrow> 5),
       maxTicketsPerPlayer = optMaxTicketsPerPlayer s,
       autoCall = optAutoCall s,
       callSpeed = optCallSpeed s,
       checkMode = optCheckMode s,
       autoMarkNumbers = (case optAutoMarkNumbers s of Some v \<Rightarrow> v | None \<Rightarrow> True),
       audioMode = (case optAudioMode s of Some v \<Rightarrow> v | None \<Rightarrow> Singing) \<rparr>"

text \<open>
  The objects of server.js. Field names carry a prefix where two kinds of object use the
  same property name: \<open>p\<close> for a player of a room, \<open>d\<close> for an entry of the
  \<open>players\<close> map, \<open>k\<close> for \<open>socket.data\<close>, \<open>w\<close> for a winner record, \<open>s\<close> for
  a session, \<open>r\<close> for a room.
\<close>

record Player =
  pId :: string
  pNickname :: string
  pSocketId :: string
  pTickets :: "string list"
  pJoinedAt :: nat
  pIsHost :: bool

record PlayerData =
  dOderId :: string
  dRoomCode :: string
  dIsHost :: bool

record SocketData =
  kOderId :: string
  kRoomCode :: string
  kIsHost :: bool
  kNickname :: string

record CalledNumber =
  number :: int
  calledAt :: nat

record Winner =
  wOderId :: string
  wNickname :: string
  wTicketId :: string
  wGrid :: int
  wRow :: int

record Session =
  sId :: string
  sRoomCode :: string
  sCalledNumbers :: "CalledNumber list"
  sStartedAt :: nat
  sWinner :: "Winner option"

record Room =
  rId :: string
  rCode :: string
  rHostId :: string
  rHostSocketId :: string
  rPlayers :: "Player list"
  rStatus :: RoomStatus
  rCreatedAt :: nat
  rSettings :: RoomSettings
  rCurrentSession :: "Session option"

text \<open>
  The global maps \<open>rooms\<close>, \<open>players\<close> and \<open>tickets\<close>, and the \<open>data\<close> of
  every socket by socket id.
\<close>

record ServerState =
  rooms :: "string \<rightharpoonup> Room"
  players :: "string \<rightharpoonup> PlayerData"
  tickets :: "string \<rightharpoonup> LotoTicket"
  sockets :: "string \<rightharpoonup> SocketData"

text \<open>What a handler sends: broadcasts to a room, and the arguments of its callback.\<close>

datatype Broadcast =
    PlayerJoined string Player
  | RoomUpdated string Room
  | KinhCalled string string string string int int
  | GameWinner string string string string int int

datatype JoinError = RoomNotFound | RoomFull

subsection \<open>Creating and joining a room\<close>

definition roomCodeChars :: string where
  "roomCodeChars = ''ABCDEFGHJKLMNPQRSTUVWXYZ23456789''"

definition generateRoomCode :: "rng \<Rightarrow> nat \<Rightarrow> string" where
  "generateRoomCode rnd pos =
     map (\<lambda>i. roomCodeChars ! randomBelow rnd (pos + i) (length roomCodeChars)) [0..<6]"

text \<open>
  The handler of \<open>room:create\<close> for the socket \<open>sock\<close>. It returns the room passed to
  the callback, the new state and the position of the random source.
\<close>

definition roomCreate_js ::
    "rng \<Rightarrow> nat \<Rightarrow> string \<Rightarrow> string \<Rightarrow> PartialSettings \<Rightarrow> ServerState \<Rightarrow> nat
     \<Rightarrow> Room \<times> ServerState \<times> nat" where
  "roomCreate_js rnd now sock hostNickname settings st pos =
     (let code = generateRoomCode rnd pos;
          oderId = generateId rnd (pos + 6);
          hostPlayer = \<lparr> pId = oderId, pNickname = hostNickname, pSocketId = sock,
                         pTickets = [], pJoinedAt = now, pIsHost = True \<rparr>;
          room = \<lparr> rId = generateId rnd (pos + 7), rCode = code, rHostId = oderId,
                   rHostSocketId = sock, rPlayers = [hostPlayer], rStatus = Waiting,
                   rCreatedAt = now, rSettings = spreadSettings settings,
                   rCurrentSession = None \<rparr>
      in (room,
          st\<lparr> rooms := (rooms st)(code \<mapsto> room),
              players := (players st)(sock \<mapsto> \<lparr> dOderId = oderId, dRoomCode = code, dIsHost = True \<rparr>),
              sockets := (sockets st)(sock \<mapsto> \<lparr> kOderId = oderId, kRoomCode = code,
                                                  kIsHost = True, kNickname = hostNickname \<rparr>) \<rparr>,
          pos + 8))"

text \<open>
  The handler of \<open>room:join\<close>. The two error messages are the constructors of
  \<open>JoinError\<close>. On success the handler emits both events twice and calls the callback
  twice, as its text does.
\<close>

definition roomJoin_js ::
    "rng \<Rightarrow> nat \<Rightarrow> string \<Rightarrow> string \<Rightarrow> string \<Rightarrow> ServerState \<Rightarrow> nat
     \<Rightarrow> (JoinError + Room) list \<times> Broadcast list \<times> ServerState \<times> nat" where
  "roomJoin_js rnd now sock code nickname st pos =
     (case rooms st (toUpperCase code) of
        None \<Rightarrow> ([Inl RoomNotFound], [], st, pos)
      | Some room \<Rightarrow>
          if int (length (rPlayers room)) \<ge> maxPlayers (rSettings room)
          then ([Inl RoomFull], [], st, pos)
          else
            (let oderId = generateId rnd pos;
                 player = \<lparr> pId = oderId, pNickname = nickname, pSocketId = sock,
                            pTickets = [], pJoinedAt = now, pIsHost = False \<rparr>;
                 room' = room\<lparr> rPlayers := rPlayers room @ [player] \<rparr>
             in ([Inr room', Inr room'],
                 [PlayerJoined code player, RoomUpdated code room',
                  PlayerJoined code player, RoomUpdated code room'],
                 st\<lparr> rooms := (rooms st)(toUpperCase code \<mapsto> room'),
                     players := (players st)(sock \<mapsto>
                        \<lparr> dOderId = oderId, dRoomCode = code, dIsHost = False \<rparr>),
                     sockets := (sockets st)(sock \<mapsto>
                        \<lparr> kOderId = oderId, kRoomCode = code, kIsHost = False,
                          kNickname = nickname \<rparr>) \<rparr>,
                 pos + 1)))"

subsection \<open>Creating tickets\<close>

datatype TicketsError = PlayerMissing | RoomMissing

text \<open>
  The loop of the handler of \<open>player:create-tickets\<close>, with \<open>n\<close> rounds to go: each
  round generates a ticket, stores it in the \<open>tickets\<close> map and appends it to
  \<open>newTickets\<close>.
\<close>

fun createLoop_js :: "rng \<Rightarrow> nat \<Rightarrow> string \<Rightarrow> string \<Rightarrow> nat \<Rightarrow> LotoTicket list
    \<Rightarrow> (string \<rightharpoonup> LotoTicket) \<Rightarrow> nat \<Rightarrow> (LotoTicket list \<times> (string \<rightharpoonup> LotoTicket) \<times> nat) option" where
  "createLoop_js rnd now room owner 0 newTickets tmap pos = Some (newTickets, tmap, pos)"
| "createLoop_js rnd now room owner (Suc n) newTickets tmap pos =
     (case generateTicket_js rnd room owner now pos of
        None \<Rightarrow> None
      | Some (ticket, pos') \<Rightarrow>
          createLoop_js rnd now room owner n (newTickets @ [ticket])
            (tmap(ticketId ticket \<mapsto> ticket)) pos')"

text \<open>
  \<open>room.players.find(p => p.id === oderId)\<close> followed by the assignment to
  \<open>player.tickets\<close>: the first player with that id gets the new ticket ids appended.
\<close>

fun addTickets :: "string \<Rightarrow> string list \<Rightarrow> Player list \<Rightarrow> Player list" where
  "addTickets oderId ids [] = []"
| "addTickets oderId ids (p # ps) =
     (if pId p = oderId then p\<lparr> pTickets := pTickets p @ ids \<rparr> # ps
      else p # addTickets oderId ids ps)"

text \<open>
  The handler of \<open>player:create-tickets\<close>. The loop bound is
  \<open>Math.min(count, room.settings.ticketsPerPlayer)\<close>. The outer \<open>None\<close> means that
  a ticket generation does not return.
\<close>

definition createTickets_js ::
    "rng \<Rightarrow> nat \<Rightarrow> string \<Rightarrow> int \<Rightarrow> ServerState \<Rightarrow> nat
     \<Rightarrow> ((TicketsError + LotoTicket list) \<times> ServerState \<times> nat) option" where
  "createTickets_js rnd now sock cnt st pos =
     (case players st sock of
        None \<Rightarrow> Some (Inl PlayerMissing, st, pos)
      | Some playerData \<Rightarrow>
          (case rooms st (dRoomCode playerData) of
             None \<Rightarrow> Some (Inl RoomMissing, st, pos)
           | Some room \<Rightarrow>
               (case createLoop_js rnd now (dRoomCode playerData) (dOderId playerData)
                       (nat (min cnt (ticketsPerPlayer (rSettings room)))) [] (tickets st) pos of
                  None \<Rightarrow> None
                | Some (newTickets, tmap, pos') \<Rightarrow>
                    Some (Inr newTickets,
                          st\<lparr> tickets := tmap,
                              rooms := (rooms st)(dRoomCode playerData \<mapsto>
                                 room\<lparr> rPlayers := addTickets (dOderId playerData)
                                          (map ticketId newTickets) (rPlayers room) \<rparr>) \<rparr>,
                          pos'))))"

subsection \<open>Marking a cell\<close>

text \<open>
  Writing \<open>xs[i] = v\<close>: inside the array the element is replaced; at or beyond the end
  the array grows up to index \<open>i\<close>, and the elements in between are holes, which read as
  \<open>undefined\<close> (the value \<open>hole\<close> stands for them); a negative index names an ordinary
  property and leaves the elements as they are.
\<close>

definition jsStore :: "'a \<Rightarrow> 'a list \<Rightarrow> int \<Rightarrow> 'a \<Rightarrow> 'a list" where
  "jsStore hole xs i v =
     (if i < 0 then xs
      else if i < int (length xs) then xs[nat i := v]
      else xs @ replicate (nat i - length xs) hole @ [v])"

text \<open>
  The test \<open>row.cells[col] !== null\<close>: the cell read is \<open>Some None\<close> for
  \<open>null\<close> and \<open>None\<close> for \<open>undefined\<close>, which is not \<open>null\<close>.
\<close>

definition cellNotNull :: "TicketRow \<Rightarrow> int \<Rightarrow> bool" where
  "cellNotNull row col = (jsIndex (cells row) col \<noteq> Some None)"

text \<open>
  The assignment \<open>row.marked[col] = !row.marked[col]\<close>. The negation of
  \<open>undefined\<close> is \<open>true\<close>, so a hole of \<open>marked\<close> reads as \<open>False\<close>.
\<close>

definition toggleMark :: "TicketRow \<Rightarrow> int \<Rightarrow> TicketRow" where
  "toggleMark row col =
     row\<lparr> marked := jsStore False (marked row) col
                  (case jsIndex (marked row) col of None \<Rightarrow> True | Some b \<Rightarrow> \<not> b) \<rparr>"

definition replaceRow :: "LotoTicket \<Rightarrow> nat \<Rightarrow> nat \<Rightarrow> TicketRow \<Rightarrow> LotoTicket" where
  "replaceRow ticket g r row =
     ticket\<lparr> grids := (grids ticket)[g := (grids ticket ! g)\<lparr> rows := (rows (grids ticket ! g))[r := row] \<rparr>] \<rparr>"

text \<open>
  The handler of \<open>player:mark-number\<close>. Every stored ticket has \<open>grids\<close>, so the
  test \<open>ticket.grids\<close> holds. Reading \<open>cells\<close> of a row that the grid does not have
  throws.
\<close>

definition markNumber_js :: "string \<Rightarrow> int \<Rightarrow> int \<Rightarrow> int \<Rightarrow> ServerState \<Rightarrow> jsError + ServerState" where
  "markNumber_js tid grid row col st =
     (case tickets st tid of
        None \<Rightarrow> Inr st
      | Some ticket \<Rightarrow>
          if 0 \<le> grid \<and> grid < int (length (grids ticket)) \<and>
             0 \<le> row \<and> row < 3 \<and> 0 \<le> col \<and> col < 9
          then (case jsIndex (rows (grids ticket ! nat grid)) row of
                  None \<Rightarrow> Inl TypeError
                | Some ticketRow \<Rightarrow>
                    if cellNotNull ticketRow col
                    then Inr (st\<lparr> tickets := (tickets st)(tid \<mapsto>
                           replaceRow ticket (nat grid) (nat row) (toggleMark ticketRow col)) \<rparr>)
                    else Inr st)
          else Inr st)"

subsection \<open>Calling a row\<close>

definition invalidResult :: ValidationResult where
  "invalidResult = \<lparr> isValid = False, isWinner = False, matchedNumbers = [], missingNumbers = [] \<rparr>"

text \<open>
  The handler of \<open>player:call-kinh\<close>: the result passed to the callback, the broadcasts
  and the new state. \<open>socket.data.nickname\<close> is the nickname stored for the socket
  (the empty text when the socket has none).
\<close>

definition callKinh_js ::
    "string \<Rightarrow> string \<Rightarrow> int \<Rightarrow> int \<Rightarrow> ServerState \<Rightarrow> ValidationResult \<times> Broadcast list \<times> ServerState" where
  "callKinh_js sock tid grid row st =
     (case players st sock of
        None \<Rightarrow> (invalidResult, [], st)
      | Some playerData \<Rightarrow>
          (case (rooms st (dRoomCode playerData), tickets st tid) of
             (Some room, Some ticket) \<Rightarrow>
               (case rCurrentSession room of
                  None \<Rightarrow> (invalidResult, [], st)
                | Some session \<Rightarrow>
                    (case jsIndex (grids ticket) grid of
                       None \<Rightarrow> (invalidResult, [], st)
                     | Some g \<Rightarrow>
                         (case jsIndex (rows g) row of
                            None \<Rightarrow> (invalidResult, [], st)
                          | Some ticketRow \<Rightarrow>
                              (let calledNums = map number (sCalledNumbers session);
                                   rowNums = rowNumbers ticketRow;
                                   matched = filter (\<lambda>n. n \<in> set calledNums) rowNums;
                                   missing = filter (\<lambda>n. n \<notin> set calledNums) rowNums;
                                   won = (length matched = 5);
                                   nick = (case sockets st sock of
                                             None \<Rightarrow> [] | Some d \<Rightarrow> kNickname d);
                                   code = dRoomCode playerData;
                                   oderId = dOderId playerData
                               in (\<lparr> isValid = True, isWinner = won,
                                      matchedNumbers = matched, missingNumbers = missing \<rparr>,
                                   KinhCalled code oderId nick tid grid row #
                                     (if won then [GameWinner code oderId nick tid grid row] else []),
                                   if won
                                   then st\<lparr> rooms := (rooms st)(code \<mapsto>
                                          room\<lparr> rCurrentSession := Some (session\<lparr> sWinner :=
                                             Some \<lparr> wOderId = oderId, wNickname = nick,
                                                    wTicketId = tid, wGrid = grid, wRow = row \<rparr> \<rparr>) \<rparr>) \<rparr>
                                   else st)))))
           | _ \<Rightarrow> (invalidResult, [], st)))"

section \<open>The services of the TypeScript server\<close>

subsection \<open>Documents and store\<close>

text \<open>
  The MongoDB collections are lists of documents in insertion order; the Redis cache maps
  a room code to the cached room and to the cached session (the keys \<open>room:CODE\<close> and
  \<open>session:CODE\<close>). A cached entry that has expired is an absent entry. Field names
  carry the prefix \<open>pl\<close> (player), \<open>rm\<close> (room), \<open>wn\<close> (winner) or \<open>gs\<close> (game
  session). Tickets are stored as they are; the schema knows the property \<open>roomCode\<close>
  and not \<open>roomId\<close>.
\<close>

record PlayerDoc =
  plOderId :: string
  plNickname :: string
  plRoomCode :: string
  plIsHost :: bool
  plJoinedAt :: nat

record RoomDoc =
  rmCode :: string
  rmHostId :: string
  rmStatus :: RoomStatus
  rmSettings :: RoomSettings
  rmPlayers :: "PlayerDoc list"

record WinnerDoc =
  wnOderId :: string
  wnNickname :: string
  wnTicketId :: string
  wnRow :: nat

record GameSession =
  gsSessionId :: string
  gsRoomCode :: string
  gsCalledNumbers :: "CalledNumber list"
  gsStartedAt :: nat
  gsEndedAt :: "nat option"
  gsWinner :: "WinnerDoc option"

record Store =
  roomDocs :: "RoomDoc list"
  playerDocs :: "PlayerDoc list"
  ticketDocs :: "LotoTicket list"
  sessionDocs :: "GameSession list"
  roomCache :: "string \<rightharpoonup> RoomDoc"
  sessionCache :: "string \<rightharpoonup> GameSession"

text \<open>Saving a document that is already stored replaces it where it is.\<close>

fun replaceFirst :: "('a \<Rightarrow> bool) \<Rightarrow> 'a \<Rightarrow> 'a list \<Rightarrow> 'a list" where
  "replaceFirst P y [] = []"
| "replaceFirst P y (x # xs) = (if P x then y # xs else x # replaceFirst P y xs)"

datatype DbError = DuplicateKey | ValidationError

subsection \<open>RoomService\<close>

text \<open>
  \<open>createRoom\<close>. The two saves run side by side; the room's code is a unique key, so
  saving a room whose code is taken fails, and the player is saved all the same.
\<close>

definition createRoom ::
    "rng \<Rightarrow> nat \<Rightarrow> string \<Rightarrow> RoomSettings \<Rightarrow> Store \<Rightarrow> nat
     \<Rightarrow> (DbError + RoomDoc \<times> PlayerDoc) \<times> Store \<times> nat" where
  "createRoom rnd now hostNickname settings db pos =
     (let code = generateRoomCode rnd pos;
          oderId = generateId rnd (pos + 6);
          player = \<lparr> plOderId = oderId, plNickname = hostNickname, plRoomCode = code,
                     plIsHost = True, plJoinedAt = now \<rparr>;
          room = \<lparr> rmCode = code, rmHostId = oderId, rmStatus = Waiting,
                   rmSettings = settings, rmPlayers = [player] \<rparr>
      in if list_ex (\<lambda>r. rmCode r = code) (roomDocs db)
         then (Inl DuplicateKey, db\<lparr> playerDocs := playerDocs db @ [player] \<rparr>, pos + 7)
         else (Inr (room, player),
               db\<lparr> roomDocs := roomDocs db @ [room],
                   playerDocs := playerDocs db @ [player],
                   roomCache := (roomCache db)(code \<mapsto> room) \<rparr>,
               pos + 7))"

text \<open>
  \<open>joinRoom\<close>. The thrown errors \<open>Room not found\<close> and \<open>Room is full\<close> are the
  constructors of \<open>JoinError\<close>; a throw leaves the store as it was.
\<close>

definition joinRoom ::
    "rng \<Rightarrow> nat \<Rightarrow> string \<Rightarrow> string \<Rightarrow> Store \<Rightarrow> nat
     \<Rightarrow> (JoinError + RoomDoc \<times> PlayerDoc) \<times> Store \<times> nat" where
  "joinRoom rnd now code nickname db pos =
     (case find (\<lambda>r. rmCode r = toUpperCase code) (roomDocs db) of
        None \<Rightarrow> (Inl RoomNotFound, db, pos)
      | Some room \<Rightarrow>
          (let playerCount = length (filter (\<lambda>p. plRoomCode p = toUpperCase code) (playerDocs db))
           in if int playerCount \<ge> maxPlayers (rmSettings room)
              then (Inl RoomFull, db, pos)
              else
                (let player = \<lparr> plOderId = generateId rnd pos, plNickname = nickname,
                                plRoomCode = toUpperCase code, plIsHost = False,
                                plJoinedAt = now \<rparr>;
                     room' = room\<lparr> rmPlayers := rmPlayers room @ [player] \<rparr>
                 in (Inr (room', player),
                     db\<lparr> playerDocs := playerDocs db @ [player],
                         roomDocs := replaceFirst (\<lambda>r. rmCode r = toUpperCase code) room' (roomDocs db),
                         roomCache := (roomCache db)(rmCode room' \<mapsto> room') \<rparr>,
                     pos + 1))))"

subsection \<open>GameService\<close>

text \<open>
  \<open>GameSession.findOne({ roomCode, endedAt: { $exists: false } }).sort({ startedAt: -1 })\<close>:
  of the sessions of the room that have not ended, the one started last.
\<close>

definition activeSession :: "GameSession list \<Rightarrow> string \<Rightarrow> GameSession option" where
  "activeSession docs code =
     (case sort_key (\<lambda>s. - int (gsStartedAt s))
             (filter (\<lambda>s. gsRoomCode s = code \<and> gsEndedAt s = None) docs) of
        [] \<Rightarrow> None
      | s # _ \<Rightarrow> Some s)"

definition saveSession :: "GameSession \<Rightarrow> Store \<Rightarrow> Store" where
  "saveSession session db =
     db\<lparr> sessionDocs := replaceFirst (\<lambda>s. gsSessionId s = gsSessionId session) session (sessionDocs db) \<rparr>"

definition cacheSession :: "GameSession \<Rightarrow> Store \<Rightarrow> Store" where
  "cacheSession session db = db\<lparr> sessionCache := (sessionCache db)(gsRoomCode session \<mapsto> session) \<rparr>"

definition setRoomStatus :: "string \<Rightarrow> RoomStatus \<Rightarrow> RoomDoc list \<Rightarrow> RoomDoc list" where
  "setRoomStatus code status docs =
     (case find (\<lambda>r. rmCode r = code) docs of
        None \<Rightarrow> docs
      | Some room \<Rightarrow> replaceFirst (\<lambda>r. rmCode r = code) (room\<lparr> rmStatus := status \<rparr>) docs)"

definition startGame :: "rng \<Rightarrow> nat \<Rightarrow> string \<Rightarrow> Store \<Rightarrow> nat \<Rightarrow> GameSession \<times> Store \<times> nat" where
  "startGame rnd now room db pos =
     (let session = \<lparr> gsSessionId = generateId rnd pos, gsRoomCode = toUpperCase room,
                      gsCalledNumbers = [], gsStartedAt = now, gsEndedAt = None,
                      gsWinner = None \<rparr>
      in (session,
          cacheSession session
            (db\<lparr> sessionDocs := sessionDocs db @ [session],
                 roomDocs := setRoomStatus (toUpperCase room) Playing (roomDocs db),
                 roomCache := (roomCache db)(toUpperCase room := None) \<rparr>),
          pos + 1))"

text \<open>
  \<open>spinNumber\<close>: \<open>None\<close> is the result \<open>null\<close>. The loop that collects the
  available numbers runs from 1 to 89.
\<close>

definition spinNumber ::
    "rng \<Rightarrow> nat \<Rightarrow> string \<Rightarrow> Store \<Rightarrow> nat \<Rightarrow> (int \<times> GameSession) option \<times> Store \<times> nat" where
  "spinNumber rnd now room db pos =
     (case activeSession (sessionDocs db) (toUpperCase room) of
        None \<Rightarrow> (None, db, pos)
      | Some session \<Rightarrow>
          (let calledNums = map number (gsCalledNumbers session);
               available = filter (\<lambda>i. i \<notin> set calledNums) [1..89]
           in if length available = 0 then (None, db, pos)
              else
                (let n = available ! randomBelow rnd pos (length available);
                     session' = session\<lparr> gsCalledNumbers :=
                        gsCalledNumbers session @ [\<lparr> number = n, calledAt = now \<rparr>] \<rparr>
                 in (Some (n, session'), cacheSession session' (saveSession session' db), pos + 1))))"

definition getActiveSession :: "string \<Rightarrow> Store \<Rightarrow> GameSession option" where
  "getActiveSession room db =
     (case sessionCache db (toUpperCase room) of
        Some cached \<Rightarrow> Some cached
      | None \<Rightarrow> activeSession (sessionDocs db) (toUpperCase room))"

definition resetGame :: "nat \<Rightarrow> string \<Rightarrow> Store \<Rightarrow> Store" where
  "resetGame now room db =
     (let db1 = (case activeSession (sessionDocs db) (toUpperCase room) of
                   None \<Rightarrow> db
                 | Some session \<Rightarrow>
                     (saveSession (session\<lparr> gsEndedAt := Some now \<rparr>) db)
                       \<lparr> sessionCache := (sessionCache db)(toUpperCase room := None) \<rparr>)
      in db1\<lparr> roomDocs := setRoomStatus (toUpperCase room) Waiting (roomDocs db1),
              roomCache := (roomCache db1)(toUpperCase room := None) \<rparr>)"

text \<open>
  \<open>checkAutoWinner\<close>. The scan visits the tickets of the room in order, the grids of a
  ticket in order and the rows of a grid by \<open>rowIndex\<close>; \<open>winningRows\<close> lists the
  indices of the rows of a ticket that pass the test, in that order. The nickname of the
  winner is \<open>player?.nickname || 'Unknown'\<close>: \<open>'Unknown'\<close> when no player document
  is found and when the nickname is the empty text.
\<close>

definition winningRows :: "LotoTicket \<Rightarrow> int list \<Rightarrow> nat list" where
  "winningRows ticket calledNumbers =
     concat (map (\<lambda>grid. filter (\<lambda>rowIndex. checkRowWinner (rows grid ! rowIndex) calledNumbers)
                              [0..<length (rows grid)])
                 (grids ticket))"

definition firstWinner :: "LotoTicket list \<Rightarrow> int list \<Rightarrow> (LotoTicket \<times> nat) option" where
  "firstWinner ts calledNumbers =
     (case concat (map (\<lambda>t. map (Pair t) (winningRows t calledNumbers)) ts) of
        [] \<Rightarrow> None
      | x # _ \<Rightarrow> Some x)"

text \<open>
  \<open>GameSession.findOneAndUpdate({ roomCode, endedAt: null }, { winner, endedAt: new Date() })\<close>:
  the first session of the room whose \<open>endedAt\<close> is null or missing gets the winner and
  the end date.
\<close>

definition endWithWinner :: "string \<Rightarrow> WinnerDoc \<Rightarrow> nat \<Rightarrow> GameSession list \<Rightarrow> GameSession list" where
  "endWithWinner code w now docs =
     (case find (\<lambda>s. gsRoomCode s = code \<and> gsEndedAt s = None) docs of
        None \<Rightarrow> docs
      | Some session \<Rightarrow>
          replaceFirst (\<lambda>s. gsRoomCode s = code \<and> gsEndedAt s = None)
            (session\<lparr> gsWinner := Some w, gsEndedAt := Some now \<rparr>) docs)"

definition checkAutoWinner :: "nat \<Rightarrow> string \<Rightarrow> int list \<Rightarrow> Store \<Rightarrow> WinnerDoc option \<times> Store" where
  "checkAutoWinner now room calledNumbers db =
     (case firstWinner (filter (\<lambda>t. roomCode t = Some (toUpperCase room)) (ticketDocs db))
             calledNumbers of
        None \<Rightarrow> (None, db)
      | Some (ticket, rowIndex) \<Rightarrow>
          (let nick = (case find (\<lambda>p. plOderId p = ownerId ticket) (playerDocs db) of
                         None \<Rightarrow> ''Unknown''
                       | Some player \<Rightarrow>
                           if plNickname player = [] then ''Unknown'' else plNickname player);
               w = \<lparr> wnOderId = ownerId ticket, wnNickname = nick,
                     wnTicketId = ticketId ticket, wnRow = rowIndex \<rparr>
           in (Some w,
               db\<lparr> sessionDocs := endWithWinner (toUpperCase room) w now (sessionDocs db) \<rparr>)))"

subsection \<open>TicketService\<close>

text \<open>
  \<open>new Ticket(ticketData)\<close> keeps the properties that the schema knows.
  \<open>Ticket.insertMany\<close> validates every document first: the schema requires
  \<open>roomCode\<close>, and nothing is inserted when a document fails.
\<close>

definition newTicketDoc :: "LotoTicket \<Rightarrow> LotoTicket" where
  "newTicketDoc ticketData = ticketData\<lparr> roomId := None \<rparr>"

definition insertMany :: "LotoTicket list \<Rightarrow> Store \<Rightarrow> DbError + Store" where
  "insertMany docs db =
     (if list_ex (\<lambda>t. roomCode t = None) docs then Inl ValidationError
      else Inr (db\<lparr> ticketDocs := ticketDocs db @ docs \<rparr>))"

text \<open>The loop \<open>for (let i = 0; i < actualCount; i++)\<close>, with \<open>n\<close> rounds to go.\<close>

fun createLoop :: "rng \<Rightarrow> nat \<Rightarrow> string \<Rightarrow> string \<Rightarrow> nat \<Rightarrow> LotoTicket list \<Rightarrow> nat
    \<Rightarrow> (LotoTicket list \<times> nat) option" where
  "createLoop rnd now room owner 0 newTickets pos = Some (newTickets, pos)"
| "createLoop rnd now room owner (Suc n) newTickets pos =
     (case generateTicket rnd room owner now pos of
        None \<Rightarrow> None
      | Some (ticketData, pos') \<Rightarrow>
          createLoop rnd now room owner n (newTickets @ [newTicketDoc ticketData]) pos')"

text \<open>
  \<open>createTickets(roomCode, ownerId, count, maxPerPlayer)\<close>. \<open>actualCount\<close> is the
  clamped count. The outer \<open>None\<close> means that a ticket generation does not return.
\<close>

definition actualCount :: "Store \<Rightarrow> string \<Rightarrow> string \<Rightarrow> int \<Rightarrow> int \<Rightarrow> int" where
  "actualCount db room owner cnt maxPerPlayer =
     (let existingCount = int (length (filter
            (\<lambda>t. roomCode t = Some (toUpperCase room) \<and> ownerId t = owner) (ticketDocs db)));
          allowed = max 0 (maxPerPlayer - existingCount)
      in min cnt allowed)"

definition createTickets ::
    "rng \<Rightarrow> nat \<Rightarrow> string \<Rightarrow> string \<Rightarrow> int \<Rightarrow> int \<Rightarrow> Store \<Rightarrow> nat
     \<Rightarrow> ((DbError + LotoTicket list) \<times> Store \<times> nat) option" where
  "createTickets rnd now room owner cnt maxPerPlayer db pos =
     (if actualCount db room owner cnt maxPerPlayer \<le> 0 then Some (Inr [], db, pos)
      else
        (case createLoop rnd now (toUpperCase room) owner
                (nat (actualCount db room owner cnt maxPerPlayer)) [] pos of
           None \<Rightarrow> None
         | Some (newTickets, pos') \<Rightarrow>
             (case insertMany newTickets db of
                Inl e \<Rightarrow> Some (Inl e, db, pos')
              | Inr db' \<Rightarrow> Some (Inr newTickets, db', pos'))))"

text \<open>
  \<open>markNumber\<close>. A \<open>VersionError\<close> comes from a concurrent writer; in this sequential
  embedding the save succeeds at the first attempt.
\<close>

definition markNumber :: "string \<Rightarrow> int \<Rightarrow> int \<Rightarrow> int \<Rightarrow> Store \<Rightarrow> Store" where
  "markNumber tid grid row col db =
     (case find (\<lambda>t. ticketId t = tid) (ticketDocs db) of
        None \<Rightarrow> db
      | Some ticket \<Rightarrow>
          (case jsIndex (grids ticket) grid of
             None \<Rightarrow> db
           | Some g \<Rightarrow>
               (case jsIndex (rows g) row of
                  None \<Rightarrow> db
                | Some rowData \<Rightarrow>
                    if cellNotNull rowData col
                    then db\<lparr> ticketDocs := replaceFirst (\<lambda>t. ticketId t = tid)
                              (replaceRow ticket (nat grid) (nat row) (toggleMark rowData col))
                              (ticketDocs db) \<rparr>
                    else db)))"

definition getTicketById :: "string \<Rightarrow> Store \<Rightarrow> LotoTicket option" where
  "getTicketById tid db = find (\<lambda>t. ticketId t = tid) (ticketDocs db)"

subsection \<open>The handler of player:call-kinh in the TypeScript server\<close>

text \<open>
  The server keeps the store and the set of rooms with a running auto-call interval.
  The handler returns the callback's argument (\<open>None\<close> when the callback is not called)
  and the broadcasts. A \<open>TypeError\<close> thrown by \<open>validateTicket\<close> is caught and
  logged.
\<close>

record TsServer =
  store :: Store
  autoCallIntervals :: "string set"

definition stopAutoCall :: "string \<Rightarrow> TsServer \<Rightarrow> TsServer" where
  "stopAutoCall room srv = srv\<lparr> autoCallIntervals := autoCallIntervals srv - {room} \<rparr>"

definition callKinh ::
    "SocketData option \<Rightarrow> string \<Rightarrow> int \<Rightarrow> int \<Rightarrow> TsServer
     \<Rightarrow> ValidationResult option \<times> Broadcast list \<times> TsServer" where
  "callKinh sockData tid grid row srv =
     (case sockData of
        None \<Rightarrow> (None, [], srv)
      | Some d \<Rightarrow>
          if kRoomCode d = [] \<or> kOderId d = [] then (None, [], srv)
          else
            (case (getActiveSession (kRoomCode d) (store srv), getTicketById tid (store srv)) of
               (Some session, Some ticket) \<Rightarrow>
                 (case validateTicket ticket (map number (gsCalledNumbers session))
                         (Some grid) (Some row) of
                    Inl e \<Rightarrow> (None, [], stopAutoCall (kRoomCode d) srv)
                  | Inr result \<Rightarrow>
                      (Some result,
                       KinhCalled (kRoomCode d) (kOderId d) (kNickname d) tid grid row #
                         (if isWinner result
                          then [GameWinner (kRoomCode d) (kOderId d) (kNickname d) tid grid row]
                          else []),
                       stopAutoCall (kRoomCode d) srv))
             | _ \<Rightarrow> (None, [], srv)))"

section \<open>Sample values\<close>

text \<open>
  Concrete inputs at which the theorems below are instantiated: a random source, a grid
  that \<open>generateUniqueGrid\<close> produces from it, a ticket, and states of the two servers
  holding them.
\<close>

definition sampleRandom :: rng where
  "sampleRandom = id"

definition sampleGrid :: TicketGrid where
  "sampleGrid =
     \<lparr> rows =
        [\<lparr> cells = [Some 1, None, None, Some 30, Some 40, Some 51, Some 62, None, None],
            marked = replicate 9 False \<rparr>,
         \<lparr> cells = [None, Some 10, Some 20, Some 39, Some 42, None, None, Some 73, None],
            marked = replicate 9 False \<rparr>,
         \<lparr> cells = [Some 7, Some 17, Some 28, None, None, Some 52, None, None, Some 83],
            marked = replicate 9 False \<rparr>] \<rparr>"

definition sampleTicket :: LotoTicket where
  "sampleTicket =
     \<lparr> ticketId = ''t1'', grids = [sampleGrid], ownerId = ''p2'',
       roomCode = Some ''ABC234'', roomId = None, createdAt = 0 \<rparr>"

definition calledOf :: "int list \<Rightarrow> CalledNumber list" where
  "calledOf ns = map (\<lambda>n. \<lparr> number = n, calledAt = 0 \<rparr>) ns"

definition sampleSettings :: RoomSettings where
  "sampleSettings =
     \<lparr> maxPlayers = 2, ticketsPerPlayer = 1, maxTicketsPerPlayer = Some 4,
       autoCall = Some False, callSpeed = Some 5, checkMode = Some Auto,
       autoMarkNumbers = True, audioMode = Singing \<rparr>"

definition sampleRoom :: "int list \<Rightarrow> Room" where
  "sampleRoom called =
     \<lparr> rId = ''r1'', rCode = ''ABC234'', rHostId = ''p1'', rHostSocketId = ''k1'',
       rPlayers =
         [\<lparr> pId = ''p1'', pNickname = ''Host'', pSocketId = ''k1'', pTickets = [],
             pJoinedAt = 0, pIsHost = True \<rparr>,
          \<lparr> pId = ''p2'', pNickname = ''Lan'', pSocketId = ''k2'', pTickets = [''t1''],
             pJoinedAt = 0, pIsHost = False \<rparr>],
       rStatus = Playing, rCreatedAt = 0, rSettings = sampleSettings,
       rCurrentSession = Some \<lparr> sId = ''s1'', sRoomCode = ''ABC234'',
          sCalledNumbers = calledOf called, sStartedAt = 0, sWinner = None \<rparr> \<rparr>"

definition sampleState :: "int list \<Rightarrow> ServerState" where
  "sampleState called =
     \<lparr> rooms = [''ABC234'' \<mapsto> sampleRoom called],
       players = [''k2'' \<mapsto> \<lparr> dOderId = ''p2'', dRoomCode = ''ABC234'', dIsHost = False \<rparr>],
       tickets = [''t1'' \<mapsto> sampleTicket],
       sockets = [''k2'' \<mapsto> \<lparr> kOderId = ''p2'', kRoomCode = ''ABC234'', kIsHost = False,
                               kNickname = ''Lan'' \<rparr>] \<rparr>"

definition sampleSession :: "int list \<Rightarrow> GameSession" where
  "sampleSession called =
     \<lparr> gsSessionId = ''s1'', gsRoomCode = ''ABC234'', gsCalledNumbers = calledOf called,
       gsStartedAt = 0, gsEndedAt = None, gsWinner = None \<rparr>"

definition sampleStore :: "int list \<Rightarrow> Store" where
  "sampleStore called =
     \<lparr> roomDocs =
         [\<lparr> rmCode = ''ABC234'', rmHostId = ''p1'', rmStatus = Playing,
             rmSettings = sampleSettings,
             rmPlayers =
               [\<lparr> plOderId = ''p1'', plNickname = ''Host'', plRoomCode = ''ABC234'',
                   plIsHost = True, plJoinedAt = 0 \<rparr>,
                \<lparr> plOderId = ''p2'', plNickname = ''Lan'', plRoomCode = ''ABC234'',
                   plIsHost = False, plJoinedAt = 0 \<rparr>] \<rparr>],
       playerDocs =
         [\<lparr> plOderId = ''p1'', plNickname = ''Host'', plRoomCode = ''ABC234'',
             plIsHost = True, plJoinedAt = 0 \<rparr>,
          \<lparr> plOderId = ''p2'', plNickname = ''Lan'', plRoomCode = ''ABC234'',
             plIsHost = False, plJoinedAt = 0 \<rparr>],
       ticketDocs = [sampleTicket],
       sessionDocs = [sampleSession called],
       roomCache = Map.empty,
       sessionCache = Map.empty \<rparr>"

text \<open>
  A second grid, a ticket of two grids and the state of the in-memory server that holds
  this ticket in place of \<open>sampleTicket\<close>.
\<close>

definition secondGrid :: TicketGrid where
  "secondGrid =
     \<lparr> rows =
        [\<lparr> cells = [None, Some 12, Some 21, None, Some 44, None, Some 60, Some 75, None],
            marked = replicate 9 False \<rparr>,
         \<lparr> cells = [Some 3, None, Some 25, Some 33, None, Some 55, None, None, Some 81],
            marked = replicate 9 False \<rparr>,
         \<lparr> cells = [Some 8, Some 19, None, None, Some 48, Some 58, None, Some 79, None],
            marked = replicate 9 False \<rparr>] \<rparr>"

definition twoGridTicket :: LotoTicket where
  "twoGridTicket = sampleTicket\<lparr> grids := [sampleGrid, secondGrid] \<rparr>"

definition twoGridState :: "int list \<Rightarrow> ServerState" where
  "twoGridState called = (sampleState called)\<lparr> tickets := [''t1'' \<mapsto> twoGridTicket] \<rparr>"

text \<open>The grid that \<open>generateGrid\<close> of server.js produces from \<open>sampleRandom\<close>.\<close>

definition serverGrid :: TicketGrid where
  "serverGrid =
     \<lparr> rows =
        [\<lparr> cells = [Some 7, None, None, Some 32, Some 44, Some 56, Some 68, None, None],
            marked = replicate 9 False \<rparr>,
         \<lparr> cells = [None, Some 18, Some 20, Some 33, Some 45, None, None, Some 79, None],
            marked = replicate 9 False \<rparr>,
         \<lparr> cells = [Some 8, Some 19, Some 21, None, None, Some 57, None, None, Some 89],
            marked = replicate 9 False \<rparr>] \<rparr>"

text \<open>The ticket that \<open>generateTicket\<close> of number-generator.ts makes from \<open>sampleRandom\<close>.\<close>

definition numberTicket :: LotoTicket where
  "numberTicket = fst (the (generateTicket sampleRandom ''R'' ''o'' 0 0))"

definition emptyState :: ServerState where
  "emptyState = \<lparr> rooms = Map.empty, players = Map.empty, tickets = Map.empty,
                   sockets = Map.empty \<rparr>"

definition emptyStore :: Store where
  "emptyStore = \<lparr> roomDocs = [], playerDocs = [], ticketDocs = [], sessionDocs = [],
                   roomCache = Map.empty, sessionCache = Map.empty \<rparr>"

definition maxTwo :: PartialSettings where
  "maxTwo = \<lparr> optMaxPlayers = Some 2, optTicketsPerPlayer = None,
               optMaxTicketsPerPlayer = None, optAutoCall = None, optCallSpeed = None,
               optCheckMode = None, optAutoMarkNumbers = None, optAudioMode = None \<rparr>"

text \<open>
  A room created with \<open>maxPlayers = 2\<close> and joined once, in each server. The room code
  drawn from \<open>sampleRandom\<close> at position 0 is \<open>ABCDEF\<close>.
\<close>

definition createdState :: ServerState where
  "createdState = fst (snd (roomCreate_js sampleRandom 0 ''k1'' ''Host'' maxTwo emptyState 0))"

definition joinedState :: ServerState where
  "joinedState = fst (snd (snd (roomJoin_js sampleRandom 1 ''k2'' ''abcdef'' ''Lan'' createdState 8)))"

definition createdStore :: Store where
  "createdStore = fst (snd (createRoom sampleRandom 0 ''Host'' sampleSettings emptyStore 0))"

definition joinedStore :: Store where
  "joinedStore = fst (snd (joinRoom sampleRandom 1 ''abcdef'' ''Lan'' createdStore 7))"

section \<open>Predicates of the proofs\<close>

text \<open>
  The invariant of the loop over \<open>colsIndices\<close> in one attempt of step 3, with \<open>done\<close>
  the columns already assigned: an assigned column holds as many distinct rows as its
  count, a column not yet assigned holds none, and every row's fill count is the number of
  its occurrences in the assignments.
\<close>

definition rowInv :: "nat list \<Rightarrow> nat set \<Rightarrow> rowState \<Rightarrow> bool" where
  "rowInv cc done st \<longleftrightarrow>
     length (rowAssignments st) = 9 \<and> length (rowFillCounts st) = 3 \<and>
     (\<forall>c<9. if c \<in> done
            then distinct (rowAssignments st ! c) \<and> set (rowAssignments st ! c) \<subseteq> {0, 1, 2} \<and>
                 length (rowAssignments st ! c) = cc ! c
            else rowAssignments st ! c = []) \<and>
     (\<forall>r<3. rowFillCounts st ! r = sum_list (map (\<lambda>xs. count_list xs r) (rowAssignments st)))"

text \<open>
  The numbers of a grid row by row, the numbers of a column from the top row down, and
  the numbers of a ticket grid by grid.
\<close>

definition numbersOf :: "TicketGrid \<Rightarrow> int list" where
  "numbersOf grid =
     concat (map (\<lambda>row. map the (filter (\<lambda>n. n \<noteq> None) (cells row))) (rows grid))"

definition columnNumbers :: "TicketGrid \<Rightarrow> nat \<Rightarrow> int list" where
  "columnNumbers grid c =
     map the (filter (\<lambda>n. n \<noteq> None) (map (\<lambda>row. cells row ! c) (rows grid)))"

definition ticketNumbers :: "LotoTicket \<Rightarrow> int list" where
  "ticketNumbers ticket = concat (map numbersOf (grids ticket))"

text \<open>
  What steps 1 and 2 of the grid generators hand to step 3: nine column counts from 1 to
  3 that add up to 15, and for every column as many numbers as its count, ascending,
  without repetition and from the column's band.
\<close>

definition columnsOk :: "nat list \<Rightarrow> int list list \<Rightarrow> bool" where
  "columnsOk cc gn \<longleftrightarrow>
     length cc = 9 \<and> (\<forall>c<9. 1 \<le> cc ! c \<and> cc ! c \<le> 3) \<and> sum_list cc = 15 \<and>
     length gn = 9 \<and>
     (\<forall>c<9. sorted (gn ! c) \<and> distinct (gn ! c) \<and> length (gn ! c) = cc ! c \<and>
            (\<forall>n\<in>set (gn ! c). fst (colRanges ! c) \<le> n \<and> n \<le> snd (colRanges ! c)))"


chapter \<open>Verified properties\<close>

section \<open>validateNumbers\<close>

lemma validateNumbers_fields:
  "isValid (validateNumbers ns cs) = True"
  "isWinner (validateNumbers ns cs) = (length (filter (\<lambda>n. n \<in> set cs) ns) = 5 \<and> length ns = 5)"
  "matchedNumbers (validateNumbers ns cs) = filter (\<lambda>n. n \<in> set cs) ns"
  "missingNumbers (validateNumbers ns cs) = filter (\<lambda>n. n \<notin> set cs) ns"
  by (simp_all add: validateNumbers_def Let_def)

lemma mset_filter_split: "mset (filter P xs) + mset (filter (\<lambda>x. \<not> P x) xs) = mset xs"
  by (induction xs) auto

text \<open>
  Claim C10. For every list of numbers and every called list, \<open>validateNumbers\<close>
  returns a result with \<open>isValid = true\<close> whose \<open>matchedNumbers\<close> and
  \<open>missingNumbers\<close> partition the input: together they hold every input number as
  often as the input does, a number is matched exactly when it is in the called list and
  missing exactly when it is not, both lists keep the input order (they are subsequences
  of the input), and their lengths add up to the input's length. The function reads
  nothing but its two arguments, so the result is a function of them alone.
\<close>

theorem validateNumbers_partition:
  "isValid (validateNumbers numbers called) \<and>
   mset (matchedNumbers (validateNumbers numbers called)) +
     mset (missingNumbers (validateNumbers numbers called)) = mset numbers \<and>
   length (matchedNumbers (validateNumbers numbers called)) +
     length (missingNumbers (validateNumbers numbers called)) = length numbers \<and>
   subseq (matchedNumbers (validateNumbers numbers called)) numbers \<and>
   subseq (missingNumbers (validateNumbers numbers called)) numbers \<and>
   (\<forall>n. n \<in> set (matchedNumbers (validateNumbers numbers called)) \<longleftrightarrow>
          n \<in> set numbers \<and> n \<in> set called) \<and>
   (\<forall>n. n \<in> set (missingNumbers (validateNumbers numbers called)) \<longleftrightarrow>
          n \<in> set numbers \<and> n \<notin> set called)"
proof -
  have "mset (filter (\<lambda>n. n \<in> set called) numbers) + mset (filter (\<lambda>n. n \<notin> set called) numbers)
        = mset numbers"
    by (rule mset_filter_split)
  moreover have "length (filter (\<lambda>n. n \<in> set called) numbers)
        + length (filter (\<lambda>n. n \<notin> set called) numbers) = length numbers"
    by (rule sum_length_filter_compl)
  ultimately show ?thesis
    by (simp add: validateNumbers_fields)
qed

theorem validateNumbers_partition_witness:
  "matchedNumbers (validateNumbers [7, 12, 30, 41, 88] [88, 5, 12, 30]) = [12, 30, 88] \<and>
   missingNumbers (validateNumbers [7, 12, 30, 41, 88] [88, 5, 12, 30]) = [7, 41] \<and>
   isValid (validateNumbers [7, 12, 30, 41, 88] [88, 5, 12, 30]) \<and>
   subseq [12, 30, 88] [7, 12, 30, 41, 88 :: int]"
  using validateNumbers_partition [of "[7, 12, 30, 41, 88]" "[88, 5, 12, 30]"]
  by (simp add: validateNumbers_fields)

section \<open>Validating a claimed row\<close>

lemma length_filter_all: "length (filter P xs) = length xs \<longleftrightarrow> (\<forall>x\<in>set xs. P x)"
proof (induction xs)
  case Nil
  then show ?case by simp
next
  case (Cons x xs)
  show ?case
  proof (cases "P x")
    case True
    with Cons show ?thesis by simp
  next
    case False
    have "length (filter P xs) \<noteq> Suc (length xs)"
      using length_filter_le [of P xs] by arith
    with False show ?thesis by simp
  qed
qed

lemma isWinner_five:
  assumes "length ns = 5"
  shows "isWinner (validateNumbers ns cs) \<longleftrightarrow> (\<forall>n\<in>set ns. n \<in> set cs)"
  using assms length_filter_all [of "\<lambda>n. n \<in> set cs" ns]
  by (simp add: validateNumbers_fields)

lemma validateTicket_claimed:
  assumes "0 \<le> g" "g < int (length (grids ticket))" "0 \<le> r" "r < 3"
      and "jsIndex (rows (grids ticket ! nat g)) r = Some row"
  shows "validateTicket ticket called (Some g) (Some r) = Inr (validateNumbers (rowNumbers row) called)"
  using assms by (simp add: validateTicket_def)

lemma callKinh_js_claimed:
  assumes "players st sock = Some pd" "rooms st (dRoomCode pd) = Some room"
      and "tickets st tid = Some ticket" "rCurrentSession room = Some session"
      and "0 \<le> g" "g < int (length (grids ticket))"
      and "jsIndex (rows (grids ticket ! nat g)) r = Some row"
      and "length (rowNumbers row) = 5"
  shows "fst (callKinh_js sock tid g r st)
         = validateNumbers (rowNumbers row) (map number (sCalledNumbers session))"
  using assms
  by (simp add: callKinh_js_def jsIndex_def validateNumbers_def Let_def)

text \<open>The numbers of a row in terms of its cells.\<close>

lemma set_somes: "set (map the (filter (\<lambda>n. n \<noteq> None) xs)) = {n. Some n \<in> set xs}"
  by (induction xs) auto

lemma set_rowNumbers: "set (rowNumbers row) = {n. Some n \<in> set (cells row)}"
  unfolding rowNumbers_def by (rule set_somes)

lemma length_rowNumbers:
  "length (rowNumbers row) = length (filter (\<lambda>c. c \<noteq> None) (cells row))"
  by (simp add: rowNumbers_def)

lemma filter_rowNumbers:
  "filter P (rowNumbers row) = map the (filter (\<lambda>c. c \<noteq> None \<and> P (the c)) (cells row))"
  by (simp add: rowNumbers_def filter_map comp_def)

text \<open>
  Claim C5. When a player calls a specific grid and row with valid indices, only that row
  is validated. Let \<open>row\<close> be row \<open>r\<close> of grid \<open>g\<close> of the ticket, with five of its
  cells holding a number. \<open>validateTicket\<close> with the claimed indices and the callback of
  the \<open>player:call-kinh\<close> handler of server.js give the same result \<open>res\<close>: it is
  valid, it is a winner exactly when every number in a cell of \<open>row\<close> is in the called
  list (so it is not when exactly four of them are), and \<open>matchedNumbers\<close> and
  \<open>missingNumbers\<close> are the called and the uncalled numbers of the cells of \<open>row\<close>,
  from left to right. The cells of the other rows of the ticket do not enter the result.
\<close>

theorem claimed_row_validation:
  assumes "0 \<le> g" and "g < int (length (grids ticket))"
      and "0 \<le> r" and "r < 3" and "r < int (length (rows (grids ticket ! nat g)))"
      and "row = rows (grids ticket ! nat g) ! nat r"
      and "length (filter (\<lambda>c. c \<noteq> None) (cells row)) = 5"
  shows "\<exists>res. validateTicket ticket called (Some g) (Some r) = Inr res \<and>
           (players st sock = Some pd \<and> rooms st (dRoomCode pd) = Some room \<and>
            tickets st tid = Some ticket \<and> rCurrentSession room = Some session \<and>
            map number (sCalledNumbers session) = called
              \<longrightarrow> fst (callKinh_js sock tid g r st) = res) \<and>
           isValid res \<and>
           (isWinner res \<longleftrightarrow> (\<forall>n. Some n \<in> set (cells row) \<longrightarrow> n \<in> set called)) \<and>
           matchedNumbers res
             = map the (filter (\<lambda>c. c \<noteq> None \<and> the c \<in> set called) (cells row)) \<and>
           missingNumbers res
             = map the (filter (\<lambda>c. c \<noteq> None \<and> the c \<notin> set called) (cells row)) \<and>
           (length (filter (\<lambda>c. c \<noteq> None \<and> the c \<in> set called) (cells row)) = 4
              \<longrightarrow> \<not> isWinner res)"
proof (intro exI conjI)
  have idx: "jsIndex (rows (grids ticket ! nat g)) r = Some row"
    using assms by (simp add: jsIndex_def)
  have five: "length (rowNumbers row) = 5"
    using assms(7) by (simp only: length_rowNumbers)
  show "validateTicket ticket called (Some g) (Some r) = Inr (validateNumbers (rowNumbers row) called)"
    using assms(1-4) idx by (rule validateTicket_claimed)
  show "players st sock = Some pd \<and> rooms st (dRoomCode pd) = Some room \<and>
            tickets st tid = Some ticket \<and> rCurrentSession room = Some session \<and>
            map number (sCalledNumbers session) = called
              \<longrightarrow> fst (callKinh_js sock tid g r st) = validateNumbers (rowNumbers row) called"
    using assms(1,2) idx five callKinh_js_claimed [of st sock pd room tid ticket session g r row]
    by auto
  show "isValid (validateNumbers (rowNumbers row) called)"
    by (simp add: validateNumbers_fields)
  show "isWinner (validateNumbers (rowNumbers row) called)
          \<longleftrightarrow> (\<forall>n. Some n \<in> set (cells row) \<longrightarrow> n \<in> set called)"
    using five by (simp add: isWinner_five set_rowNumbers)
  show "matchedNumbers (validateNumbers (rowNumbers row) called)
          = map the (filter (\<lambda>c. c \<noteq> None \<and> the c \<in> set called) (cells row))"
    by (simp only: validateNumbers_fields filter_rowNumbers)
  show "missingNumbers (validateNumbers (rowNumbers row) called)
          = map the (filter (\<lambda>c. c \<noteq> None \<and> the c \<notin> set called) (cells row))"
    by (simp only: validateNumbers_fields filter_rowNumbers)
  show "length (filter (\<lambda>c. c \<noteq> None \<and> the c \<in> set called) (cells row)) = 4
          \<longrightarrow> \<not> isWinner (validateNumbers (rowNumbers row) called)"
    by (simp add: validateNumbers_fields filter_rowNumbers)
qed

text \<open>
  The theorem at the third row of the second grid of a ticket of two grids. With 8, 19,
  48, 58 and 79 called the row wins; with 79 not called it does not, although the first
  row of the first grid (1, 30, 40, 51, 62) is complete in both cases.
\<close>

theorem claimed_row_validation_witness:
  "validateTicket twoGridTicket [79, 58, 48, 19, 8, 1, 30, 40, 51, 62] (Some 1) (Some 2)
     = Inr \<lparr> isValid = True, isWinner = True, matchedNumbers = [8, 19, 48, 58, 79],
             missingNumbers = [] \<rparr> \<and>
   fst (callKinh_js ''k2'' ''t1'' 1 2 (twoGridState [79, 58, 48, 19, 8, 1, 30, 40, 51, 62]))
     = \<lparr> isValid = True, isWinner = True, matchedNumbers = [8, 19, 48, 58, 79],
         missingNumbers = [] \<rparr> \<and>
   validateTicket twoGridTicket [58, 48, 19, 8, 1, 30, 40, 51, 62] (Some 1) (Some 2)
     = Inr \<lparr> isValid = True, isWinner = False, matchedNumbers = [8, 19, 48, 58],
             missingNumbers = [79] \<rparr> \<and>
   fst (callKinh_js ''k2'' ''t1'' 1 2 (twoGridState [58, 48, 19, 8, 1, 30, 40, 51, 62]))
     = \<lparr> isValid = True, isWinner = False, matchedNumbers = [8, 19, 48, 58],
         missingNumbers = [79] \<rparr>"
proof -
  let ?row = "rows secondGrid ! 2"
  have row: "cells ?row = [Some 8, Some 19, None, None, Some 48, Some 58, None, Some 79, None]"
    by (simp add: secondGrid_def)
  have hyps: "(0::int) \<le> 1" "(1::int) < int (length (grids twoGridTicket))"
    "(0::int) \<le> 2" "(2::int) < 3"
    "(2::int) < int (length (rows (grids twoGridTicket ! nat 1)))"
    "?row = rows (grids twoGridTicket ! nat 1) ! nat 2"
    "length (filter (\<lambda>c. c \<noteq> None) (cells ?row)) = 5"
    by (simp_all add: twoGridTicket_def secondGrid_def)
  have res: "res = \<lparr> isValid = isValid res, isWinner = isWinner res,
      matchedNumbers = matchedNumbers res, missingNumbers = missingNumbers res \<rparr>"
    for res :: ValidationResult
    by (cases res) simp
  have state: "players (twoGridState called) ''k2''
        = Some \<lparr> dOderId = ''p2'', dRoomCode = ''ABC234'', dIsHost = False \<rparr> \<and>
      rooms (twoGridState called) ''ABC234'' = Some (sampleRoom called) \<and>
      tickets (twoGridState called) ''t1'' = Some twoGridTicket \<and>
      rCurrentSession (sampleRoom called) = Some \<lparr> sId = ''s1'', sRoomCode = ''ABC234'',
            sCalledNumbers = calledOf called, sStartedAt = 0, sWinner = None \<rparr> \<and>
      map number (calledOf called) = called" for called
    by (simp add: twoGridState_def sampleState_def sampleRoom_def calledOf_def comp_def)
  let ?c1 = "[79, 58, 48, 19, 8, 1, 30, 40, 51, 62] :: int list"
  let ?c2 = "[58, 48, 19, 8, 1, 30, 40, 51, 62] :: int list"
  from claimed_row_validation [OF hyps,
      where called = ?c1 and st = "twoGridState ?c1" and sock = "''k2''"
        and pd = "\<lparr> dOderId = ''p2'', dRoomCode = ''ABC234'', dIsHost = False \<rparr>"
        and room = "sampleRoom ?c1" and tid = "''t1''"
        and session = "\<lparr> sId = ''s1'', sRoomCode = ''ABC234'',
            sCalledNumbers = calledOf ?c1, sStartedAt = 0, sWinner = None \<rparr>"]
    state [of ?c1]
  obtain res1 where
    a1: "validateTicket twoGridTicket ?c1 (Some 1) (Some 2) = Inr res1"
    and a2: "fst (callKinh_js ''k2'' ''t1'' 1 2 (twoGridState ?c1)) = res1"
    and a3: "isValid res1" "isWinner res1"
       "matchedNumbers res1 = [8, 19, 48, 58, 79]" "missingNumbers res1 = []"
    unfolding row by auto
  from claimed_row_validation [OF hyps,
      where called = ?c2 and st = "twoGridState ?c2" and sock = "''k2''"
        and pd = "\<lparr> dOderId = ''p2'', dRoomCode = ''ABC234'', dIsHost = False \<rparr>"
        and room = "sampleRoom ?c2" and tid = "''t1''"
        and session = "\<lparr> sId = ''s1'', sRoomCode = ''ABC234'',
            sCalledNumbers = calledOf ?c2, sStartedAt = 0, sWinner = None \<rparr>"]
    state [of ?c2]
  obtain res2 where
    b1: "validateTicket twoGridTicket ?c2 (Some 1) (Some 2) = Inr res2"
    and b2: "fst (callKinh_js ''k2'' ''t1'' 1 2 (twoGridState ?c2)) = res2"
    and b3: "isValid res2" "\<not> isWinner res2"
       "matchedNumbers res2 = [8, 19, 48, 58]" "missingNumbers res2 = [79]"
    unfolding row by auto
  from a3 res [of res1] have "res1 = \<lparr> isValid = True, isWinner = True,
      matchedNumbers = [8, 19, 48, 58, 79], missingNumbers = [] \<rparr>"
    by simp
  moreover from b3 res [of res2] have "res2 = \<lparr> isValid = True, isWinner = False,
      matchedNumbers = [8, 19, 48, 58], missingNumbers = [79] \<rparr>"
    by simp
  ultimately show ?thesis using a1 a2 b1 b2 by simp
qed

section \<open>Drawing numbers\<close>

lemma randomBelow_less: "0 < n \<Longrightarrow> randomBelow rnd pos n < n"
  by (simp add: randomBelow_def)

lemma generateNextNumber_fresh:
  assumes "generateNextNumber rnd pos called = Some n"
  shows "n \<notin> set called \<and> 1 \<le> n \<and> n \<le> 90"
proof -
  let ?available = "filter (\<lambda>i. i \<notin> set called) [1..90]"
  from assms have ne: "?available \<noteq> []"
    and n: "n = ?available ! randomBelow rnd pos (length ?available)"
    by (auto simp add: generateNextNumber_def Let_def split: if_splits)
  from ne have "randomBelow rnd pos (length ?available) < length ?available"
    by (simp add: randomBelow_less)
  then have "n \<in> set ?available" unfolding n by (rule nth_mem)
  then show ?thesis by simp
qed

lemma generateNextNumber_null:
  "generateNextNumber rnd pos called = None \<longleftrightarrow> (\<forall>i\<in>{1..90}. i \<in> set called)"
  by (auto simp add: generateNextNumber_def Let_def filter_empty_conv)

lemma number_calledOf [simp]: "map number (calledOf ns) = ns"
  by (simp add: calledOf_def comp_def)

lemma toUpperCase_sample [simp]: "toUpperCase ''ABC234'' = ''ABC234''"
  by (simp add: toUpperCase_def toUpperChar_def)

lemma activeSession_sample [simp]:
  "activeSession (sessionDocs (sampleStore called)) ''ABC234'' = Some (sampleSession called)"
  by (simp add: activeSession_def sampleStore_def sampleSession_def)

text \<open>
  What \<open>GameService.spinNumber\<close> draws: a number from 1 to 89 that the session has not
  called, and nothing once 1 to 89 are called.
\<close>

lemma spinNumber_fresh:
  assumes "activeSession (sessionDocs db) (toUpperCase room) = Some session"
      and "spinNumber rnd now room db pos = (Some (n, session'), db', pos')"
  shows "n \<notin> set (map number (gsCalledNumbers session)) \<and> 1 \<le> n \<and> n \<le> 89 \<and>
         map number (gsCalledNumbers session') = map number (gsCalledNumbers session) @ [n]"
proof -
  let ?available = "filter (\<lambda>i. i \<notin> set (map number (gsCalledNumbers session))) [1..89]"
  from assms have ne: "?available \<noteq> []"
    and n: "n = ?available ! randomBelow rnd pos (length ?available)"
    and s': "session' = session\<lparr> gsCalledNumbers :=
               gsCalledNumbers session @ [\<lparr> number = n, calledAt = now \<rparr>] \<rparr>"
    by (auto simp add: spinNumber_def Let_def split: if_splits)
  from ne have "randomBelow rnd pos (length ?available) < length ?available"
    by (simp add: randomBelow_less)
  then have "n \<in> set ?available" unfolding n by (rule nth_mem)
  then show ?thesis using s' by simp
qed

text \<open>
  Claim C1, at the input where the code departs from it. The session of
  \<open>sampleStore [1..89]\<close> has called 1 to 89 and not 90. The claim wants the next draw
  to return 90, so that the called set becomes 1 to 90; \<open>GameService.spinNumber\<close>
  returns \<open>null\<close> for every random source and leaves the store as it is
  (\<open>generateNextNumber\<close> and the handler of server.js draw from 1 to 90).
\<close>

theorem spinNumber_stops_at_89:
  "spinNumber rnd now ''ABC234'' (sampleStore [1..89]) pos = (None, sampleStore [1..89], pos) \<and>
   map number (gsCalledNumbers (sampleSession [1..89])) = [1..89] \<and>
   90 \<notin> set [1..89::int] \<and>
   (\<exists>n. generateNextNumber rnd pos [1..89] = Some n)"
proof -
  have "filter (\<lambda>i. i \<notin> set [1..89::int]) [1..89] = []"
    by (simp add: filter_empty_conv)
  then have "spinNumber rnd now ''ABC234'' (sampleStore [1..89]) pos
               = (None, sampleStore [1..89], pos)"
    by (simp add: spinNumber_def sampleSession_def)
  moreover have "\<exists>i\<in>{1..90::int}. i \<notin> set [1..89]"
    by (rule bexI [of _ 90]) simp_all
  then have "generateNextNumber rnd pos [1..89] \<noteq> None"
    by (simp add: generateNextNumber_null)
  ultimately show ?thesis by (auto simp add: sampleSession_def)
qed

section \<open>Joining a room\<close>

lemma roomJoin_js_full:
  assumes "rooms st (toUpperCase code) = Some room"
      and "maxPlayers (rSettings room) \<le> int (length (rPlayers room))"
  shows "roomJoin_js rnd now sock code nickname st pos = ([Inl RoomFull], [], st, pos)"
  using assms by (simp add: roomJoin_js_def)

lemma roomJoin_js_missing:
  assumes "rooms st (toUpperCase code) = None"
  shows "roomJoin_js rnd now sock code nickname st pos = ([Inl RoomNotFound], [], st, pos)"
  using assms by (simp add: roomJoin_js_def)

lemma roomJoin_js_appends:
  assumes "rooms st (toUpperCase code) = Some room"
      and "int (length (rPlayers room)) < maxPlayers (rSettings room)"
  shows "\<exists>player replies events st' pos'.
           roomJoin_js rnd now sock code nickname st pos = (replies, events, st', pos') \<and>
           rooms st' (toUpperCase code) = Some (room\<lparr> rPlayers := rPlayers room @ [player] \<rparr>) \<and>
           pNickname player = nickname \<and> \<not> pIsHost player \<and>
           hd replies = Inr (room\<lparr> rPlayers := rPlayers room @ [player] \<rparr>)"
proof -
  let ?player = "\<lparr> pId = generateId rnd pos, pNickname = nickname, pSocketId = sock,
                    pTickets = [], pJoinedAt = now, pIsHost = False \<rparr>"
  show ?thesis
    using assms by (intro exI [of _ ?player]) (simp add: roomJoin_js_def Let_def)
qed

lemma joinRoom_full:
  assumes "find (\<lambda>r. rmCode r = toUpperCase code) (roomDocs db) = Some room"
      and "maxPlayers (rmSettings room)
             \<le> int (length (filter (\<lambda>p. plRoomCode p = toUpperCase code) (playerDocs db)))"
  shows "joinRoom rnd now code nickname db pos = (Inl RoomFull, db, pos)"
  using assms by (simp add: joinRoom_def)

lemma joinRoom_missing:
  assumes "find (\<lambda>r. rmCode r = toUpperCase code) (roomDocs db) = None"
  shows "joinRoom rnd now code nickname db pos = (Inl RoomNotFound, db, pos)"
  using assms by (simp add: joinRoom_def)

lemma find_replaceFirst:
  "find P xs = Some x \<Longrightarrow> P y \<Longrightarrow> find P (replaceFirst P y xs) = Some y"
  by (induction xs) auto

lemma joinRoom_appends:
  assumes "find (\<lambda>r. rmCode r = toUpperCase code) (roomDocs db) = Some room"
      and "int (length (filter (\<lambda>p. plRoomCode p = toUpperCase code) (playerDocs db)))
             < maxPlayers (rmSettings room)"
  shows "\<exists>player db' pos'.
           joinRoom rnd now code nickname db pos
             = (Inr (room\<lparr> rmPlayers := rmPlayers room @ [player] \<rparr>, player), db', pos') \<and>
           find (\<lambda>r. rmCode r = toUpperCase code) (roomDocs db')
             = Some (room\<lparr> rmPlayers := rmPlayers room @ [player] \<rparr>) \<and>
           playerDocs db' = playerDocs db @ [player] \<and>
           plNickname player = nickname \<and> \<not> plIsHost player"
proof -
  from assms(1) have code: "rmCode room = toUpperCase code"
    by (auto dest: find_Some_iff [THEN iffD1])
  let ?player = "\<lparr> plOderId = generateId rnd pos, plNickname = nickname,
                    plRoomCode = toUpperCase code, plIsHost = False, plJoinedAt = now \<rparr>"
  have "find (\<lambda>r. rmCode r = toUpperCase code)
          (replaceFirst (\<lambda>r. rmCode r = toUpperCase code)
             (room\<lparr> rmPlayers := rmPlayers room @ [?player] \<rparr>) (roomDocs db))
        = Some (room\<lparr> rmPlayers := rmPlayers room @ [?player] \<rparr>)"
    using assms(1) code by (intro find_replaceFirst) simp_all
  then show ?thesis
    using assms by (intro exI [of _ ?player]) (simp add: joinRoom_def Let_def)
qed

text \<open>
  Claim C8. \<open>join(code, nickname)\<close> fails with \<open>RoomFull\<close> whenever the room exists and
  its player count is at least \<open>settings.maxPlayers\<close>, and the state is the one before
  the call; it fails with \<open>RoomNotFound\<close>, state unchanged, when the room does not exist;
  in the remaining case (the room exists and has capacity) the new player is appended to
  the room's roster. This holds for the \<open>room:join\<close> handler of server.js, which counts
  \<open>room.players\<close>, and for \<open>RoomService.joinRoom\<close>, which counts the player documents
  of the room.
\<close>

theorem join_room_capacity:
  "(rooms st (toUpperCase code) = Some room \<longrightarrow>
      (if maxPlayers (rSettings room) \<le> int (length (rPlayers room))
       then roomJoin_js rnd now sock code nickname st pos = ([Inl RoomFull], [], st, pos)
       else \<exists>player replies events st' pos'.
              roomJoin_js rnd now sock code nickname st pos = (replies, events, st', pos') \<and>
              rooms st' (toUpperCase code) = Some (room\<lparr> rPlayers := rPlayers room @ [player] \<rparr>) \<and>
              pNickname player = nickname \<and> \<not> pIsHost player \<and>
              hd replies = Inr (room\<lparr> rPlayers := rPlayers room @ [player] \<rparr>))) \<and>
   (rooms st (toUpperCase code) = None \<longrightarrow>
      roomJoin_js rnd now sock code nickname st pos = ([Inl RoomNotFound], [], st, pos)) \<and>
   (find (\<lambda>r. rmCode r = toUpperCase code) (roomDocs db) = Some doc \<longrightarrow>
      (if maxPlayers (rmSettings doc)
            \<le> int (length (filter (\<lambda>p. plRoomCode p = toUpperCase code) (playerDocs db)))
       then joinRoom rnd now code nickname db pos = (Inl RoomFull, db, pos)
       else \<exists>player db' pos'.
              joinRoom rnd now code nickname db pos
                = (Inr (doc\<lparr> rmPlayers := rmPlayers doc @ [player] \<rparr>, player), db', pos') \<and>
              find (\<lambda>r. rmCode r = toUpperCase code) (roomDocs db')
                = Some (doc\<lparr> rmPlayers := rmPlayers doc @ [player] \<rparr>) \<and>
              playerDocs db' = playerDocs db @ [player] \<and>
              plNickname player = nickname \<and> \<not> plIsHost player)) \<and>
   (find (\<lambda>r. rmCode r = toUpperCase code) (roomDocs db) = None \<longrightarrow>
      joinRoom rnd now code nickname db pos = (Inl RoomNotFound, db, pos))"
proof (intro conjI impI)
  assume r: "rooms st (toUpperCase code) = Some room"
  show "if maxPlayers (rSettings room) \<le> int (length (rPlayers room))
       then roomJoin_js rnd now sock code nickname st pos = ([Inl RoomFull], [], st, pos)
       else \<exists>player replies events st' pos'.
              roomJoin_js rnd now sock code nickname st pos = (replies, events, st', pos') \<and>
              rooms st' (toUpperCase code) = Some (room\<lparr> rPlayers := rPlayers room @ [player] \<rparr>) \<and>
              pNickname player = nickname \<and> \<not> pIsHost player \<and>
              hd replies = Inr (room\<lparr> rPlayers := rPlayers room @ [player] \<rparr>)"
  proof (cases "maxPlayers (rSettings room) \<le> int (length (rPlayers room))")
    case True
    with r show ?thesis by (simp add: roomJoin_js_full)
  next
    case False
    then have "int (length (rPlayers room)) < maxPlayers (rSettings room)" by simp
    from roomJoin_js_appends [OF r this] False show ?thesis by simp
  qed
next
  assume "rooms st (toUpperCase code) = None"
  then show "roomJoin_js rnd now sock code nickname st pos = ([Inl RoomNotFound], [], st, pos)"
    by (rule roomJoin_js_missing)
next
  assume d: "find (\<lambda>r. rmCode r = toUpperCase code) (roomDocs db) = Some doc"
  show "if maxPlayers (rmSettings doc)
            \<le> int (length (filter (\<lambda>p. plRoomCode p = toUpperCase code) (playerDocs db)))
       then joinRoom rnd now code nickname db pos = (Inl RoomFull, db, pos)
       else \<exists>player db' pos'.
              joinRoom rnd now code nickname db pos
                = (Inr (doc\<lparr> rmPlayers := rmPlayers doc @ [player] \<rparr>, player), db', pos') \<and>
              find (\<lambda>r. rmCode r = toUpperCase code) (roomDocs db')
                = Some (doc\<lparr> rmPlayers := rmPlayers doc @ [player] \<rparr>) \<and>
              playerDocs db' = playerDocs db @ [player] \<and>
              plNickname player = nickname \<and> \<not> plIsHost player"
  proof (cases "maxPlayers (rmSettings doc)
            \<le> int (length (filter (\<lambda>p. plRoomCode p = toUpperCase code) (playerDocs db)))")
    case True
    with d show ?thesis by (simp add: joinRoom_full)
  next
    case False
    then have "int (length (filter (\<lambda>p. plRoomCode p = toUpperCase code) (playerDocs db)))
                 < maxPlayers (rmSettings doc)" by simp
    from joinRoom_appends [OF d this] False show ?thesis by simp
  qed
next
  assume "find (\<lambda>r. rmCode r = toUpperCase code) (roomDocs db) = None"
  then show "joinRoom rnd now code nickname db pos = (Inl RoomNotFound, db, pos)"
    by (rule joinRoom_missing)
qed

lemma joinedState_room:
  "rooms joinedState (toUpperCase ''ABCDEF'') =
     Some \<lparr> rId = ''7'', rCode = ''ABCDEF'', rHostId = ''6'', rHostSocketId = ''k1'',
       rPlayers =
         [\<lparr> pId = ''6'', pNickname = ''Host'', pSocketId = ''k1'', pTickets = [],
             pJoinedAt = 0, pIsHost = True \<rparr>,
          \<lparr> pId = ''8'', pNickname = ''Lan'', pSocketId = ''k2'', pTickets = [],
             pJoinedAt = 1, pIsHost = False \<rparr>],
       rStatus = Waiting, rCreatedAt = 0, rSettings = spreadSettings maxTwo,
       rCurrentSession = None \<rparr>"
  by code_simp

lemma joinedStore_room:
  "find (\<lambda>r. rmCode r = toUpperCase ''ABCDEF'') (roomDocs joinedStore) =
     Some \<lparr> rmCode = ''ABCDEF'', rmHostId = ''6'', rmStatus = Waiting,
       rmSettings = sampleSettings,
       rmPlayers =
         [\<lparr> plOderId = ''6'', plNickname = ''Host'', plRoomCode = ''ABCDEF'',
             plIsHost = True, plJoinedAt = 0 \<rparr>,
          \<lparr> plOderId = ''7'', plNickname = ''Lan'', plRoomCode = ''ABCDEF'',
             plIsHost = False, plJoinedAt = 1 \<rparr>] \<rparr>"
  by code_simp

lemma joinedStore_count:
  "length (filter (\<lambda>p. plRoomCode p = toUpperCase ''ABCDEF'') (playerDocs joinedStore)) = 2"
  by code_simp

lemma toUpperCase_abcdef: "toUpperCase ''abcdef'' = toUpperCase ''ABCDEF''"
  by code_simp

text \<open>
  The scenario of claim C8: in a room created with \<open>maxPlayers = 2\<close> the host is the
  first player and the first join the second; the second join attempt (Minh) and the third
  (Nga) return \<open>RoomFull\<close> and leave the state as it is.
\<close>

theorem join_room_capacity_witness:
  "roomJoin_js sampleRandom 2 ''k3'' ''ABCDEF'' ''Minh'' joinedState 9
     = ([Inl RoomFull], [], joinedState, 9) \<and>
   roomJoin_js sampleRandom 3 ''k4'' ''abcdef'' ''Nga'' joinedState 9
     = ([Inl RoomFull], [], joinedState, 9) \<and>
   joinRoom sampleRandom 2 ''ABCDEF'' ''Minh'' joinedStore 8 = (Inl RoomFull, joinedStore, 8) \<and>
   joinRoom sampleRandom 3 ''abcdef'' ''Nga'' joinedStore 8 = (Inl RoomFull, joinedStore, 8) \<and>
   length (rPlayers (the (rooms joinedState ''ABCDEF''))) = 2 \<and>
   maxPlayers (rSettings (the (rooms joinedState ''ABCDEF''))) = 2 \<and>
   length (filter (\<lambda>p. plRoomCode p = ''ABCDEF'') (playerDocs joinedStore)) = 2 \<and>
   maxPlayers sampleSettings = 2"
  using join_room_capacity [where st = joinedState and code = "''ABCDEF''" and db = joinedStore
      and rnd = sampleRandom and now = 2 and sock = "''k3''" and nickname = "''Minh''"
      and pos = 9]
    join_room_capacity [where st = joinedState and code = "''ABCDEF''" and db = joinedStore
      and rnd = sampleRandom and now = 2 and sock = "''k3''" and nickname = "''Minh''"
      and pos = 8]
    join_room_capacity [where st = joinedState and code = "''abcdef''" and db = joinedStore
      and rnd = sampleRandom and now = 3 and sock = "''k4''" and nickname = "''Nga''"
      and pos = 9]
    join_room_capacity [where st = joinedState and code = "''abcdef''" and db = joinedStore
      and rnd = sampleRandom and now = 3 and sock = "''k4''" and nickname = "''Nga''"
      and pos = 8]
    joinedState_room joinedStore_room joinedStore_count
  by (simp add: toUpperCase_abcdef) (simp add: spreadSettings_def maxTwo_def sampleSettings_def toUpperCase_def toUpperChar_def)

section \<open>Creating tickets\<close>

lemma createLoop_js_length:
  "createLoop_js rnd now room owner n acc tmap pos = Some (ts, tmap', pos')
     \<Longrightarrow> length ts = length acc + n"
proof (induction n arbitrary: acc tmap pos)
  case 0
  then show ?case by simp
next
  case (Suc n)
  then show ?case by (auto split: option.splits)
qed

text \<open>
  The handler of server.js creates \<open>min(count, ticketsPerPlayer)\<close> tickets, whatever
  the player owns already.
\<close>

lemma createTickets_js_count:
  assumes "players st sock = Some pd" and "rooms st (dRoomCode pd) = Some room"
      and "createTickets_js rnd now sock cnt st pos = Some (Inr ts, st', pos')"
  shows "length ts = nat (min cnt (ticketsPerPlayer (rSettings room)))"
  using assms createLoop_js_length [of rnd now "dRoomCode pd" "dOderId pd"
      "nat (min cnt (ticketsPerPlayer (rSettings room)))" "[]" "tickets st" pos]
  by (auto simp add: createTickets_js_def split: option.splits)

text \<open>
  \<open>TicketService.createTickets\<close> clamps the count as the claim says: with
  \<open>existing\<close> tickets of the player in the room, \<open>actualCount\<close> is
  \<open>min(count, maxPerPlayer - existing)\<close> while the cap is not reached, and at most 0
  once it is.
\<close>

lemma actualCount_clamp:
  fixes db room owner
  defines "existing \<equiv> int (length (filter
              (\<lambda>t. roomCode t = Some (toUpperCase room) \<and> ownerId t = owner) (ticketDocs db)))"
  shows "(existing \<le> maxPerPlayer \<longrightarrow>
            actualCount db room owner cnt maxPerPlayer = min cnt (maxPerPlayer - existing)) \<and>
         (maxPerPlayer \<le> existing \<longrightarrow> actualCount db room owner cnt maxPerPlayer \<le> 0) \<and>
         existing + max 0 (actualCount db room owner cnt maxPerPlayer) \<le> max existing maxPerPlayer"
  by (auto simp add: actualCount_def existing_def Let_def)

text \<open>
  The tickets that \<open>generateTicket\<close> returns carry the room as \<open>roomId\<close>, so the
  documents built from them have no \<open>roomCode\<close> and \<open>insertMany\<close> rejects them.
\<close>

lemma generateTicket_roomCode:
  "generateTicket rnd room owner now pos = Some (t, pos') \<Longrightarrow> roomCode t = None"
  by (auto simp add: generateTicket_def split: option.splits)

lemma createLoop_roomCode:
  "createLoop rnd now room owner n acc pos = Some (ts, pos')
     \<Longrightarrow> \<forall>t\<in>set acc. roomCode t = None \<Longrightarrow> length ts = length acc + n \<and> (\<forall>t\<in>set ts. roomCode t = None)"
proof (induction n arbitrary: acc pos)
  case 0
  then show ?case by simp
next
  case (Suc n)
  from Suc.prems(1) obtain t p where g: "generateTicket rnd room owner now pos = Some (t, p)"
    and rest: "createLoop rnd now room owner n (acc @ [newTicketDoc t]) p = Some (ts, pos')"
    by (auto split: option.splits)
  have "\<forall>t'\<in>set (acc @ [newTicketDoc t]). roomCode t' = None"
    using Suc.prems(2) generateTicket_roomCode [OF g] by (simp add: newTicketDoc_def)
  from Suc.IH [OF rest this] show ?case by simp
qed

lemma createTickets_rejected:
  assumes "0 < actualCount db room owner cnt maxPerPlayer"
      and "createTickets rnd now room owner cnt maxPerPlayer db pos = Some (res, db', pos')"
  shows "res = Inl ValidationError \<and> db' = db"
proof -
  from assms obtain ts p where
    loop: "createLoop rnd now (toUpperCase room) owner
             (nat (actualCount db room owner cnt maxPerPlayer)) [] pos = Some (ts, p)"
    and res: "(case insertMany ts db of Inl e \<Rightarrow> Some (Inl e, db, p)
               | Inr db'' \<Rightarrow> Some (Inr ts, db'', p)) = Some (res, db', pos')"
    by (auto simp add: createTickets_def split: option.splits if_splits)
  from createLoop_roomCode [OF loop] assms(1)
  have "ts \<noteq> []" and "\<forall>t\<in>set ts. roomCode t = None" by auto
  then have "list_ex (\<lambda>t. roomCode t = None) ts"
    by (cases ts) (auto simp add: list_ex_iff)
  then have "insertMany ts db = Inl ValidationError" by (simp add: insertMany_def)
  with res show ?thesis by simp
qed

text \<open>
  Claim C7, at an input where the code departs from it. In \<open>sampleState []\<close> the cap of
  the room is 1 and the player of socket \<open>k2\<close> owns the ticket \<open>t1\<close>. The claim gives
  \<open>min(1, 1 - 1) = 0\<close> new tickets for a request of one; the handler of
  \<open>player:create-tickets\<close> in server.js creates one, and the player then owns two.
\<close>

theorem createTickets_js_exceeds_cap:
  "ticketsPerPlayer (rSettings (sampleRoom [])) = 1 \<and>
   map pTickets (rPlayers (sampleRoom [])) = [[], [''t1'']] \<and>
   map_option
     (\<lambda>(res, st', p). (case res of Inr ts \<Rightarrow> map ticketId ts | Inl e \<Rightarrow> [],
                       map pTickets (rPlayers (the (rooms st' ''ABC234'')))))
     (createTickets_js sampleRandom 5 ''k2'' 1 (sampleState []) 0)
   = Some ([''2i''], [[], [''t1'', ''2i'']])"
  by code_simp

section \<open>Marking a cell\<close>

lemma jsIndex_in: "0 \<le> i \<Longrightarrow> i < int (length xs) \<Longrightarrow> jsIndex xs i = Some (xs ! nat i)"
  by (simp add: jsIndex_def)

lemma toggleMark_in:
  assumes "0 \<le> col" and "col < int (length (marked row))"
  shows "toggleMark row col = row\<lparr> marked := (marked row)[nat col := \<not> marked row ! nat col] \<rparr>"
  using assms by (simp add: toggleMark_def jsStore_def jsIndex_def)

lemma toggleMark_twice:
  assumes "0 \<le> col" and "col < int (length (marked row))"
  shows "toggleMark (toggleMark row col) col = row"
  using assms by (simp add: toggleMark_in)

lemma replaceRow_same:
  assumes "g < length (grids ticket)" and "r < length (rows (grids ticket ! g))"
  shows "replaceRow (replaceRow ticket g r row') g r (rows (grids ticket ! g) ! r) = ticket"
  using assms by (simp add: replaceRow_def)

lemma replaceRow_row:
  assumes "g < length (grids ticket)" and "r < length (rows (grids ticket ! g))"
  shows "rows (grids (replaceRow ticket g r row') ! g) ! r = row'"
    and "length (grids (replaceRow ticket g r row')) = length (grids ticket)"
    and "length (rows (grids (replaceRow ticket g r row') ! g)) = length (rows (grids ticket ! g))"
    and "replaceRow (replaceRow ticket g r row') g r row'' = replaceRow ticket g r row''"
  using assms by (simp_all add: replaceRow_def)

text \<open>
  Inside the grid both implementations do what claim C6 says. For the handler of
  server.js, every cell that passes its range test is inside a well-formed row: an empty
  cell leaves the state as it is, a cell with a number gets its mark flipped and nothing
  else changes, and a second call gives back the first state.
\<close>

lemma markNumber_js_cell:
  assumes t: "tickets st tid = Some ticket"
      and g: "0 \<le> grid" "grid < int (length (grids ticket))"
      and r: "0 \<le> row" "row < 3" "nat row < length (rows (grids ticket ! nat grid))"
      and c: "0 \<le> col" "col < 9"
      and wf: "length (cells (rows (grids ticket ! nat grid) ! nat row)) = 9"
              "length (marked (rows (grids ticket ! nat grid) ! nat row)) = 9"
  defines "old \<equiv> rows (grids ticket ! nat grid) ! nat row"
  shows "cells old ! nat col = None \<longrightarrow> markNumber_js tid grid row col st = Inr st"
    and "cells old ! nat col \<noteq> None \<longrightarrow>
           (\<exists>st'. markNumber_js tid grid row col st = Inr st' \<and>
              tickets st' tid = Some (replaceRow ticket (nat grid) (nat row)
                 (old\<lparr> marked := (marked old)[nat col := \<not> marked old ! nat col] \<rparr>)) \<and>
              markNumber_js tid grid row col st' = Inr st)"
proof -
  have idx: "jsIndex (rows (grids ticket ! nat grid)) row = Some old"
    using r by (simp add: jsIndex_def old_def)
  have cell: "jsIndex (cells old) col = Some (cells old ! nat col)"
    using c wf by (simp add: jsIndex_def old_def)
  have tog: "toggleMark old col = old\<lparr> marked := (marked old)[nat col := \<not> marked old ! nat col] \<rparr>"
    using c wf by (intro toggleMark_in) (simp_all add: old_def)
  show "cells old ! nat col = None \<longrightarrow> markNumber_js tid grid row col st = Inr st"
    using t g r c idx cell by (simp add: markNumber_js_def cellNotNull_def)
  show "cells old ! nat col \<noteq> None \<longrightarrow>
           (\<exists>st'. markNumber_js tid grid row col st = Inr st' \<and>
              tickets st' tid = Some (replaceRow ticket (nat grid) (nat row)
                 (old\<lparr> marked := (marked old)[nat col := \<not> marked old ! nat col] \<rparr>)) \<and>
              markNumber_js tid grid row col st' = Inr st)"
  proof
    assume num: "cells old ! nat col \<noteq> None"
    let ?new = "old\<lparr> marked := (marked old)[nat col := \<not> marked old ! nat col] \<rparr>"
    let ?ticket' = "replaceRow ticket (nat grid) (nat row) ?new"
    let ?st' = "st\<lparr> tickets := (tickets st)(tid \<mapsto> ?ticket') \<rparr>"
    have gl: "nat grid < length (grids ticket)" using g by simp
    have first: "markNumber_js tid grid row col st = Inr ?st'"
      using t g r c idx cell num tog by (simp add: markNumber_js_def cellNotNull_def)
    have ri: "row < int (length (rows (grids ticket ! nat grid)))"
      using r by linarith
    have idx': "jsIndex (rows (grids ?ticket' ! nat grid)) row = Some ?new"
      using r(1) ri replaceRow_row [OF gl r(3), of ?new] by (simp add: jsIndex_def)
    have cell': "jsIndex (cells ?new) col = Some (cells old ! nat col)"
      using cell by simp
    have tog': "toggleMark ?new col = old"
      using tog toggleMark_twice [of col old] c wf by (simp add: old_def)
    have undo: "replaceRow ?ticket' (nat grid) (nat row) old = ticket"
      using replaceRow_same [OF gl r(3)] by (simp add: old_def)
    have "(tickets st)(tid \<mapsto> ticket) = tickets st"
      using t by (simp add: map_upd_triv)
    then have second: "markNumber_js tid grid row col ?st' = Inr st"
      using g r c idx' cell' num tog' undo replaceRow_row(2) [OF gl r(3), of ?new]
      by (simp add: markNumber_js_def cellNotNull_def)
    from first second show "\<exists>st'. markNumber_js tid grid row col st = Inr st' \<and>
              tickets st' tid = Some ?ticket' \<and> markNumber_js tid grid row col st' = Inr st"
      by (intro exI [of _ ?st']) simp
  qed
qed

lemma replaceFirst_found: "find P xs = Some x \<Longrightarrow> replaceFirst P x xs = xs"
  by (induction xs) (auto split: if_splits)

lemma replaceFirst_twice: "P y \<Longrightarrow> replaceFirst P z (replaceFirst P y xs) = replaceFirst P z xs"
  by (induction xs) auto

text \<open>
  The same for \<open>TicketService.markNumber\<close>, for a cell inside the row.
\<close>

lemma markNumber_cell:
  assumes t: "find (\<lambda>t. ticketId t = tid) (ticketDocs db) = Some ticket"
      and g: "0 \<le> grid" "grid < int (length (grids ticket))"
      and r: "0 \<le> row" "nat row < length (rows (grids ticket ! nat grid))"
      and c: "0 \<le> col" "col < int (length (cells (rows (grids ticket ! nat grid) ! nat row)))"
             "col < int (length (marked (rows (grids ticket ! nat grid) ! nat row)))"
  defines "old \<equiv> rows (grids ticket ! nat grid) ! nat row"
  shows "cells old ! nat col = None \<longrightarrow> markNumber tid grid row col db = db"
    and "cells old ! nat col \<noteq> None \<longrightarrow>
           find (\<lambda>t. ticketId t = tid) (ticketDocs (markNumber tid grid row col db))
             = Some (replaceRow ticket (nat grid) (nat row)
                 (old\<lparr> marked := (marked old)[nat col := \<not> marked old ! nat col] \<rparr>)) \<and>
           markNumber tid grid row col (markNumber tid grid row col db) = db"
proof -
  have tid: "ticketId ticket = tid"
    using t by (auto dest: find_Some_iff [THEN iffD1])
  have gi: "jsIndex (grids ticket) grid = Some (grids ticket ! nat grid)"
    using g by (simp add: jsIndex_def)
  have idx: "jsIndex (rows (grids ticket ! nat grid)) row = Some old"
    using r by (simp add: jsIndex_def old_def)
  have cell: "jsIndex (cells old) col = Some (cells old ! nat col)"
    using c by (simp add: jsIndex_def old_def)
  have tog: "toggleMark old col = old\<lparr> marked := (marked old)[nat col := \<not> marked old ! nat col] \<rparr>"
    using c by (intro toggleMark_in) (simp_all add: old_def)
  show "cells old ! nat col = None \<longrightarrow> markNumber tid grid row col db = db"
    using t gi idx cell by (simp add: markNumber_def cellNotNull_def)
  show "cells old ! nat col \<noteq> None \<longrightarrow>
           find (\<lambda>t. ticketId t = tid) (ticketDocs (markNumber tid grid row col db))
             = Some (replaceRow ticket (nat grid) (nat row)
                 (old\<lparr> marked := (marked old)[nat col := \<not> marked old ! nat col] \<rparr>)) \<and>
           markNumber tid grid row col (markNumber tid grid row col db) = db"
  proof
    assume num: "cells old ! nat col \<noteq> None"
    let ?new = "old\<lparr> marked := (marked old)[nat col := \<not> marked old ! nat col] \<rparr>"
    let ?ticket' = "replaceRow ticket (nat grid) (nat row) ?new"
    let ?P = "\<lambda>t. ticketId t = tid"
    let ?db' = "db\<lparr> ticketDocs := replaceFirst ?P ?ticket' (ticketDocs db) \<rparr>"
    have gl: "nat grid < length (grids ticket)" using g by simp
    have tid': "ticketId ?ticket' = tid" using tid by (simp add: replaceRow_def)
    have first: "markNumber tid grid row col db = ?db'"
      using t gi idx cell num tog by (simp add: markNumber_def cellNotNull_def)
    have found: "find ?P (ticketDocs ?db') = Some ?ticket'"
      using t tid' by (simp add: find_replaceFirst)
    have gi': "jsIndex (grids ?ticket') grid = Some (grids ?ticket' ! nat grid)"
      using g replaceRow_row(2) [OF gl r(2), of ?new] by (simp add: jsIndex_def)
    have ri: "row < int (length (rows (grids ticket ! nat grid)))"
      using r by linarith
    have idx': "jsIndex (rows (grids ?ticket' ! nat grid)) row = Some ?new"
      using r(1) ri replaceRow_row [OF gl r(2), of ?new] by (simp add: jsIndex_def)
    have cell': "jsIndex (cells ?new) col = Some (cells old ! nat col)"
      using cell by simp
    have tog': "toggleMark ?new col = old"
      using tog toggleMark_twice [of col old] c by (simp add: old_def)
    have undo: "replaceRow ?ticket' (nat grid) (nat row) old = ticket"
      using replaceRow_same [OF gl r(2)] by (simp add: old_def)
    have "replaceFirst ?P ticket (replaceFirst ?P ?ticket' (ticketDocs db)) = ticketDocs db"
      using tid' t by (simp add: replaceFirst_twice replaceFirst_found)
    then have second: "markNumber tid grid row col ?db' = db"
      using found gi' idx' cell' num tog' undo
      by (simp add: markNumber_def cellNotNull_def)
    from first found second show "find ?P (ticketDocs (markNumber tid grid row col db)) = Some ?ticket' \<and>
           markNumber tid grid row col (markNumber tid grid row col db) = db"
      by simp
  qed
qed

text \<open>
  Claim C6, at an input where the code departs from it. The rows of \<open>sampleTicket\<close>
  have the cells 0 to 8, so no cell is addressed by column 9 and the claim allows no
  change. The handler of server.js tests \<open>col < 9\<close> and leaves the state as it is.
  \<open>TicketService.markNumber\<close> has no such test: the read \<open>cells[9]\<close> is
  \<open>undefined\<close>, which is not \<open>null\<close>, so it stores \<open>marked[9] = true\<close>, and a
  second call stores \<open>false\<close> there, which is not the ticket it started from.
\<close>

theorem markNumber_outside_row:
  "markNumber_js ''t1'' 0 0 9 (sampleState []) = Inr (sampleState []) \<and>
   jsIndex (cells (rows sampleGrid ! 0)) 9 = None \<and>
   map (\<lambda>t. marked (rows (grids t ! 0) ! 0)) (ticketDocs (sampleStore []))
     = [replicate 9 False] \<and>
   map (\<lambda>t. marked (rows (grids t ! 0) ! 0)) (ticketDocs (markNumber ''t1'' 0 0 9 (sampleStore [])))
     = [replicate 9 False @ [True]] \<and>
   map (\<lambda>t. marked (rows (grids t ! 0) ! 0))
     (ticketDocs (markNumber ''t1'' 0 0 9 (markNumber ''t1'' 0 0 9 (sampleStore []))))
     = [replicate 9 False @ [False]]"
proof -
  have "markNumber_js ''t1'' 0 0 9 (sampleState []) = Inr (sampleState [])"
    by (simp add: markNumber_js_def sampleState_def)
  moreover have "jsIndex (cells (rows sampleGrid ! 0)) 9 = None"
    by (simp add: jsIndex_def sampleGrid_def)
  moreover have "map (\<lambda>t. marked (rows (grids t ! 0) ! 0)) (ticketDocs (sampleStore []))
     = [replicate 9 False]"
    by code_simp
  moreover have "map (\<lambda>t. marked (rows (grids t ! 0) ! 0))
      (ticketDocs (markNumber ''t1'' 0 0 9 (sampleStore []))) = [replicate 9 False @ [True]]"
    by code_simp
  moreover have "map (\<lambda>t. marked (rows (grids t ! 0) ! 0))
     (ticketDocs (markNumber ''t1'' 0 0 9 (markNumber ''t1'' 0 0 9 (sampleStore []))))
     = [replicate 9 False @ [False]]"
    by code_simp
  ultimately show ?thesis by simp
qed

section \<open>What detecting a winner changes\<close>

lemma callKinh_js_frame:
  assumes "callKinh_js sock tid grid row st = (res, events, st')"
  shows "st' = st \<or>
         (isWinner res \<and>
          (\<exists>pd room session w.
              players st sock = Some pd \<and> rooms st (dRoomCode pd) = Some room \<and>
              rCurrentSession room = Some session \<and>
              st' = st\<lparr> rooms := (rooms st)(dRoomCode pd \<mapsto>
                       room\<lparr> rCurrentSession := Some (session\<lparr> sWinner := Some w \<rparr>) \<rparr>) \<rparr>))"
  using assms
  by (auto simp add: callKinh_js_def Let_def split: option.splits prod.splits if_splits)


lemma callKinh_js_rooms:
  assumes "callKinh_js sock tid grid row st = (res, events, st')"
  shows "map_option rStatus (rooms st' code) = map_option rStatus (rooms st code) \<and>
         map_option (\<lambda>r. map_option sCalledNumbers (rCurrentSession r)) (rooms st' code)
           = map_option (\<lambda>r. map_option sCalledNumbers (rCurrentSession r)) (rooms st code)"
  using callKinh_js_frame [OF assms] by auto

lemma callKinh_js_winner:
  assumes "callKinh_js sock tid grid row st = (res, events, st')" and "isWinner res"
  shows "\<exists>pd room session nick.
           players st sock = Some pd \<and> rooms st (dRoomCode pd) = Some room \<and>
           rCurrentSession room = Some session \<and>
           rooms st' (dRoomCode pd) = Some (room\<lparr> rCurrentSession := Some (session\<lparr> sWinner :=
              Some \<lparr> wOderId = dOderId pd, wNickname = nick, wTicketId = tid,
                     wGrid = grid, wRow = row \<rparr> \<rparr>) \<rparr>) \<and>
           GameWinner (dRoomCode pd) (dOderId pd) nick tid grid row \<in> set events"
  using assms
  by (auto simp add: callKinh_js_def Let_def invalidResult_def
        split: option.splits prod.splits if_splits)

lemma callKinh_store: "store (snd (snd (callKinh sd tid grid row srv))) = store srv"
  by (auto simp add: callKinh_def stopAutoCall_def split: option.splits prod.splits sum.splits)

lemma replaceFirst_update:
  "find P xs = Some s \<Longrightarrow>
     \<exists>i<length xs. xs ! i = s \<and> (\<forall>j<i. \<not> P (xs ! j)) \<and> replaceFirst P y xs = xs[i := y]"
proof (induction xs)
  case Nil
  then show ?case by simp
next
  case (Cons x xs)
  show ?case
  proof (cases "P x")
    case True
    with Cons.prems have "x = s" by simp
    with True show ?thesis by (intro exI [of _ 0]) simp
  next
    case False
    with Cons.prems have "find P xs = Some s" by simp
    from Cons.IH [OF this] obtain i where i: "i < length xs" "xs ! i = s"
      "\<forall>j<i. \<not> P (xs ! j)" "replaceFirst P y xs = xs[i := y]" by blast
    have "\<forall>j<Suc i. \<not> P ((x # xs) ! j)"
      using False i(3) by (auto simp add: less_Suc_eq_0_disj)
    with i False show ?thesis by (intro exI [of _ "Suc i"]) simp
  qed
qed

lemma checkAutoWinner_none:
  "fst (checkAutoWinner now room called db) = None \<Longrightarrow> snd (checkAutoWinner now room called db) = db"
  by (auto simp add: checkAutoWinner_def Let_def split: option.splits prod.splits)

lemma checkAutoWinner_rooms:
  "roomDocs (snd (checkAutoWinner now room called db)) = roomDocs db \<and>
   ticketDocs (snd (checkAutoWinner now room called db)) = ticketDocs db \<and>
   playerDocs (snd (checkAutoWinner now room called db)) = playerDocs db"
  by (auto simp add: checkAutoWinner_def Let_def split: option.splits prod.splits)

lemma checkAutoWinner_ends:
  assumes "fst (checkAutoWinner now room called db) = Some w"
      and "find (\<lambda>s. gsRoomCode s = toUpperCase room \<and> gsEndedAt s = None) (sessionDocs db) = Some s"
  shows "\<exists>i<length (sessionDocs db). sessionDocs db ! i = s \<and>
           (\<forall>j<i. \<not> (gsRoomCode (sessionDocs db ! j) = toUpperCase room \<and>
                       gsEndedAt (sessionDocs db ! j) = None)) \<and>
           sessionDocs (snd (checkAutoWinner now room called db))
             = (sessionDocs db)[i := s\<lparr> gsWinner := Some w, gsEndedAt := Some now \<rparr>]"
proof -
  from assms(1) have "sessionDocs (snd (checkAutoWinner now room called db))
      = endWithWinner (toUpperCase room) w now (sessionDocs db)"
    by (auto simp add: checkAutoWinner_def Let_def split: option.splits prod.splits)
  moreover have "endWithWinner (toUpperCase room) w now (sessionDocs db)
      = replaceFirst (\<lambda>s. gsRoomCode s = toUpperCase room \<and> gsEndedAt s = None)
          (s\<lparr> gsWinner := Some w, gsEndedAt := Some now \<rparr>) (sessionDocs db)"
    using assms(2) by (simp add: endWithWinner_def)
  ultimately show ?thesis
    using replaceFirst_update [OF assms(2), of "s\<lparr> gsWinner := Some w, gsEndedAt := Some now \<rparr>"]
    by simp
qed

text \<open>
  Claim C4: detecting a winning row never ends the session; after the automatic check run
  after a draw has found a winning row, the active session's \<open>endedAt\<close> remains unset,
  and only reset or close end the session. The automatic check does not behave so. In
  \<open>sampleStore\<close> with 1, 30, 40, 51 and 62 called, the first row of the stored ticket is
  complete and the room has one session, which has not ended. \<open>checkAutoWinner\<close> finds
  the row and writes the winner together with \<open>endedAt\<close> into that session: afterwards
  the room has no active session, and \<open>spinNumber\<close> returns \<open>null\<close>, although the
  game was neither reset nor closed.
\<close>

theorem checkAutoWinner_ends_session:
  "map gsEndedAt (sessionDocs (sampleStore [1, 30, 40, 51, 62])) = [None] \<and>
   fst (checkAutoWinner 7 ''ABC234'' [1, 30, 40, 51, 62] (sampleStore [1, 30, 40, 51, 62]))
     = Some \<lparr> wnOderId = ''p2'', wnNickname = ''Lan'', wnTicketId = ''t1'', wnRow = 0 \<rparr> \<and>
   map gsEndedAt (sessionDocs (snd (checkAutoWinner 7 ''ABC234'' [1, 30, 40, 51, 62]
       (sampleStore [1, 30, 40, 51, 62])))) = [Some 7] \<and>
   activeSession (sessionDocs (snd (checkAutoWinner 7 ''ABC234'' [1, 30, 40, 51, 62]
       (sampleStore [1, 30, 40, 51, 62])))) ''ABC234'' = None \<and>
   fst (spinNumber sampleRandom 8 ''ABC234'' (snd (checkAutoWinner 7 ''ABC234'' [1, 30, 40, 51, 62]
       (sampleStore [1, 30, 40, 51, 62]))) 0) = None"
  by code_simp

text \<open>
  The other effects of detecting a winner. A winning row found through a player's call
  does not end anything: the \<open>player:call-kinh\<close> handler of server.js leaves the status
  of every room and the presence and called numbers of its session as they are, and on a
  win it records the winner in the session and broadcasts it; the handler of the
  TypeScript server leaves the store as it is. \<open>checkAutoWinner\<close> never changes a room
  document and changes nothing when it finds no winner; when it finds one, the session
  it writes to is the first session of the room, in the order of the store, that has not
  ended.
\<close>

lemma winner_detection_effects:
  "(\<forall>res events st'. callKinh_js sock tid grid row st = (res, events, st') \<longrightarrow>
      (\<forall>code. map_option rStatus (rooms st' code) = map_option rStatus (rooms st code) \<and>
              map_option (\<lambda>r. map_option sCalledNumbers (rCurrentSession r)) (rooms st' code)
                = map_option (\<lambda>r. map_option sCalledNumbers (rCurrentSession r)) (rooms st code)) \<and>
      (isWinner res \<longrightarrow>
         (\<exists>pd room session nick.
             players st sock = Some pd \<and> rooms st (dRoomCode pd) = Some room \<and>
             rCurrentSession room = Some session \<and>
             rooms st' (dRoomCode pd) = Some (room\<lparr> rCurrentSession := Some (session\<lparr> sWinner :=
                Some \<lparr> wOderId = dOderId pd, wNickname = nick, wTicketId = tid,
                       wGrid = grid, wRow = row \<rparr> \<rparr>) \<rparr>) \<and>
             GameWinner (dRoomCode pd) (dOderId pd) nick tid grid row \<in> set events))) \<and>
   store (snd (snd (callKinh sd tid grid row srv))) = store srv \<and>
   roomDocs (snd (checkAutoWinner now room called db)) = roomDocs db \<and>
   (fst (checkAutoWinner now room called db) = None \<longrightarrow>
      snd (checkAutoWinner now room called db) = db) \<and>
   (\<forall>w s. fst (checkAutoWinner now room called db) = Some w \<and>
          find (\<lambda>s. gsRoomCode s = toUpperCase room \<and> gsEndedAt s = None) (sessionDocs db) = Some s
      \<longrightarrow> (\<exists>i<length (sessionDocs db). sessionDocs db ! i = s \<and>
             (\<forall>j<i. \<not> (gsRoomCode (sessionDocs db ! j) = toUpperCase room \<and>
                         gsEndedAt (sessionDocs db ! j) = None)) \<and>
             sessionDocs (snd (checkAutoWinner now room called db))
               = (sessionDocs db)[i := s\<lparr> gsWinner := Some w, gsEndedAt := Some now \<rparr>]))"
  using callKinh_js_rooms [of sock tid grid row st] callKinh_js_winner [of sock tid grid row st]
    callKinh_store [of sd tid grid row srv] checkAutoWinner_rooms [of now room called db]
    checkAutoWinner_none [of now room called db] checkAutoWinner_ends [of now room called db]
  by blast

lemma sample_autoWinner:
  "fst (checkAutoWinner 7 ''ABC234'' [1, 30, 40, 51, 62] (sampleStore [1, 30, 40, 51, 62]))
     = Some \<lparr> wnOderId = ''p2'', wnNickname = ''Lan'', wnTicketId = ''t1'', wnRow = 0 \<rparr>"
  by code_simp

lemma sample_active:
  "find (\<lambda>s. gsRoomCode s = toUpperCase ''ABC234'' \<and> gsEndedAt s = None)
     (sessionDocs (sampleStore called)) = Some (sampleSession called)"
  by (simp add: sampleStore_def sampleSession_def)

lemma sample_callKinh_js:
  "isWinner (fst (callKinh_js ''k2'' ''t1'' 0 0 (sampleState [1, 30, 40, 51, 62])))"
  by code_simp

lemma winner_detection_effects_sample:
  "sessionDocs (snd (checkAutoWinner 7 ''ABC234'' [1, 30, 40, 51, 62]
       (sampleStore [1, 30, 40, 51, 62])))
     = [(sampleSession [1, 30, 40, 51, 62])
          \<lparr> gsWinner := Some \<lparr> wnOderId = ''p2'', wnNickname = ''Lan'', wnTicketId = ''t1'',
                                wnRow = 0 \<rparr>,
            gsEndedAt := Some 7 \<rparr>] \<and>
   roomDocs (snd (checkAutoWinner 7 ''ABC234'' [1, 30, 40, 51, 62]
       (sampleStore [1, 30, 40, 51, 62]))) = roomDocs (sampleStore [1, 30, 40, 51, 62]) \<and>
   map_option rStatus
     (rooms (snd (snd (callKinh_js ''k2'' ''t1'' 0 0 (sampleState [1, 30, 40, 51, 62])))) ''ABC234'')
     = Some Playing \<and>
   map_option (\<lambda>r. map_option sCalledNumbers (rCurrentSession r))
     (rooms (snd (snd (callKinh_js ''k2'' ''t1'' 0 0 (sampleState [1, 30, 40, 51, 62])))) ''ABC234'')
     = Some (Some (calledOf [1, 30, 40, 51, 62]))"
proof -
  let ?c = "[1, 30, 40, 51, 62] :: int list"
  obtain res events st' where
    eq: "callKinh_js ''k2'' ''t1'' 0 0 (sampleState ?c) = (res, events, st')"
    by (cases "callKinh_js ''k2'' ''t1'' 0 0 (sampleState ?c)") auto
  note inst = winner_detection_effects [where sock = "''k2''" and tid = "''t1''" and grid = 0
      and row = 0 and st = "sampleState ?c" and now = 7 and room = "''ABC234''"
      and called = ?c and db = "sampleStore ?c" and sd = None
      and srv = "\<lparr> store = sampleStore ?c, autoCallIntervals = {} \<rparr>"]
  from inst eq have
    "map_option rStatus (rooms st' ''ABC234'')
       = map_option rStatus (rooms (sampleState ?c) ''ABC234'')"
    and "map_option (\<lambda>r. map_option sCalledNumbers (rCurrentSession r)) (rooms st' ''ABC234'')
       = map_option (\<lambda>r. map_option sCalledNumbers (rCurrentSession r))
           (rooms (sampleState ?c) ''ABC234'')"
    by blast+
  then have js: "map_option rStatus (rooms st' ''ABC234'') = Some Playing"
    "map_option (\<lambda>r. map_option sCalledNumbers (rCurrentSession r)) (rooms st' ''ABC234'')
       = Some (Some (calledOf ?c))"
    by (simp_all add: sampleState_def sampleRoom_def)
  from inst sample_autoWinner sample_active [of ?c]
  obtain i where "i < length (sessionDocs (sampleStore ?c))"
    and "sessionDocs (snd (checkAutoWinner 7 ''ABC234'' ?c (sampleStore ?c)))
          = (sessionDocs (sampleStore ?c))[i := (sampleSession ?c)
               \<lparr> gsWinner := Some \<lparr> wnOderId = ''p2'', wnNickname = ''Lan'',
                                     wnTicketId = ''t1'', wnRow = 0 \<rparr>,
                 gsEndedAt := Some 7 \<rparr>]"
    by blast
  then have ts: "sessionDocs (snd (checkAutoWinner 7 ''ABC234'' ?c (sampleStore ?c)))
     = [(sampleSession ?c)
          \<lparr> gsWinner := Some \<lparr> wnOderId = ''p2'', wnNickname = ''Lan'', wnTicketId = ''t1'',
                                wnRow = 0 \<rparr>,
            gsEndedAt := Some 7 \<rparr>]"
    by (simp add: sampleStore_def)
  from inst have "roomDocs (snd (checkAutoWinner 7 ''ABC234'' ?c (sampleStore ?c)))
     = roomDocs (sampleStore ?c)" by blast
  with ts js eq show ?thesis by simp
qed

section \<open>The random rearrangement is a permutation\<close>

lemma mset_removeAt: "i < length xs \<Longrightarrow> add_mset (xs ! i) (mset (removeAt i xs)) = mset xs"
proof -
  assume "i < length xs"
  then have "xs = take i xs @ xs ! i # drop (Suc i) xs"
    by (simp add: id_take_nth_drop)
  then have "mset xs = mset (take i xs @ xs ! i # drop (Suc i) xs)" by simp
  then show ?thesis by (simp add: removeAt_def)
qed

lemma mset_sortRandom: "mset (sortRandom r xs) = mset xs"
proof (induction r xs rule: sortRandom.induct)
  case (1 r xs)
  show ?case
  proof (cases "xs = []")
    case True
    then show ?thesis by (simp add: sortRandom.simps)
  next
    case False
    then have lt: "r mod length xs < length xs" by simp
    have "mset (sortRandom r xs)
            = add_mset (xs ! (r mod length xs))
                (mset (sortRandom (r div length xs) (removeAt (r mod length xs) xs)))"
      using False by (subst sortRandom.simps) simp
    also have "\<dots> = add_mset (xs ! (r mod length xs)) (mset (removeAt (r mod length xs) xs))"
      using 1 False by simp
    also have "\<dots> = mset xs" using lt by (rule mset_removeAt)
    finally show ?thesis .
  qed
qed

lemma set_sortRandom [simp]: "set (sortRandom r xs) = set xs"
  using mset_sortRandom [of r xs] by (metis set_mset_mset)

lemma length_sortRandom [simp]: "length (sortRandom r xs) = length xs"
  using mset_sortRandom [of r xs] by (metis size_mset)

lemma distinct_sortRandom [simp]: "distinct (sortRandom r xs) = distinct xs"
  using mset_sortRandom [of r xs] by (metis mset_eq_imp_distinct_iff)

section \<open>Column counts\<close>

lemma sum_list_incr:
  fixes xs :: "nat list"
  assumes "k < length xs"
  shows "sum_list (xs[k := xs ! k + 1]) = sum_list xs + 1"
proof -
  have "xs ! k \<le> sum_list xs" using assms by (simp add: member_le_sum_list)
  then show ?thesis using assms by (simp add: sum_list_update)
qed

lemma fillColCounts_inv:
  assumes "fillColCounts rnd cc rem pos = Some y"
  shows "length cc = 9 \<and> (\<forall>c<9. 1 \<le> cc ! c \<and> cc ! c \<le> 3) \<longrightarrow>
         length (fst y) = 9 \<and> (\<forall>c<9. 1 \<le> fst y ! c \<and> fst y ! c \<le> 3) \<and>
         sum_list (fst y) = sum_list cc + rem \<and> pos \<le> snd y"
  using assms
proof (induct rnd cc rem pos y rule: fillColCounts.raw_induct [rotated 1, consumes 1])
  case (1 f rnd cc rem pos y)
  show ?case
  proof (intro impI)
    assume ok: "length cc = 9 \<and> (\<forall>c<9. 1 \<le> cc ! c \<and> cc ! c \<le> 3)"
    let ?c = "randomBelow rnd pos 9"
    have c9: "?c < 9" by (simp add: randomBelow_def)
    show "length (fst y) = 9 \<and> (\<forall>c<9. 1 \<le> fst y ! c \<and> fst y ! c \<le> 3) \<and>
          sum_list (fst y) = sum_list cc + rem \<and> pos \<le> snd y"
    proof (cases "0 < rem")
      case False
      with 1(2) ok show ?thesis by auto
    next
      case True
      show ?thesis
      proof (cases "cc ! ?c < 3")
        case less: True
        with True 1(2) have call: "f rnd (cc[?c := cc ! ?c + 1]) (rem - 1) (pos + 1) = Some y"
          by (simp add: Let_def)
        have ok': "length (cc[?c := cc ! ?c + 1]) = 9 \<and>
                   (\<forall>c<9. 1 \<le> cc[?c := cc ! ?c + 1] ! c \<and> cc[?c := cc ! ?c + 1] ! c \<le> 3)"
          using ok less c9 by (auto simp add: nth_list_update)
        have "sum_list (cc[?c := cc ! ?c + 1]) = sum_list cc + 1"
          using ok c9 by (intro sum_list_incr) simp
        with 1(1) [OF call] ok' True show ?thesis by simp
      next
        case False
        with True 1(2) have call: "f rnd cc rem (pos + 1) = Some y"
          by (simp add: Let_def)
        from 1(1) [OF call] ok show ?thesis by simp
      qed
    qed
  qed
qed

lemma fillColCounts_result:
  assumes "fillColCounts rnd colCounts remaining pos = Some (colCounts', pos')"
      and "length colCounts = 9" and "\<forall>c<9. 1 \<le> colCounts ! c \<and> colCounts ! c \<le> 3"
  shows "length colCounts' = 9 \<and> (\<forall>c<9. 1 \<le> colCounts' ! c \<and> colCounts' ! c \<le> 3) \<and>
         sum_list colCounts' = sum_list colCounts + remaining \<and> pos \<le> pos'"
  using fillColCounts_inv [OF assms(1)] assms(2,3) by simp

section \<open>The numbers of the columns\<close>

lemma pickColumn_result:
  assumes "pickColumn rnd exclude cc c pos = Some nums"
  shows "sorted nums \<and> distinct nums \<and> length nums = cc ! c \<and>
         (\<forall>n\<in>set nums. fst (colRanges ! c) \<le> n \<and> n \<le> snd (colRanges ! c) \<and> n \<notin> exclude)"
proof -
  let ?available = "filter (\<lambda>n. n \<notin> exclude) [fst (colRanges ! c)..snd (colRanges ! c)]"
  let ?picked = "take (cc ! c) (sortRandom (rnd pos) ?available)"
  from assms have enough: "cc ! c \<le> length ?available" and nums: "nums = sort ?picked"
    by (auto simp add: pickColumn_def Let_def split: if_splits)
  have "distinct ?available" by simp
  then have d: "distinct ?picked" by (simp add: distinct_take)
  have "set ?picked \<subseteq> set (sortRandom (rnd pos) ?available)" by (rule set_take_subset)
  then have s: "set ?picked \<subseteq> set ?available" by simp
  have l: "length ?picked = cc ! c" using enough by simp
  have "sorted nums" by (simp add: nums)
  moreover have "distinct nums" using d by (simp add: nums)
  moreover have "length nums = cc ! c" using l by (simp add: nums)
  moreover have "\<forall>n\<in>set nums. fst (colRanges ! c) \<le> n \<and> n \<le> snd (colRanges ! c) \<and> n \<notin> exclude"
  proof
    fix n assume "n \<in> set nums"
    then have "n \<in> set ?picked" by (simp add: nums)
    with s have "n \<in> set ?available" by blast
    then show "fst (colRanges ! c) \<le> n \<and> n \<le> snd (colRanges ! c) \<and> n \<notin> exclude"
      by simp
  qed
  ultimately show ?thesis by blast
qed

lemma pickNumbers_result:
  assumes "pickNumbers rnd exclude cc cs acc pos = (Some gridNumbers, pos')"
  shows "length gridNumbers = length acc + length cs \<and>
         take (length acc) gridNumbers = acc \<and>
         (\<forall>i<length cs. \<exists>p. pickColumn rnd exclude cc (cs ! i) p = Some (gridNumbers ! (length acc + i)))"
  using assms
proof (induction cs arbitrary: acc pos)
  case Nil
  then show ?case by simp
next
  case (Cons c cs)
  from Cons.prems obtain nums where
    col: "pickColumn rnd exclude cc c pos = Some nums"
    and rest: "pickNumbers rnd exclude cc cs (acc @ [nums]) (pos + 1) = (Some gridNumbers, pos')"
    by (auto split: option.splits)
  from Cons.IH [OF rest] have
    len: "length gridNumbers = length (acc @ [nums]) + length cs"
    and pre: "take (length (acc @ [nums])) gridNumbers = acc @ [nums]"
    and cols: "\<forall>i<length cs. \<exists>p. pickColumn rnd exclude cc (cs ! i) p
                  = Some (gridNumbers ! (length (acc @ [nums]) + i))"
    by auto
  from pre have "take (length acc) (take (length (acc @ [nums])) gridNumbers) = take (length acc) (acc @ [nums])"
    by simp
  then have pre': "take (length acc) gridNumbers = acc" by (simp add: min_def)
  have "take (length (acc @ [nums])) gridNumbers ! length acc = gridNumbers ! length acc"
    by (intro nth_take) simp
  with pre have at: "gridNumbers ! length acc = nums" by simp
  have "\<forall>i<length (c # cs). \<exists>p. pickColumn rnd exclude cc ((c # cs) ! i) p
            = Some (gridNumbers ! (length acc + i))"
  proof (intro allI impI)
    fix i assume "i < length (c # cs)"
    show "\<exists>p. pickColumn rnd exclude cc ((c # cs) ! i) p = Some (gridNumbers ! (length acc + i))"
    proof (cases i)
      case 0
      with col at show ?thesis by auto
    next
      case (Suc j)
      with \<open>i < length (c # cs)\<close> cols show ?thesis by auto
    qed
  qed
  with len pre' show ?case by simp
qed

lemma pickNumbers_upt:
  assumes "pickNumbers rnd exclude cc [0..<n] [] pos = (Some gridNumbers, pos')"
  shows "length gridNumbers = n \<and>
         (\<forall>c<n. \<exists>p. pickColumn rnd exclude cc c p = Some (gridNumbers ! c))"
  using pickNumbers_result [OF assms] by simp

lemma pickNumbers_columns:
  assumes "pickNumbers rnd exclude cc [0..<9] [] pos = (Some gridNumbers, pos')"
  shows "length gridNumbers = 9"
    and "c < 9 \<Longrightarrow> sorted (gridNumbers ! c) \<and> distinct (gridNumbers ! c) \<and>
           length (gridNumbers ! c) = cc ! c \<and>
           (\<forall>n\<in>set (gridNumbers ! c).
               fst (colRanges ! c) \<le> n \<and> n \<le> snd (colRanges ! c) \<and> n \<notin> exclude)"
proof -
  note res = pickNumbers_upt [OF assms]
  from res show "length gridNumbers = 9" by blast
  assume "c < 9"
  with res obtain p where "pickColumn rnd exclude cc c p = Some (gridNumbers ! c)"
    by blast
  from pickColumn_result [OF this] show "sorted (gridNumbers ! c) \<and> distinct (gridNumbers ! c) \<and>
           length (gridNumbers ! c) = cc ! c \<and>
           (\<forall>n\<in>set (gridNumbers ! c).
               fst (colRanges ! c) \<le> n \<and> n \<le> snd (colRanges ! c) \<and> n \<notin> exclude)" .
qed

section \<open>Assigning columns to rows\<close>

lemma foldl_pushRow:
  assumes "c < length (rowAssignments st)"
  shows "rowAssignments (foldl (pushRow c) st picked)
           = (rowAssignments st)[c := rowAssignments st ! c @ picked] \<and>
         length (rowFillCounts (foldl (pushRow c) st picked)) = length (rowFillCounts st) \<and>
         (\<forall>r<length (rowFillCounts st).
             rowFillCounts (foldl (pushRow c) st picked) ! r
               = rowFillCounts st ! r + count_list picked r)"
  using assms
proof (induction picked arbitrary: st)
  case Nil
  then show ?case by simp
next
  case (Cons p picked)
  let ?st = "pushRow c st p"
  have ra: "rowAssignments ?st = (rowAssignments st)[c := rowAssignments st ! c @ [p]]"
    and rf: "rowFillCounts ?st = (rowFillCounts st)[p := rowFillCounts st ! p + 1]"
    by (simp_all add: pushRow_def)
  have len: "c < length (rowAssignments ?st)" using Cons.prems by (simp add: ra)
  note ih = Cons.IH [OF len]
  have "rowAssignments (foldl (pushRow c) st (p # picked))
          = (rowAssignments st)[c := rowAssignments st ! c @ p # picked]"
    using ih Cons.prems by (simp add: ra)
  moreover have "length (rowFillCounts (foldl (pushRow c) st (p # picked)))
          = length (rowFillCounts st)"
    using ih by (simp add: rf)
  moreover have "\<forall>r<length (rowFillCounts st).
      rowFillCounts (foldl (pushRow c) st (p # picked)) ! r
        = rowFillCounts st ! r + count_list (p # picked) r"
  proof (intro allI impI)
    fix r assume r: "r < length (rowFillCounts st)"
    then have "rowFillCounts (foldl (pushRow c) ?st picked) ! r
                 = rowFillCounts ?st ! r + count_list picked r"
      using ih by (simp add: rf)
    moreover have "rowFillCounts ?st ! r = rowFillCounts st ! r + (if p = r then 1 else 0)"
      using r by (simp add: rf nth_list_update)
    ultimately show "rowFillCounts (foldl (pushRow c) st (p # picked)) ! r
        = rowFillCounts st ! r + count_list (p # picked) r"
      by simp
  qed
  ultimately show ?case by blast
qed

lemma sum_list_map_update_empty:
  fixes f :: "'a list \<Rightarrow> nat"
  assumes "c < length xss" and "xss ! c = []" and "f [] = 0"
  shows "sum_list (map f (xss[c := ys])) = sum_list (map f xss) + f ys"
proof -
  have "sum_list ((map f xss)[c := f ys]) = sum_list (map f xss) + f ys - map f xss ! c"
    using assms(1) by (intro sum_list_update) simp
  then show ?thesis using assms by (simp add: map_update)
qed

lemma availRows_props:
  "distinct (filter P [0, 1, 2::nat]) \<and> set (filter P [0, 1, 2::nat]) \<subseteq> {0, 1, 2}"
  by auto

lemma assignColumn_inv:
  assumes inv: "rowInv cc done st" and c: "c < 9" "c \<notin> done"
      and step: "assignColumn rnd cc c st pos = Some st'"
  shows "rowInv cc (insert c done) st'"
proof -
  define avail where "avail = filter (\<lambda>r. rowFillCounts st ! r < 5) [0, 1, 2::nat]"
  let ?picked = "take (cc ! c) (sortRandom (rnd pos) avail)"
  have av: "distinct avail" "set avail \<subseteq> {0, 1, 2}"
    using availRows_props [of "\<lambda>r. rowFillCounts st ! r < 5"] by (simp_all only: avail_def)
  from step have "(if length avail < cc ! c then None
                   else Some (foldl (pushRow c) st ?picked)) = Some st'"
    unfolding assignColumn_def Let_def avail_def [symmetric] .
  then have enough: "cc ! c \<le> length avail" and st': "st' = foldl (pushRow c) st ?picked"
    by (simp_all split: if_splits)
  from inv have len: "length (rowAssignments st) = 9" "length (rowFillCounts st) = 3"
    and fill: "\<forall>r<3. rowFillCounts st ! r = sum_list (map (\<lambda>xs. count_list xs r) (rowAssignments st))"
    and cols: "\<forall>c'<9. if c' \<in> done
            then distinct (rowAssignments st ! c') \<and> set (rowAssignments st ! c') \<subseteq> {0, 1, 2} \<and>
                 length (rowAssignments st ! c') = cc ! c'
            else rowAssignments st ! c' = []"
    unfolding rowInv_def by blast+
  from cols c have empty: "rowAssignments st ! c = []" by simp
  have dp: "distinct ?picked" using av(1) by (simp add: distinct_take)
  have "set ?picked \<subseteq> set (sortRandom (rnd pos) avail)" by (rule set_take_subset)
  with av(2) have sp: "set ?picked \<subseteq> {0, 1, 2}" by simp
  have lp: "length ?picked = cc ! c" using enough by simp
  have c9: "c < length (rowAssignments st)" using c len by simp
  note eff = foldl_pushRow [OF c9, of ?picked]
  have ra': "rowAssignments st' = (rowAssignments st)[c := ?picked]"
    using eff empty by (simp add: st')
  have rf': "\<forall>r<3. rowFillCounts st' ! r = rowFillCounts st ! r + count_list ?picked r"
    using eff len by (simp add: st')
  have l1: "length (rowAssignments st') = 9" using len by (simp add: ra')
  have l2: "length (rowFillCounts st') = 3" using eff len by (simp add: st')
  have cols': "\<forall>c'<9. if c' \<in> insert c done
            then distinct (rowAssignments st' ! c') \<and> set (rowAssignments st' ! c') \<subseteq> {0, 1, 2} \<and>
                 length (rowAssignments st' ! c') = cc ! c'
            else rowAssignments st' ! c' = []"
  proof (intro allI impI)
    fix c' :: nat assume c': "c' < 9"
    show "if c' \<in> insert c done
            then distinct (rowAssignments st' ! c') \<and> set (rowAssignments st' ! c') \<subseteq> {0, 1, 2} \<and>
                 length (rowAssignments st' ! c') = cc ! c'
            else rowAssignments st' ! c' = []"
    proof (cases "c' = c")
      case True
      then have "rowAssignments st' ! c' = ?picked" using c9 by (simp add: ra')
      with True dp sp lp show ?thesis by simp
    next
      case False
      then have same: "rowAssignments st' ! c' = rowAssignments st ! c'" by (simp add: ra')
      from cols c' have "if c' \<in> done
            then distinct (rowAssignments st ! c') \<and> set (rowAssignments st ! c') \<subseteq> {0, 1, 2} \<and>
                 length (rowAssignments st ! c') = cc ! c'
            else rowAssignments st ! c' = []" by blast
      with False same show ?thesis by (simp split: if_splits)
    qed
  qed
  have fill': "\<forall>r<3. rowFillCounts st' ! r
                 = sum_list (map (\<lambda>xs. count_list xs r) (rowAssignments st'))"
  proof (intro allI impI)
    fix r :: nat assume r: "r < 3"
    have "sum_list (map (\<lambda>xs. count_list xs r) ((rowAssignments st)[c := ?picked]))
            = sum_list (map (\<lambda>xs. count_list xs r) (rowAssignments st)) + count_list ?picked r"
      using c9 empty by (intro sum_list_map_update_empty) simp_all
    with rf' fill r show "rowFillCounts st' ! r
                 = sum_list (map (\<lambda>xs. count_list xs r) (rowAssignments st'))"
      by (simp add: ra')
  qed
  from l1 l2 cols' fill' show ?thesis unfolding rowInv_def by blast
qed

lemma assignRows_inv:
  assumes "assignRows rnd cc cs st pos = (True, st', pos')"
      and "rowInv cc done st" and "distinct cs" and "\<forall>c\<in>set cs. c < 9 \<and> c \<notin> done"
  shows "rowInv cc (done \<union> set cs) st'"
  using assms
proof (induction cs arbitrary: st pos "done")
  case Nil
  then show ?case by simp
next
  case (Cons c cs)
  from Cons.prems(1) obtain st1 where
    step: "assignColumn rnd cc c st pos = Some st1"
    and rest: "assignRows rnd cc cs st1 (pos + 1) = (True, st', pos')"
    by (auto split: option.splits)
  have inv1: "rowInv cc (insert c done) st1"
    using Cons.prems(2,4) step by (intro assignColumn_inv [of cc "done" st c rnd pos]) simp_all
  have "rowInv cc (insert c done \<union> set cs) st'"
    using Cons.prems(3,4) by (intro Cons.IH [OF rest inv1]) auto
  then show ?case by simp
qed

lemma colsIndices_perm:
  "distinct (colsIndices cc) \<and> set (colsIndices cc) = {0..<9}"
  by (simp add: colsIndices_def del: upt_Suc)

lemma rowInv_initial:
  "rowInv cc {} \<lparr> rowAssignments = replicate 9 [], rowFillCounts = [0, 0, 0] \<rparr>"
proof -
  have "sum_list (map (\<lambda>xs. count_list xs r) (replicate n ([] :: nat list))) = 0" for r n
    by (induction n) simp_all
  then show ?thesis by (simp add: rowInv_def nth_Cons' )
qed

lemma rowAttempt_success:
  assumes "rowAttempt rnd cc gridNumbers pos = (Some grid, pos')"
  shows "\<exists>st. rowInv cc {0..<9} st \<and> (\<forall>r<3. rowFillCounts st ! r = 5) \<and>
              grid = buildGrid (rowAssignments st) gridNumbers"
proof -
  let ?init = "\<lparr> rowAssignments = replicate 9 [], rowFillCounts = [0, 0, 0] \<rparr>"
  obtain valid st p where run: "assignRows rnd cc (colsIndices cc) ?init pos = (valid, st, p)"
    by (cases "assignRows rnd cc (colsIndices cc) ?init pos") auto
  with assms have valid: "valid" and five: "list_all (\<lambda>c. c = 5) (rowFillCounts st)"
    and grid: "grid = buildGrid (rowAssignments st) gridNumbers"
    by (auto simp add: rowAttempt_def split: if_splits)
  have "rowInv cc ({} \<union> set (colsIndices cc)) st"
    using run valid colsIndices_perm [of cc]
    by (intro assignRows_inv [of rnd cc "colsIndices cc" ?init pos st p "{}"])
       (simp_all add: rowInv_initial)
  then have inv: "rowInv cc {0..<9} st" using colsIndices_perm [of cc] by simp
  then have "length (rowFillCounts st) = 3" by (simp add: rowInv_def)
  with five have "\<forall>r<3. rowFillCounts st ! r = 5" by (simp add: list_all_length)
  with inv grid show ?thesis by blast
qed

lemma distributeRows_success:
  assumes "distributeRows rnd cc gridNumbers attempt pos = (Some grid, pos')"
  shows "\<exists>p. rowAttempt rnd cc gridNumbers p = (Some grid, pos')"
  using assms
proof (induction rnd cc gridNumbers attempt pos rule: distributeRows.induct)
  case (1 rnd cc gridNumbers attempt pos)
  show ?case
  proof (cases "attempt < 100")
    case False
    with "1.prems" show ?thesis by (simp add: distributeRows.simps)
  next
    case True
    obtain g p where att: "rowAttempt rnd cc gridNumbers pos = (g, p)"
      by (cases "rowAttempt rnd cc gridNumbers pos") auto
    show ?thesis
    proof (cases g)
      case None
      with True att "1.prems" have "distributeRows rnd cc gridNumbers (attempt + 1) p = (Some grid, pos')"
        by (simp add: distributeRows.simps)
      with "1.IH" [OF True att [symmetric] None] show ?thesis by blast
    next
      case (Some g')
      with True att "1.prems" have "g' = grid" "p = pos'"
        by (simp_all add: distributeRows.simps)
      with att Some show ?thesis by blast
    qed
  qed
qed

section \<open>Building the grid\<close>

lemma setCell_props:
  assumes "r < length rs"
  shows "length (setCell rs r c n) = length rs"
    and "r' < length rs \<Longrightarrow>
           cells (setCell rs r c n ! r') = (if r' = r then (cells (rs ! r))[c := Some n] else cells (rs ! r'))"
    and "r' < length rs \<Longrightarrow> marked (setCell rs r c n ! r') = marked (rs ! r')"
  using assms by (auto simp add: setCell_def nth_list_update)

text \<open>
  Writing one column: the pairs of a row index and a number are written in order; a row
  index occurs once, so a row gets the number paired with it and the other rows keep
  their cell.
\<close>

lemma foldl_setCell:
  assumes "\<forall>r\<in>set (map fst ps). r < length rs" and "distinct (map fst ps)"
  shows "length (foldl (\<lambda>rs (r, n). setCell rs r c n) rs ps) = length rs \<and>
         (\<forall>r'<length rs.
            cells (foldl (\<lambda>rs (r, n). setCell rs r c n) rs ps ! r')
              = (case map_of ps r' of None \<Rightarrow> cells (rs ! r')
                 | Some n \<Rightarrow> (cells (rs ! r'))[c := Some n]) \<and>
            marked (foldl (\<lambda>rs (r, n). setCell rs r c n) rs ps ! r') = marked (rs ! r'))"
  using assms
proof (induction ps arbitrary: rs)
  case Nil
  then show ?case by simp
next
  case (Cons p ps)
  obtain r n where p: "p = (r, n)" by (cases p)
  let ?rs = "setCell rs r c n"
  have r: "r < length rs" using Cons.prems(1) p by simp
  have len: "length ?rs = length rs" using r by (rule setCell_props(1))
  have notin: "r \<notin> set (map fst ps)" using Cons.prems(2) p by simp
  then have none: "map_of ps r = None" by (simp add: map_of_eq_None_iff)
  have pre: "\<forall>r\<in>set (map fst ps). r < length ?rs" "distinct (map fst ps)"
    using Cons.prems p len by simp_all
  note ih = Cons.IH [OF pre]
  have fold: "foldl (\<lambda>rs (r, n). setCell rs r c n) rs (p # ps)
                = foldl (\<lambda>rs (r, n). setCell rs r c n) ?rs ps"
    by (simp add: p)
  show ?case
  proof (intro conjI allI impI)
    show "length (foldl (\<lambda>rs (r, n). setCell rs r c n) rs (p # ps)) = length rs"
      unfolding fold using ih len by simp
  next
    fix r' assume r': "r' < length rs"
    from ih r' len have c1: "cells (foldl (\<lambda>rs (r, n). setCell rs r c n) ?rs ps ! r')
              = (case map_of ps r' of None \<Rightarrow> cells (?rs ! r')
                 | Some n \<Rightarrow> (cells (?rs ! r'))[c := Some n])"
      by simp
    show "cells (foldl (\<lambda>rs (r, n). setCell rs r c n) rs (p # ps) ! r')
              = (case map_of (p # ps) r' of None \<Rightarrow> cells (rs ! r')
                 | Some n \<Rightarrow> (cells (rs ! r'))[c := Some n])"
    proof (cases "r' = r")
      case True
      with c1 none setCell_props(2) [OF r r', of c n] show ?thesis
        unfolding fold by (simp add: p)
    next
      case False
      with c1 setCell_props(2) [OF r r', of c n] show ?thesis
        unfolding fold by (simp add: p split: option.splits)
    qed
  next
    fix r' assume r': "r' < length rs"
    from ih r' len have "marked (foldl (\<lambda>rs (r, n). setCell rs r c n) ?rs ps ! r') = marked (?rs ! r')"
      by simp
    with setCell_props(3) [OF r r', of c n]
    show "marked (foldl (\<lambda>rs (r, n). setCell rs r c n) rs (p # ps) ! r') = marked (rs ! r')"
      unfolding fold by simp
  qed
qed

lemma zip_as_map:
  assumes "length xs = length ys"
  shows "zip xs ys = map (\<lambda>k. (xs ! k, ys ! k)) [0..<length ys]"
  using assms by (intro nth_equalityI) simp_all

lemma placeColumn_as_fold:
  assumes "length (ra ! c) = length (gridNumbers ! c)"
  shows "placeColumn ra gridNumbers rs c
           = foldl (\<lambda>rs (r, n). setCell rs r c n) rs (zip (sort (ra ! c)) (gridNumbers ! c))"
proof -
  have "length (sort (ra ! c)) = length (gridNumbers ! c)" using assms by simp
  from zip_as_map [OF this] show ?thesis
    by (simp add: placeColumn_def Let_def foldl_map)
qed

lemma placeColumn_cells:
  assumes len: "length (ra ! c) = length (gridNumbers ! c)"
      and dist: "distinct (ra ! c)" and rows: "\<forall>r\<in>set (ra ! c). r < length rs"
  shows "length (placeColumn ra gridNumbers rs c) = length rs"
    and "r' < length rs \<Longrightarrow>
           cells (placeColumn ra gridNumbers rs c ! r')
             = (case map_of (zip (sort (ra ! c)) (gridNumbers ! c)) r' of
                  None \<Rightarrow> cells (rs ! r')
                | Some n \<Rightarrow> (cells (rs ! r'))[c := Some n])"
    and "r' < length rs \<Longrightarrow> marked (placeColumn ra gridNumbers rs c ! r') = marked (rs ! r')"
proof -
  let ?ps = "zip (sort (ra ! c)) (gridNumbers ! c)"
  have fst: "map fst ?ps = sort (ra ! c)" using len by simp
  have "\<forall>r\<in>set (map fst ?ps). r < length rs" using rows unfolding fst by simp
  moreover have "distinct (map fst ?ps)" using dist unfolding fst by simp
  ultimately have res: "length (foldl (\<lambda>rs (r, n). setCell rs r c n) rs ?ps) = length rs \<and>
         (\<forall>r'<length rs.
            cells (foldl (\<lambda>rs (r, n). setCell rs r c n) rs ?ps ! r')
              = (case map_of ?ps r' of None \<Rightarrow> cells (rs ! r')
                 | Some n \<Rightarrow> (cells (rs ! r'))[c := Some n]) \<and>
            marked (foldl (\<lambda>rs (r, n). setCell rs r c n) rs ?ps ! r') = marked (rs ! r'))"
    by (rule foldl_setCell)
  note eq = placeColumn_as_fold [OF len, of rs]
  from res show "length (placeColumn ra gridNumbers rs c) = length rs" by (simp only: eq)
  from res show "r' < length rs \<Longrightarrow>
           cells (placeColumn ra gridNumbers rs c ! r')
             = (case map_of ?ps r' of None \<Rightarrow> cells (rs ! r')
                | Some n \<Rightarrow> (cells (rs ! r'))[c := Some n])"
    unfolding eq by blast
  from res show "r' < length rs \<Longrightarrow> marked (placeColumn ra gridNumbers rs c ! r') = marked (rs ! r')"
    unfolding eq by blast
qed

text \<open>
  The rows after the columns below \<open>k\<close> have been written: three rows of nine cells,
  nothing marked, a written column holding for each row the number paired with it, the
  other columns empty.
\<close>

lemma buildGrid_prefix:
  assumes cols: "\<forall>c<9. distinct (ra ! c) \<and> set (ra ! c) \<subseteq> {0, 1, 2} \<and>
                        length (ra ! c) = length (gridNumbers ! c)"
      and k: "k \<le> 9"
  defines "rs \<equiv> foldl (placeColumn ra gridNumbers) [emptyRow, emptyRow, emptyRow] [0..<k]"
  shows "length rs = 3 \<and>
         (\<forall>r<3. length (cells (rs ! r)) = 9 \<and> marked (rs ! r) = replicate 9 False \<and>
            (\<forall>c<9. cells (rs ! r) ! c
                = (if c < k then map_of (zip (sort (ra ! c)) (gridNumbers ! c)) r else None)))"
  using k unfolding rs_def
proof (induction k)
  case 0
  have "\<forall>r<3. [emptyRow, emptyRow, emptyRow] ! r = emptyRow"
    by (simp add: nth_Cons' )
  then show ?case by (simp add: emptyRow_def)
next
  case (Suc k)
  let ?rs = "foldl (placeColumn ra gridNumbers) [emptyRow, emptyRow, emptyRow] [0..<k]"
  from Suc have ih: "length ?rs = 3"
    "\<forall>r<3. length (cells (?rs ! r)) = 9 \<and> marked (?rs ! r) = replicate 9 False \<and>
        (\<forall>c<9. cells (?rs ! r) ! c
            = (if c < k then map_of (zip (sort (ra ! c)) (gridNumbers ! c)) r else None))"
    by simp_all
  have k9: "k < 9" using Suc.prems by simp
  with cols have col: "distinct (ra ! k)" "set (ra ! k) \<subseteq> {0, 1, 2}"
    "length (ra ! k) = length (gridNumbers ! k)" by blast+
  have inrows: "\<forall>r\<in>set (ra ! k). r < length ?rs" using col(2) ih(1) by auto
  note pc = placeColumn_cells [OF col(3) col(1) inrows]
  have step: "foldl (placeColumn ra gridNumbers) [emptyRow, emptyRow, emptyRow] [0..<Suc k]
                = placeColumn ra gridNumbers ?rs k"
    by simp
  have len: "length (foldl (placeColumn ra gridNumbers) [emptyRow, emptyRow, emptyRow] [0..<Suc k]) = 3"
    using pc(1) ih(1) by (simp only: step)
  have row: "length (cells (foldl (placeColumn ra gridNumbers) [emptyRow, emptyRow, emptyRow] [0..<Suc k] ! r)) = 9 \<and>
        marked (foldl (placeColumn ra gridNumbers) [emptyRow, emptyRow, emptyRow] [0..<Suc k] ! r)
            = replicate 9 False \<and>
        (\<forall>c<9. cells (foldl (placeColumn ra gridNumbers) [emptyRow, emptyRow, emptyRow] [0..<Suc k] ! r) ! c
            = (if c < Suc k then map_of (zip (sort (ra ! c)) (gridNumbers ! c)) r else None))"
    if r: "r < 3" for r
  proof -
    have r': "r < length ?rs" using ih(1) r by simp
    from ih(2) r have old: "length (cells (?rs ! r)) = 9" "marked (?rs ! r) = replicate 9 False"
      "\<forall>c<9. cells (?rs ! r) ! c
            = (if c < k then map_of (zip (sort (ra ! c)) (gridNumbers ! c)) r else None)"
      by blast+
    have new: "cells (placeColumn ra gridNumbers ?rs k ! r)
             = (case map_of (zip (sort (ra ! k)) (gridNumbers ! k)) r of
                  None \<Rightarrow> cells (?rs ! r)
                | Some n \<Rightarrow> (cells (?rs ! r))[k := Some n])"
      using pc(2) [OF r'] .
    have a: "length (cells (foldl (placeColumn ra gridNumbers) [emptyRow, emptyRow, emptyRow] [0..<Suc k] ! r)) = 9"
      using new old(1) by (simp only: step) (simp split: option.splits)
    have b: "marked (foldl (placeColumn ra gridNumbers) [emptyRow, emptyRow, emptyRow] [0..<Suc k] ! r)
            = replicate 9 False"
      using pc(3) [OF r'] old(2) by (simp only: step)
    have c: "cells (foldl (placeColumn ra gridNumbers) [emptyRow, emptyRow, emptyRow] [0..<Suc k] ! r) ! c
            = (if c < Suc k then map_of (zip (sort (ra ! c)) (gridNumbers ! c)) r else None)"
      if c: "c < 9" for c
    proof -
      from old(3) c have oc: "cells (?rs ! r) ! c
            = (if c < k then map_of (zip (sort (ra ! c)) (gridNumbers ! c)) r else None)"
        by blast
      show ?thesis
      proof (cases "c = k")
        case True
        with new old(1) oc k9 show ?thesis
          by (simp only: step) (simp split: option.splits)
      next
        case False
        with new old(1) oc show ?thesis
          by (simp only: step) (auto split: option.splits)
      qed
    qed
    from a b c show ?thesis by blast
  qed
  from len row show ?case by blast
qed

lemma buildGrid_cells:
  assumes "\<forall>c<9. distinct (ra ! c) \<and> set (ra ! c) \<subseteq> {0, 1, 2} \<and>
                  length (ra ! c) = length (gridNumbers ! c)"
  shows "length (rows (buildGrid ra gridNumbers)) = 3"
    and "r < 3 \<Longrightarrow> length (cells (rows (buildGrid ra gridNumbers) ! r)) = 9"
    and "r < 3 \<Longrightarrow> marked (rows (buildGrid ra gridNumbers) ! r) = replicate 9 False"
    and "r < 3 \<Longrightarrow> c < 9 \<Longrightarrow> cells (rows (buildGrid ra gridNumbers) ! r) ! c
           = map_of (zip (sort (ra ! c)) (gridNumbers ! c)) r"
  using buildGrid_prefix [OF assms, of 9] by (simp_all add: buildGrid_def del: upt_Suc)

section \<open>Reading a grid\<close>

lemma count_list_distinct: "distinct xs \<Longrightarrow> count_list xs x = (if x \<in> set xs then 1 else 0)"
  by (induction xs) auto

lemma sum_list_indicator:
  "sum_list (map (\<lambda>x. if P x then 1 else 0) xs) = length (filter P xs)"
  by (induction xs) simp_all

lemma map_by_index: "map f xs = map (\<lambda>i. f (xs ! i)) [0..<length xs]"
  by (intro nth_equalityI) simp_all

lemma length_filter_nth:
  "length (filter P xs) = length (filter (\<lambda>i. P (xs ! i)) [0..<length xs])"
proof -
  have "length (filter P (map (\<lambda>i. xs ! i) [0..<length xs]))
          = length (filter (P \<circ> (\<lambda>i. xs ! i)) [0..<length xs])"
    by (simp only: filter_map length_map)
  then show ?thesis by (simp only: map_nth comp_def)
qed

text \<open>The fill count of a row is the number of columns that hold the row.\<close>

lemma row_count:
  assumes "\<forall>c<length ra. distinct (ra ! c)"
  shows "sum_list (map (\<lambda>xs. count_list xs r) ra)
           = length (filter (\<lambda>c. r \<in> set (ra ! c)) [0..<length ra])"
proof -
  have "map (\<lambda>xs. count_list xs r) ra = map (\<lambda>c. count_list (ra ! c) r) [0..<length ra]"
    by (rule map_by_index)
  also have "\<dots> = map (\<lambda>c. if r \<in> set (ra ! c) then 1 else 0) [0..<length ra]"
    using assms by (intro map_cong) (simp_all add: count_list_distinct)
  finally show ?thesis by (simp only: sum_list_indicator)
qed

text \<open>
  Reading a column from the top row down: the rows of the column are sorted and paired
  in order with the numbers, so the numbers come back in their order.
\<close>

lemma read_sorted:
  assumes "sorted ris" and "distinct ris" and "\<forall>r\<in>set ris. lo \<le> r \<and> r < m"
      and "length ris = length nums"
  shows "map the (filter (\<lambda>n. n \<noteq> None) (map (map_of (zip ris nums)) [lo..<m])) = nums"
  using assms
proof (induction ris arbitrary: lo nums)
  case Nil
  then show ?case by (simp add: filter_empty_conv)
next
  case (Cons r ris)
  from Cons.prems(4) obtain n ns where nums: "nums = n # ns" and len: "length ris = length ns"
    by (cases nums) auto
  from Cons.prems(3) have r: "lo \<le> r" "r < m" by simp_all
  from Cons.prems(1,2) have above: "\<forall>y\<in>set ris. Suc r \<le> y"
    by (auto simp add: Suc_le_eq le_less)
  let ?f = "map_of (zip (r # ris) nums)"
  let ?g = "map_of (zip ris ns)"
  have "[lo..<m] = [lo..<r] @ [r..<m]"
    using r by (metis le_add_diff_inverse less_imp_le upt_add_eq_append)
  also have "[r..<m] = r # [Suc r..<m]" using r by (simp add: upt_conv_Cons)
  finally have split: "[lo..<m] = [lo..<r] @ r # [Suc r..<m]" .
  have low: "filter (\<lambda>n. n \<noteq> None) (map ?f [lo..<r]) = []"
  proof -
    have "?f x = None" if "x \<in> set [lo..<r]" for x
    proof -
      from that have "x < r" by simp
      with above have "x \<notin> set ris" "x \<noteq> r" by auto
      with len show ?thesis by (simp add: nums map_of_zip_is_None)
    qed
    then show ?thesis by (simp add: filter_empty_conv)
  qed
  have mid: "?f r = Some n" by (simp add: nums)
  have high: "map ?f [Suc r..<m] = map ?g [Suc r..<m]"
    by (intro map_cong) (auto simp add: nums)
  have "\<forall>y\<in>set ris. Suc r \<le> y \<and> y < m" using above Cons.prems(3) by simp
  with Cons.prems(1,2) len
  have ih: "map the (filter (\<lambda>n. n \<noteq> None) (map ?g [Suc r..<m])) = ns"
    by (intro Cons.IH) simp_all
  have "map the (filter (\<lambda>n. n \<noteq> None) (map ?f [lo..<m]))
          = map the (filter (\<lambda>n. n \<noteq> None) (map ?f [lo..<r]))
            @ map the (filter (\<lambda>n. n \<noteq> None) (?f r # map ?f [Suc r..<m]))"
    by (simp only: split map_append filter_append list.map)
  also have "\<dots> = n # map the (filter (\<lambda>n. n \<noteq> None) (map ?g [Suc r..<m]))"
    by (simp only: low high mid) simp
  finally show ?case by (simp only: ih nums)
qed

lemma set_columnNumbers:
  "set (columnNumbers g c) = {n. \<exists>row\<in>set (rows g). cells row ! c = Some n}"
  unfolding columnNumbers_def set_somes by (auto simp add: image_iff) metis

lemma numbersOf_rows: "numbersOf g = concat (map rowNumbers (rows g))"
proof -
  have "rowNumbers = (\<lambda>row. map the (filter (\<lambda>n. n \<noteq> None) (cells row)))"
    by (rule ext) (simp only: rowNumbers_def)
  then show ?thesis by (simp only: numbersOf_def)
qed

lemma set_numbersOf: "set (numbersOf g) = {n. \<exists>row\<in>set (rows g). Some n \<in> set (cells row)}"
  unfolding numbersOf_rows by (auto simp add: set_rowNumbers)

text \<open>The numbers of a grid are the numbers of its nine columns.\<close>

lemma numbersOf_columns:
  assumes "\<forall>row\<in>set (rows g). length (cells row) = 9"
  shows "set (numbersOf g) = (\<Union>c<9. set (columnNumbers g c))"
proof (intro set_eqI iffI)
  fix n assume "n \<in> set (numbersOf g)"
  then obtain row where row: "row \<in> set (rows g)" and "Some n \<in> set (cells row)"
    by (auto simp add: set_numbersOf)
  then obtain c where "c < length (cells row)" and c: "cells row ! c = Some n"
    by (auto simp add: in_set_conv_nth)
  with assms row have "c < 9" by simp
  moreover from row c have "n \<in> set (columnNumbers g c)"
    by (auto simp add: set_columnNumbers)
  ultimately show "n \<in> (\<Union>c<9. set (columnNumbers g c))" by blast
next
  fix n assume "n \<in> (\<Union>c<9. set (columnNumbers g c))"
  then obtain c where c: "c < 9" and "n \<in> set (columnNumbers g c)" by blast
  then obtain row where row: "row \<in> set (rows g)" and "cells row ! c = Some n"
    by (auto simp add: set_columnNumbers)
  with assms c have "Some n \<in> set (cells row)" by (metis nth_mem)
  with row show "n \<in> set (numbersOf g)"
    by (auto simp add: set_numbersOf)
qed

section \<open>The grid of a successful attempt\<close>

text \<open>
  \<open>ra\<close> are the row assignments and \<open>gn\<close> the numbers of the columns. When every
  column is assigned as many distinct rows as it has numbers and every row is assigned
  five times, the grid built from them has the rows and the columns below.
\<close>

lemma buildGrid_rows:
  assumes ra: "length ra = 9"
      and cols: "\<forall>c<9. distinct (ra ! c) \<and> set (ra ! c) \<subseteq> {0, 1, 2} \<and>
                        length (ra ! c) = length (gn ! c)"
      and fill: "\<forall>r<3. sum_list (map (\<lambda>xs. count_list xs r) ra) = 5"
      and r: "r < 3"
  shows "length (rowNumbers (rows (buildGrid ra gn) ! r)) = 5"
proof -
  let ?row = "rows (buildGrid ra gn) ! r"
  note bg = buildGrid_cells [OF cols]
  have l9: "length (cells ?row) = 9" using bg(2) r by blast
  have "length (rowNumbers ?row)
          = length (filter (\<lambda>c. cells ?row ! c \<noteq> None) [0..<length (cells ?row)])"
    unfolding rowNumbers_def length_map by (rule length_filter_nth)
  also have "\<dots> = length (filter (\<lambda>c. cells ?row ! c \<noteq> None) [0..<length ra])"
    by (simp only: l9 ra)
  also have "filter (\<lambda>c. cells ?row ! c \<noteq> None) [0..<length ra]
               = filter (\<lambda>c. r \<in> set (ra ! c)) [0..<length ra]"
  proof (intro filter_cong refl)
    fix c assume "c \<in> set [0..<length ra]"
    then have c: "c < 9" using ra by simp
    with cols have "length (sort (ra ! c)) = length (gn ! c)" by simp
    then have "(map_of (zip (sort (ra ! c)) (gn ! c)) r = None) = (r \<notin> set (sort (ra ! c)))"
      by (rule map_of_zip_is_None)
    with bg(4) [OF r c] show "(cells ?row ! c \<noteq> None) = (r \<in> set (ra ! c))" by simp
  qed
  also have "length (filter (\<lambda>c. r \<in> set (ra ! c)) [0..<length ra])
               = sum_list (map (\<lambda>xs. count_list xs r) ra)"
    using cols ra by (intro row_count [symmetric]) simp
  finally show ?thesis using fill r by simp
qed

lemma buildGrid_column:
  assumes cols: "\<forall>c<9. distinct (ra ! c) \<and> set (ra ! c) \<subseteq> {0, 1, 2} \<and>
                        length (ra ! c) = length (gn ! c)"
      and c: "c < 9"
  shows "columnNumbers (buildGrid ra gn) c = gn ! c"
proof -
  let ?g = "buildGrid ra gn"
  note bg = buildGrid_cells [OF cols]
  have "map (\<lambda>row. cells row ! c) (rows ?g)
          = map (\<lambda>r. cells (rows ?g ! r) ! c) [0..<length (rows ?g)]"
    by (rule map_by_index)
  also have "\<dots> = map (map_of (zip (sort (ra ! c)) (gn ! c))) [0..<3]"
    unfolding bg(1) using bg(4) c by (intro map_cong refl) simp
  finally have "columnNumbers ?g c
      = map the (filter (\<lambda>n. n \<noteq> None) (map (map_of (zip (sort (ra ! c)) (gn ! c))) [0..<3]))"
    by (simp only: columnNumbers_def)
  also have "\<dots> = gn ! c"
  proof (rule read_sorted)
    show "sorted (sort (ra ! c))" by simp
    show "distinct (sort (ra ! c))" using cols c by simp
    from cols c have "set (ra ! c) \<subseteq> {0, 1, 2}" by blast
    then show "\<forall>r\<in>set (sort (ra ! c)). 0 \<le> r \<and> r < 3" by auto
    show "length (sort (ra ! c)) = length (gn ! c)" using cols c by simp
  qed
  finally show ?thesis .
qed

section \<open>The bands of the columns\<close>

lemma colRanges_band:
  assumes "c < 9"
  shows "fst (colRanges ! c) = (if c = 0 then 1 else 10 * int c)"
    and "snd (colRanges ! c) = (if c = 8 then 90 else 10 * int c + 9)"
proof -
  from assms have "c = 0 \<or> c = 1 \<or> c = 2 \<or> c = 3 \<or> c = 4 \<or> c = 5 \<or> c = 6 \<or> c = 7 \<or> c = 8"
    by linarith
  then show "fst (colRanges ! c) = (if c = 0 then 1 else 10 * int c)"
    and "snd (colRanges ! c) = (if c = 8 then 90 else 10 * int c + 9)"
    by (auto simp add: colRanges_def)
qed

lemma bands_disjoint:
  assumes "c < 9" and "c' < 9" and "c \<noteq> c'"
      and "fst (colRanges ! c) \<le> n" and "n \<le> snd (colRanges ! c)"
      and "fst (colRanges ! c') \<le> n" and "n \<le> snd (colRanges ! c')"
  shows False
  using assms by (simp add: colRanges_band split: if_splits)

section \<open>The grid of the generators\<close>

lemma length_numbersOf:
  assumes "length (rows g) = 3" and "\<forall>r<3. length (rowNumbers (rows g ! r)) = 5"
  shows "length (numbersOf g) = 15"
proof -
  have "map length (map rowNumbers (rows g))
          = map (\<lambda>r. length (rowNumbers (rows g ! r))) [0..<length (rows g)]"
    unfolding map_map comp_def by (rule map_by_index)
  also have "\<dots> = map (\<lambda>r. 5) [0..<length (rows g)]"
    using assms by (intro map_cong refl) simp
  finally have "sum_list (map length (map rowNumbers (rows g))) = 5 * length (rows g)"
    by (simp add: sum_list_triv)
  then show ?thesis by (simp add: numbersOf_rows length_concat assms(1))
qed

lemma columns_card:
  assumes "columnsOk cc gn"
  shows "card (\<Union>c<9. set (gn ! c)) = 15"
proof -
  from assms have cc: "length cc = 9" "sum_list cc = 15"
    and col: "\<And>c. c < 9 \<Longrightarrow> distinct (gn ! c) \<and> length (gn ! c) = cc ! c \<and>
            (\<forall>n\<in>set (gn ! c). fst (colRanges ! c) \<le> n \<and> n \<le> snd (colRanges ! c))"
    unfolding columnsOk_def by blast+
  have disj: "\<forall>i\<in>{..<9::nat}. \<forall>j\<in>{..<9}. i \<noteq> j \<longrightarrow> set (gn ! i) \<inter> set (gn ! j) = {}"
  proof (intro ballI impI)
    fix i j :: nat assume ij: "i \<in> {..<9}" "j \<in> {..<9}" "i \<noteq> j"
    show "set (gn ! i) \<inter> set (gn ! j) = {}"
    proof (rule ccontr)
      assume "set (gn ! i) \<inter> set (gn ! j) \<noteq> {}"
      then obtain n where "n \<in> set (gn ! i)" "n \<in> set (gn ! j)" by blast
      with col [of i] col [of j] ij bands_disjoint [of i j n] show False by simp
    qed
  qed
  have "card (\<Union>c\<in>{..<9}. set (gn ! c)) = (\<Sum>c\<in>{..<9}. card (set (gn ! c)))"
    using disj by (intro card_UN_disjoint) simp_all
  also have "\<dots> = (\<Sum>c\<in>{..<9}. cc ! c)"
    using col by (intro sum.cong refl) (simp add: distinct_card)
  also have "\<dots> = sum_list cc"
    using cc(1) by (simp add: sum_list_sum_nth lessThan_atLeast0 del: sum.atLeast0_lessThan_Suc sum.lessThan_Suc)
  finally show ?thesis using cc(2) by simp
qed

text \<open>
  The grid of a successful attempt of step 3: three rows of nine cells with nothing
  marked, five numbers in each row, and column \<open>c\<close> read from the top row down is
  \<open>gn ! c\<close>. The 15 numbers of the grid are different from each other.
\<close>

lemma attempt_grid:
  assumes ok: "columnsOk cc gn"
      and att: "distributeRows rnd cc gn a p = (Some g, p')"
  shows "length (rows g) = 3"
    and "r < 3 \<Longrightarrow> length (cells (rows g ! r)) = 9"
    and "r < 3 \<Longrightarrow> marked (rows g ! r) = replicate 9 False"
    and "r < 3 \<Longrightarrow> length (rowNumbers (rows g ! r)) = 5"
    and "c < 9 \<Longrightarrow> columnNumbers g c = gn ! c"
    and "length (numbersOf g) = 15"
    and "set (numbersOf g) = (\<Union>c<9. set (gn ! c))"
    and "distinct (numbersOf g)"
proof -
  from distributeRows_success [OF att] obtain q where "rowAttempt rnd cc gn q = (Some g, p')"
    by blast
  from rowAttempt_success [OF this] obtain st where
    inv: "rowInv cc {0..<9} st" and five: "\<forall>r<3. rowFillCounts st ! r = 5"
    and g: "g = buildGrid (rowAssignments st) gn"
    by blast
  let ?ra = "rowAssignments st"
  from ok have len: "\<And>c. c < 9 \<Longrightarrow> length (gn ! c) = cc ! c"
    unfolding columnsOk_def by blast
  from inv have ra: "length ?ra = 9"
    and asg: "\<And>c. c < 9 \<Longrightarrow> distinct (?ra ! c) \<and> set (?ra ! c) \<subseteq> {0, 1, 2} \<and>
                  length (?ra ! c) = cc ! c"
    and cnt: "\<And>r. r < 3 \<Longrightarrow> rowFillCounts st ! r = sum_list (map (\<lambda>xs. count_list xs r) ?ra)"
    unfolding rowInv_def by (simp_all split: if_splits)
  from asg len have cols: "\<forall>c<9. distinct (?ra ! c) \<and> set (?ra ! c) \<subseteq> {0, 1, 2} \<and>
                        length (?ra ! c) = length (gn ! c)"
    by simp
  from five cnt have fill: "\<forall>r<3. sum_list (map (\<lambda>xs. count_list xs r) ?ra) = 5"
    by simp
  note bg = buildGrid_cells [OF cols]
  show l3: "length (rows g) = 3" using bg(1) by (simp only: g)
  show "r < 3 \<Longrightarrow> length (cells (rows g ! r)) = 9" using bg(2) by (simp only: g)
  show "r < 3 \<Longrightarrow> marked (rows g ! r) = replicate 9 False" using bg(3) by (simp only: g)
  show "r < 3 \<Longrightarrow> length (rowNumbers (rows g ! r)) = 5"
    using buildGrid_rows [OF ra cols fill] by (simp only: g)
  show cn: "c < 9 \<Longrightarrow> columnNumbers g c = gn ! c" for c
    using buildGrid_column [OF cols] by (simp only: g)
  have rows5: "\<forall>r<3. length (rowNumbers (rows g ! r)) = 5"
    using buildGrid_rows [OF ra cols fill] by (simp only: g) blast
  show l15: "length (numbersOf g) = 15" using l3 rows5 by (rule length_numbersOf)
  have "\<forall>row\<in>set (rows g). length (cells row) = 9"
  proof
    fix row assume "row \<in> set (rows g)"
    then obtain r where "r < length (rows g)" "row = rows g ! r"
      by (auto simp add: in_set_conv_nth)
    with bg(2) [of r] l3 show "length (cells row) = 9" by (simp add: g)
  qed
  then have "set (numbersOf g) = (\<Union>c<9. set (columnNumbers g c))"
    by (rule numbersOf_columns)
  also have "\<dots> = (\<Union>c<9. set (gn ! c))" using cn by simp
  finally show s: "set (numbersOf g) = (\<Union>c<9. set (gn ! c))" .
  have "card (set (numbersOf g)) = length (numbersOf g)"
    using columns_card [OF ok] by (simp only: s l15)
  then show "distinct (numbersOf g)" by (rule card_distinct)
qed

lemma generateUniqueGrid_columns:
  assumes "generateUniqueGrid rnd exclude pos = Some (Some g, pos')"
  shows "\<exists>cc gn p. columnsOk cc gn \<and> (\<forall>c<9. \<forall>n\<in>set (gn ! c). n \<notin> exclude) \<and>
                   distributeRows rnd cc gn 0 p = (Some g, pos')"
proof -
  from assms obtain cc p1 where fill: "fillColCounts rnd (replicate 9 1) 6 pos = Some (cc, p1)"
    by (auto simp add: generateUniqueGrid_def split: option.splits)
  with assms obtain gn p2 where pick: "pickNumbers rnd exclude cc [0..<9] [] p1 = (Some gn, p2)"
    and att: "distributeRows rnd cc gn 0 p2 = (Some g, pos')"
    by (auto simp add: generateUniqueGrid_def simp del: upt_Suc split: option.splits prod.splits)
  have "length (replicate 9 (1::nat)) = 9"
    and "\<forall>c<9. 1 \<le> replicate 9 (1::nat) ! c \<and> replicate 9 (1::nat) ! c \<le> 3"
    by simp_all
  from fillColCounts_result [OF fill this]
  have cc: "length cc = 9" "\<forall>c<9. 1 \<le> cc ! c \<and> cc ! c \<le> 3" "sum_list cc = 15"
    by (simp_all add: sum_list_replicate)
  note cols = pickNumbers_columns [OF pick]
  from cc cols have "columnsOk cc gn" unfolding columnsOk_def by blast
  moreover from cols(2) have "\<forall>c<9. \<forall>n\<in>set (gn ! c). n \<notin> exclude" by blast
  ultimately show ?thesis using att by blast
qed

section \<open>The grid generator of server.js\<close>

lemma sampleNums_inv:
  assumes "sampleNums rnd mn mx cnt nums pos = Some y"
  shows "mn \<le> mx \<and> distinct nums \<and> (\<forall>n\<in>set nums. mn \<le> n \<and> n \<le> mx) \<and> length nums \<le> cnt \<longrightarrow>
         distinct (fst y) \<and> (\<forall>n\<in>set (fst y). mn \<le> n \<and> n \<le> mx) \<and> length (fst y) = cnt"
  using assms
proof (induct rnd mn mx cnt nums pos y rule: sampleNums.raw_induct [rotated 1, consumes 1])
  case (1 f rnd mn mx cnt nums pos y)
  show ?case
  proof (intro impI)
    assume ok: "mn \<le> mx \<and> distinct nums \<and> (\<forall>n\<in>set nums. mn \<le> n \<and> n \<le> mx) \<and> length nums \<le> cnt"
    let ?n = "int (randomBelow rnd pos (nat (mx - mn + 1))) + mn"
    have "randomBelow rnd pos (nat (mx - mn + 1)) < nat (mx - mn + 1)"
      using ok by (simp add: randomBelow_def)
    then have n: "mn \<le> ?n" "?n \<le> mx" by linarith+
    show "distinct (fst y) \<and> (\<forall>n\<in>set (fst y). mn \<le> n \<and> n \<le> mx) \<and> length (fst y) = cnt"
    proof (cases "length nums < cnt")
      case False
      with 1(2) ok show ?thesis by auto
    next
      case True
      show ?thesis
      proof (cases "?n \<in> set nums")
        case seen: True
        with True 1(2) have "f rnd mn mx cnt nums (pos + 1) = Some y"
          by (simp add: Let_def)
        from 1(1) [OF this] ok show ?thesis by blast
      next
        case new: False
        with True 1(2) have call: "f rnd mn mx cnt (nums @ [?n]) (pos + 1) = Some y"
          by (simp add: Let_def)
        have "mn \<le> mx \<and> distinct (nums @ [?n]) \<and> (\<forall>n\<in>set (nums @ [?n]). mn \<le> n \<and> n \<le> mx) \<and>
              length (nums @ [?n]) \<le> cnt"
          using ok new n True by auto
        with 1(1) [OF call] show ?thesis by blast
      qed
    qed
  qed
qed

lemma sampleNums_result:
  assumes "sampleNums rnd (fst (colRanges ! c)) (snd (colRanges ! c)) (cc ! c) [] pos = Some (nums, pos')"
      and "c < 9"
  shows "sorted (sort nums) \<and> distinct (sort nums) \<and> length (sort nums) = cc ! c \<and>
         (\<forall>n\<in>set (sort nums). fst (colRanges ! c) \<le> n \<and> n \<le> snd (colRanges ! c))"
proof -
  have "fst (colRanges ! c) \<le> snd (colRanges ! c)"
    using assms(2) by (simp add: colRanges_band)
  with sampleNums_inv [OF assms(1)] show ?thesis by simp
qed

lemma sampleColumns_result:
  assumes "sampleColumns rnd cc cs acc pos = Some (gridNumbers, pos')"
  shows "length gridNumbers = length acc + length cs \<and>
         take (length acc) gridNumbers = acc \<and>
         (\<forall>i<length cs. \<exists>p nums q.
             sampleNums rnd (fst (colRanges ! (cs ! i))) (snd (colRanges ! (cs ! i))) (cc ! (cs ! i)) [] p
               = Some (nums, q) \<and>
             gridNumbers ! (length acc + i) = sort nums)"
  using assms
proof (induction cs arbitrary: acc pos)
  case Nil
  then show ?case by simp
next
  case (Cons c cs)
  from Cons.prems obtain nums q where
    col: "sampleNums rnd (fst (colRanges ! c)) (snd (colRanges ! c)) (cc ! c) [] pos = Some (nums, q)"
    and rest: "sampleColumns rnd cc cs (acc @ [sort nums]) q = Some (gridNumbers, pos')"
    by (auto split: option.splits)
  from Cons.IH [OF rest] have
    len: "length gridNumbers = length (acc @ [sort nums]) + length cs"
    and pre: "take (length (acc @ [sort nums])) gridNumbers = acc @ [sort nums]"
    and cols: "\<forall>i<length cs. \<exists>p nums' q.
             sampleNums rnd (fst (colRanges ! (cs ! i))) (snd (colRanges ! (cs ! i))) (cc ! (cs ! i)) [] p
               = Some (nums', q) \<and>
             gridNumbers ! (length (acc @ [sort nums]) + i) = sort nums'"
    by auto
  from pre have "take (length acc) (take (length (acc @ [sort nums])) gridNumbers)
                   = take (length acc) (acc @ [sort nums])"
    by simp
  then have pre': "take (length acc) gridNumbers = acc" by (simp add: min_def)
  have "take (length (acc @ [sort nums])) gridNumbers ! length acc = gridNumbers ! length acc"
    by (intro nth_take) simp
  with pre have at: "gridNumbers ! length acc = sort nums" by simp
  have "\<forall>i<length (c # cs). \<exists>p nums' q.
             sampleNums rnd (fst (colRanges ! ((c # cs) ! i))) (snd (colRanges ! ((c # cs) ! i)))
                 (cc ! ((c # cs) ! i)) [] p
               = Some (nums', q) \<and>
             gridNumbers ! (length acc + i) = sort nums'"
  proof (intro allI impI)
    fix i assume i: "i < length (c # cs)"
    show "\<exists>p nums' q.
             sampleNums rnd (fst (colRanges ! ((c # cs) ! i))) (snd (colRanges ! ((c # cs) ! i)))
                 (cc ! ((c # cs) ! i)) [] p
               = Some (nums', q) \<and>
             gridNumbers ! (length acc + i) = sort nums'"
    proof (cases i)
      case 0
      with col at show ?thesis by auto
    next
      case (Suc j)
      with i cols show ?thesis by auto
    qed
  qed
  with len pre' show ?case by simp
qed

lemma sampleColumns_upt:
  assumes "sampleColumns rnd cc [0..<n] [] pos = Some (gridNumbers, pos')"
  shows "length gridNumbers = n \<and>
         (\<forall>c<n. \<exists>p nums q.
             sampleNums rnd (fst (colRanges ! c)) (snd (colRanges ! c)) (cc ! c) [] p = Some (nums, q) \<and>
             gridNumbers ! c = sort nums)"
  using sampleColumns_result [OF assms] by simp

lemma sampleColumns_columns:
  assumes "sampleColumns rnd cc [0..<9] [] pos = Some (gridNumbers, pos')"
  shows "length gridNumbers = 9"
    and "c < 9 \<Longrightarrow> sorted (gridNumbers ! c) \<and> distinct (gridNumbers ! c) \<and>
           length (gridNumbers ! c) = cc ! c \<and>
           (\<forall>n\<in>set (gridNumbers ! c). fst (colRanges ! c) \<le> n \<and> n \<le> snd (colRanges ! c))"
proof -
  note res = sampleColumns_upt [OF assms]
  from res show "length gridNumbers = 9" by blast
  assume c: "c < 9"
  with res obtain p nums q where
    "sampleNums rnd (fst (colRanges ! c)) (snd (colRanges ! c)) (cc ! c) [] p = Some (nums, q)"
    and eq: "gridNumbers ! c = sort nums"
    by blast
  from sampleNums_result [OF this(1) c]
  show "sorted (gridNumbers ! c) \<and> distinct (gridNumbers ! c) \<and>
           length (gridNumbers ! c) = cc ! c \<and>
           (\<forall>n\<in>set (gridNumbers ! c). fst (colRanges ! c) \<le> n \<and> n \<le> snd (colRanges ! c))"
    unfolding eq .
qed

lemma generateGrid_columns:
  assumes "generateGrid rnd pos = Some y"
  shows "\<exists>cc gn p. columnsOk cc gn \<and> distributeRows rnd cc gn 0 p = (Some (fst y), snd y)"
  using assms
proof (induct rnd pos y rule: generateGrid.raw_induct [rotated 1, consumes 1])
  case (1 f rnd pos y)
  from 1(2) obtain cc p1 where fill: "fillColCounts rnd (replicate 9 1) 6 pos = Some (cc, p1)"
    by (auto split: option.splits)
  with 1(2) obtain gn p2 where cols: "sampleColumns rnd cc [0..<9] [] p1 = Some (gn, p2)"
    by (auto simp del: upt_Suc split: option.splits)
  obtain res p3 where att: "distributeRows rnd cc gn 0 p2 = (res, p3)"
    by (cases "distributeRows rnd cc gn 0 p2") auto
  show ?case
  proof (cases res)
    case None
    with 1(2) fill cols att have "f rnd p3 = Some y" by (simp del: upt_Suc)
    from 1(1) [OF this] show ?thesis .
  next
    case (Some g)
    with 1(2) fill cols att have y: "y = (g, p3)" by (simp del: upt_Suc)
    have "length (replicate 9 (1::nat)) = 9"
      and "\<forall>c<9. 1 \<le> replicate 9 (1::nat) ! c \<and> replicate 9 (1::nat) ! c \<le> 3"
      by simp_all
    from fillColCounts_result [OF fill this]
    have cc: "length cc = 9" "\<forall>c<9. 1 \<le> cc ! c \<and> cc ! c \<le> 3" "sum_list cc = 15"
      by (simp_all add: sum_list_replicate)
    from cc sampleColumns_columns [OF cols] have "columnsOk cc gn"
      unfolding columnsOk_def by blast
    with att Some y show ?thesis by auto
  qed
qed

section \<open>Structure of a generated grid\<close>

lemma columns_grid:
  assumes ok: "columnsOk cc gn"
      and att: "distributeRows rnd cc gn a p = (Some g, p')"
  shows "length (numbersOf g) = 15 \<and> length (rows g) = 3 \<and>
         (\<forall>r<3. length (cells (rows g ! r)) = 9 \<and>
                length (filter (\<lambda>n. n \<noteq> None) (cells (rows g ! r))) = 5) \<and>
         (\<forall>c<9. 1 \<le> length (columnNumbers g c) \<and> length (columnNumbers g c) \<le> 3 \<and>
                sorted_wrt (<) (columnNumbers g c) \<and>
                (\<forall>n\<in>set (columnNumbers g c).
                    (if c = 0 then 1 else 10 * int c) \<le> n \<and>
                    n \<le> (if c = 8 then 90 else 10 * int c + 9)))"
proof -
  note ag = attempt_grid [OF ok att]
  have col: "1 \<le> length (columnNumbers g c) \<and> length (columnNumbers g c) \<le> 3 \<and>
                sorted_wrt (<) (columnNumbers g c) \<and>
                (\<forall>n\<in>set (columnNumbers g c).
                    (if c = 0 then 1 else 10 * int c) \<le> n \<and>
                    n \<le> (if c = 8 then 90 else 10 * int c + 9))" if c: "c < 9" for c
  proof -
    from ok c have "1 \<le> cc ! c \<and> cc ! c \<le> 3" "sorted (gn ! c)" "distinct (gn ! c)"
      "length (gn ! c) = cc ! c"
      "\<forall>n\<in>set (gn ! c). fst (colRanges ! c) \<le> n \<and> n \<le> snd (colRanges ! c)"
      unfolding columnsOk_def by blast+
    then show ?thesis
      unfolding ag(5) [OF c] colRanges_band(1) [OF c] colRanges_band(2) [OF c]
      by (simp add: strict_sorted_iff)
  qed
  from ag(6) ag(1) ag(2) ag(4) [unfolded length_rowNumbers] col show ?thesis by blast
qed

text \<open>
  Claim C2. Every grid returned by the grid generators, \<open>generateUniqueGrid\<close> of
  number-generator.ts (for any exclusion set) and \<open>generateGrid\<close> of server.js, has
  exactly 15 numbers, three rows of nine cells with exactly 5 numbers each, between 1 and
  3 numbers in each of the nine columns, the numbers of a column strictly increasing from
  the top row to the bottom row, and every number in the band of its column: 1 to 9 in
  column 0, \<open>10 c\<close> to \<open>10 c + 9\<close> in the columns 1 to 7, 80 to 90 in column 8.
\<close>

theorem generated_grid_invariants:
  assumes "generateUniqueGrid rnd exclude pos = Some (Some g, pos') \<or>
           generateGrid rnd pos = Some (g, pos')"
  shows "length (numbersOf g) = 15 \<and> length (rows g) = 3 \<and>
         (\<forall>r<3. length (cells (rows g ! r)) = 9 \<and>
                length (filter (\<lambda>n. n \<noteq> None) (cells (rows g ! r))) = 5) \<and>
         (\<forall>c<9. 1 \<le> length (columnNumbers g c) \<and> length (columnNumbers g c) \<le> 3 \<and>
                sorted_wrt (<) (columnNumbers g c) \<and>
                (\<forall>n\<in>set (columnNumbers g c).
                    (if c = 0 then 1 else 10 * int c) \<le> n \<and>
                    n \<le> (if c = 8 then 90 else 10 * int c + 9)))"
  using assms
proof
  assume "generateUniqueGrid rnd exclude pos = Some (Some g, pos')"
  from generateUniqueGrid_columns [OF this] obtain cc gn p where
    "columnsOk cc gn" and "distributeRows rnd cc gn 0 p = (Some g, pos')"
    by blast
  then show ?thesis by (rule columns_grid)
next
  assume "generateGrid rnd pos = Some (g, pos')"
  from generateGrid_columns [OF this] obtain cc gn p where
    "columnsOk cc gn" and "distributeRows rnd cc gn 0 p = (Some g, pos')"
    by auto
  then show ?thesis by (rule columns_grid)
qed

text \<open>
  The theorem at the grids that the two generators produce from \<open>sampleRandom\<close>.
\<close>

theorem generated_grid_invariants_witness:
  "generateUniqueGrid sampleRandom {} 0 = Some (Some sampleGrid, 24) \<and>
   generateGrid sampleRandom 0 = Some (serverGrid, 30) \<and>
   length (numbersOf sampleGrid) = 15 \<and> length (numbersOf serverGrid) = 15 \<and>
   map (\<lambda>row. length (filter (\<lambda>n. n \<noteq> None) (cells row))) (rows sampleGrid) = [5, 5, 5] \<and>
   map (\<lambda>row. length (filter (\<lambda>n. n \<noteq> None) (cells row))) (rows serverGrid) = [5, 5, 5] \<and>
   map (columnNumbers sampleGrid) [0..<9]
     = [[1, 7], [10, 17], [20, 28], [30, 39], [40, 42], [51, 52], [62], [73], [83]] \<and>
   map (columnNumbers serverGrid) [0..<9]
     = [[7, 8], [18, 19], [20, 21], [32, 33], [44, 45], [56, 57], [68], [79], [89]]"
proof -
  have ts: "generateUniqueGrid sampleRandom {} 0 = Some (Some sampleGrid, 24)"
    by code_simp
  have js: "generateGrid sampleRandom 0 = Some (serverGrid, 30)"
    by code_simp
  from generated_grid_invariants [of sampleRandom "{}" 0 sampleGrid 24] ts
  have a: "length (numbersOf sampleGrid) = 15"
    "\<forall>r<3. length (filter (\<lambda>n. n \<noteq> None) (cells (rows sampleGrid ! r))) = 5"
    by blast+
  from generated_grid_invariants [of sampleRandom "{}" 0 serverGrid 30] js
  have b: "length (numbersOf serverGrid) = 15"
    "\<forall>r<3. length (filter (\<lambda>n. n \<noteq> None) (cells (rows serverGrid ! r))) = 5"
    by blast+
  have l: "length (rows sampleGrid) = 3" "length (rows serverGrid) = 3"
    by (simp_all add: sampleGrid_def serverGrid_def)
  have "map (\<lambda>row. length (filter (\<lambda>n. n \<noteq> None) (cells row))) (rows sampleGrid)
          = map (\<lambda>r. length (filter (\<lambda>n. n \<noteq> None) (cells (rows sampleGrid ! r)))) [0..<length (rows sampleGrid)]"
    by (rule map_by_index)
  also have "\<dots> = map (\<lambda>r. 5) [0..<length (rows sampleGrid)]"
    using a(2) l by (intro map_cong refl) simp
  finally have ra: "map (\<lambda>row. length (filter (\<lambda>n. n \<noteq> None) (cells row))) (rows sampleGrid) = [5, 5, 5]"
    by (simp add: l upt_rec)
  have "map (\<lambda>row. length (filter (\<lambda>n. n \<noteq> None) (cells row))) (rows serverGrid)
          = map (\<lambda>r. length (filter (\<lambda>n. n \<noteq> None) (cells (rows serverGrid ! r)))) [0..<length (rows serverGrid)]"
    by (rule map_by_index)
  also have "\<dots> = map (\<lambda>r. 5) [0..<length (rows serverGrid)]"
    using b(2) l by (intro map_cong refl) simp
  finally have rb: "map (\<lambda>row. length (filter (\<lambda>n. n \<noteq> None) (cells row))) (rows serverGrid) = [5, 5, 5]"
    by (simp add: l upt_rec)
  have ca: "map (columnNumbers sampleGrid) [0..<9]
     = [[1, 7], [10, 17], [20, 28], [30, 39], [40, 42], [51, 52], [62], [73], [83]]"
    by code_simp
  have cb: "map (columnNumbers serverGrid) [0..<9]
     = [[7, 8], [18, 19], [20, 21], [32, 33], [44, 45], [56, 57], [68], [79], [89]]"
    by code_simp
  from ts js a(1) b(1) ra rb ca cb show ?thesis by blast
qed

section \<open>The numbers of a ticket\<close>

lemma generateUniqueGrid_numbers:
  assumes "generateUniqueGrid rnd exclude pos = Some (Some g, pos')"
  shows "distinct (numbersOf g)" and "length (numbersOf g) = 15"
    and "set (numbersOf g) \<inter> exclude = {}"
    and "\<forall>n\<in>set (numbersOf g). 1 \<le> n \<and> n \<le> 90"
proof -
  from generateUniqueGrid_columns [OF assms] obtain cc gn p where
    ok: "columnsOk cc gn" and new: "\<forall>c<9. \<forall>n\<in>set (gn ! c). n \<notin> exclude"
    and att: "distributeRows rnd cc gn 0 p = (Some g, pos')"
    by blast
  note ag = attempt_grid [OF ok att]
  show "distinct (numbersOf g)" by (rule ag(8))
  show "length (numbersOf g) = 15" by (rule ag(6))
  show "set (numbersOf g) \<inter> exclude = {}" using new unfolding ag(7) by auto
  show "\<forall>n\<in>set (numbersOf g). 1 \<le> n \<and> n \<le> 90"
  proof
    fix n assume "n \<in> set (numbersOf g)"
    then obtain c where c: "c < 9" and n: "n \<in> set (gn ! c)" unfolding ag(7) by auto
    from ok c n have "fst (colRanges ! c) \<le> n \<and> n \<le> snd (colRanges ! c)"
      unfolding columnsOk_def by blast
    with c show "1 \<le> n \<and> n \<le> 90"
      by (simp add: colRanges_band split: if_splits)
  qed
qed

text \<open>Adding the cells of a grid to the used numbers adds its numbers other than 0.\<close>

lemma foldl_addCell:
  "foldl addCell used cs = used \<union> {n. Some n \<in> set cs \<and> n \<noteq> 0}"
  by (induction cs arbitrary: used) (auto simp add: addCell_def split: option.splits)

lemma addUsed_numbers: "addUsed g used = used \<union> {n. n \<in> set (numbersOf g) \<and> n \<noteq> 0}"
proof -
  have "foldl (\<lambda>u row. foldl addCell u (cells row)) used rs
          = used \<union> {n. (\<exists>row\<in>set rs. Some n \<in> set (cells row)) \<and> n \<noteq> 0}" for rs
    by (induction rs arbitrary: used) (auto simp add: foldl_addCell)
  then show ?thesis by (auto simp add: addUsed_def set_numbersOf)
qed

text \<open>
  The invariant of the loop of \<open>generateTicket\<close>: the used numbers are the numbers of
  the grids made so far, each grid has 15 numbers, and no number occurs twice.
\<close>

lemma generateTicketLoop_inv:
  assumes "generateTicketLoop rnd st pos = Some (st', pos')"
      and "usedNumbers st = set (concat (map numbersOf (loopGrids st)))"
      and "distinct (concat (map numbersOf (loopGrids st)))"
      and "\<forall>g\<in>set (loopGrids st). length (numbersOf g) = 15"
  shows "usedNumbers st' = set (concat (map numbersOf (loopGrids st'))) \<and>
         distinct (concat (map numbersOf (loopGrids st'))) \<and>
         (\<forall>g\<in>set (loopGrids st'). length (numbersOf g) = 15)"
  using assms
proof (induction rnd st pos rule: generateTicketLoop.induct)
  case (1 rnd st pos)
  show ?case
  proof (cases "length (loopGrids st) < 3 \<and> attempts st < 50")
    case False
    with "1.prems" show ?thesis by (simp add: generateTicketLoop.simps)
  next
    case True
    from True "1.prems"(1) obtain res p where
      gen: "generateUniqueGrid rnd (usedNumbers st) pos = Some (res, p)"
      by (auto simp add: generateTicketLoop.simps split: option.splits)
    show ?thesis
    proof (cases res)
      case None
      let ?st = "st\<lparr> attempts := attempts st + 1 \<rparr>"
      from True gen None "1.prems"(1) have run: "generateTicketLoop rnd ?st p = Some (st', pos')"
        by (simp add: generateTicketLoop.simps)
      from "1.IH"(1) [OF True gen refl None run] "1.prems"(2-4)
      show ?thesis by simp
    next
      case (Some grid)
      let ?st = "st\<lparr> loopGrids := loopGrids st @ [grid],
                      usedNumbers := addUsed grid (usedNumbers st),
                      attempts := attempts st + 1 \<rparr>"
      from True gen Some "1.prems"(1) have run: "generateTicketLoop rnd ?st p = Some (st', pos')"
        by (simp add: generateTicketLoop.simps)
      from gen Some have g: "generateUniqueGrid rnd (usedNumbers st) pos = Some (Some grid, p)"
        by simp
      note nums = generateUniqueGrid_numbers [OF g]
      from nums(4) have "{n. n \<in> set (numbersOf grid) \<and> n \<noteq> 0} = set (numbersOf grid)"
        by auto
      then have used: "usedNumbers ?st = set (concat (map numbersOf (loopGrids ?st)))"
        using "1.prems"(2) by (simp add: addUsed_numbers)
      have dist: "distinct (concat (map numbersOf (loopGrids ?st)))"
        using "1.prems"(2,3) nums(1,3) by (simp add: Int_commute)
      have fifteen: "\<forall>g\<in>set (loopGrids ?st). length (numbersOf g) = 15"
        using "1.prems"(4) nums(2) by simp
      from "1.IH"(2) [OF True gen refl Some run used dist fifteen]
      show ?thesis .
    qed
  qed
qed

lemma generateTicketLoop_bounds:
  assumes "generateTicketLoop rnd st pos = Some (st', pos')"
  shows "(length (loopGrids st) \<le> 3 \<longrightarrow> length (loopGrids st') \<le> 3) \<and>
         (attempts st \<le> 50 \<longrightarrow> attempts st' \<le> 50) \<and>
         \<not> (length (loopGrids st') < 3 \<and> attempts st' < 50)"
  using assms
proof (induction rnd st pos rule: generateTicketLoop.induct)
  case (1 rnd st pos)
  show ?case
  proof (cases "length (loopGrids st) < 3 \<and> attempts st < 50")
    case False
    with "1.prems" show ?thesis by (auto simp add: generateTicketLoop.simps)
  next
    case True
    from True "1.prems"(1) obtain res p where
      gen: "generateUniqueGrid rnd (usedNumbers st) pos = Some (res, p)"
      by (auto simp add: generateTicketLoop.simps split: option.splits)
    show ?thesis
    proof (cases res)
      case None
      let ?st = "st\<lparr> attempts := attempts st + 1 \<rparr>"
      from True gen None "1.prems"(1) have run: "generateTicketLoop rnd ?st p = Some (st', pos')"
        by (simp add: generateTicketLoop.simps)
      from "1.IH"(1) [OF True gen refl None run] True
      show ?thesis by simp
    next
      case (Some grid)
      let ?st = "st\<lparr> loopGrids := loopGrids st @ [grid],
                      usedNumbers := addUsed grid (usedNumbers st),
                      attempts := attempts st + 1 \<rparr>"
      from True gen Some "1.prems"(1) have run: "generateTicketLoop rnd ?st p = Some (st', pos')"
        by (simp add: generateTicketLoop.simps)
      from "1.IH"(2) [OF True gen refl Some run] True
      show ?thesis by simp
    qed
  qed
qed

text \<open>
  Property X1. On every ticket that \<open>generateTicket\<close> of number-generator.ts returns, no
  number occurs twice; a ticket has at most three grids of 15 numbers each, so a ticket of
  three grids has 45 different numbers.
\<close>

theorem generateTicket_distinct:
  assumes "generateTicket rnd room owner now pos = Some (ticket, pos')"
  shows "distinct (ticketNumbers ticket) \<and> length (grids ticket) \<le> 3 \<and>
         length (ticketNumbers ticket) = 15 * length (grids ticket) \<and>
         (length (grids ticket) = 3 \<longrightarrow> card (set (ticketNumbers ticket)) = 45)"
proof -
  let ?init = "\<lparr> loopGrids = [], usedNumbers = {}, attempts = 0 \<rparr>"
  from assms obtain st p where
    run: "generateTicketLoop rnd ?init pos = Some (st, p)" and t: "grids ticket = loopGrids st"
    by (auto simp add: generateTicket_def split: option.splits)
  from generateTicketLoop_inv [OF run] have
    dist: "distinct (concat (map numbersOf (loopGrids st)))"
    and fifteen: "\<forall>g\<in>set (loopGrids st). length (numbersOf g) = 15"
    by simp_all
  from generateTicketLoop_bounds [OF run] have three: "length (loopGrids st) \<le> 3" by simp
  have "map length (map numbersOf (loopGrids st)) = map (\<lambda>g. 15) (loopGrids st)"
    using fifteen by simp
  then have len: "length (concat (map numbersOf (loopGrids st))) = 15 * length (loopGrids st)"
    by (simp only: length_concat sum_list_triv) simp
  from dist have "card (set (concat (map numbersOf (loopGrids st))))
      = length (concat (map numbersOf (loopGrids st)))"
    by (rule distinct_card)
  with dist three len show ?thesis by (simp add: ticketNumbers_def t)
qed

theorem generateTicket_distinct_witness:
  "generateTicket sampleRandom ''R'' ''o'' 0 0 = Some (numberTicket, 73) \<and>
   length (grids numberTicket) = 3 \<and> distinct (ticketNumbers numberTicket) \<and>
   length (ticketNumbers numberTicket) = 45 \<and> card (set (ticketNumbers numberTicket)) = 45"
proof -
  have run: "generateTicket sampleRandom ''R'' ''o'' 0 0 = Some (numberTicket, 73)"
    unfolding numberTicket_def by code_simp
  have three: "length (grids numberTicket) = 3"
    unfolding numberTicket_def by code_simp
  from generateTicket_distinct [OF run] three run show ?thesis by simp
qed

text \<open>
  Claim C3: for every ticket produced by the ticket generator, the numbers across its
  three grids are pairwise distinct. \<open>generateTicket\<close> of server.js does not behave so:
  it draws its three grids independently. From \<open>sampleRandom\<close> it makes a ticket of three
  grids and 45 cells with a number whose numbers are not distinct: 32 is in the first row
  of the first grid and in the first row of the third grid, and only 35 different numbers
  are on the ticket. \<open>generateTicket\<close> of number-generator.ts makes a ticket of 45
  different numbers from the same source.
\<close>

theorem generateTicket_js_repeats:
  "map_option (\<lambda>tp. length (grids (fst tp))) (generateTicket_js sampleRandom ''R'' ''o'' 0 0)
     = Some 3 \<and>
   map_option (\<lambda>tp. length (ticketNumbers (fst tp))) (generateTicket_js sampleRandom ''R'' ''o'' 0 0)
     = Some 45 \<and>
   map_option (\<lambda>tp. distinct (ticketNumbers (fst tp))) (generateTicket_js sampleRandom ''R'' ''o'' 0 0)
     = Some False \<and>
   map_option (\<lambda>tp. map (\<lambda>g. map the (filter (\<lambda>n. n \<noteq> None) (cells (rows g ! 0))))
                               (grids (fst tp)))
       (generateTicket_js sampleRandom ''R'' ''o'' 0 0)
     = Some [[7, 32, 44, 56, 68], [1, 30, 65, 77, 85], [4, 32, 65, 77, 82]] \<and>
   map_option (\<lambda>tp. length (remdups (ticketNumbers (fst tp))))
       (generateTicket_js sampleRandom ''R'' ''o'' 0 0)
     = Some 35 \<and>
   map_option (\<lambda>tp. distinct (ticketNumbers (fst tp))) (generateTicket sampleRandom ''R'' ''o'' 0 0)
     = Some True"
  by code_simp

section \<open>Termination of the generators\<close>











end
